(* ===== verification/Prelude.thy ===== *)
theory Prelude
  imports Complex_Main "HOL-Library.Word" "HOL-Library.Char_ord" "HOL-Library.List_Lexorder"
    "HOL-Library.Product_Lexorder" "HOL-Library.Multiset"
begin

section \<open>Shared vocabulary\<close>

text \<open>
  What every component of the harness uses: Go's fixed-width integers, the few functions of
  \<open>strings\<close> and \<open>fmt\<close> the sources call, iteration over Go maps, and sorting by a key.
  The collections \<open>frame\<close> and \<open>outcome\<close> are filled by the components: \<open>frame\<close> holds
  equations saying which state fields an operation leaves alone.
\<close>

named_theorems frame "state fields an operation does not touch"
named_theorems outcome "results of an operation branch by branch"

subsection \<open>Go integers\<close>

text \<open>\<open>int\<close> and \<open>int64\<close> are 64-bit two's complement; arithmetic wraps around.\<close>

definition wrap64 :: "int \<Rightarrow> int" where
  "wrap64 i = (i + 2 ^ 63) mod 2 ^ 64 - 2 ^ 63"

definition in_int64 :: "int \<Rightarrow> bool" where
  "in_int64 i \<longleftrightarrow> - (2 ^ 63) \<le> i \<and> i < 2 ^ 63"

lemma wrap64_id: "in_int64 i \<Longrightarrow> wrap64 i = i"
  by (simp add: wrap64_def in_int64_def)

lemma wrap64_range: "in_int64 (wrap64 i)"
  by (simp add: wrap64_def in_int64_def)

lemma wrap64_succ: "0 \<le> i \<Longrightarrow> i < 2 ^ 63 - 1 \<Longrightarrow> wrap64 (i + 1) = i + 1"
  by (rule wrap64_id) (simp add: in_int64_def)

text \<open>Go's integer division truncates towards zero.\<close>

definition quot :: "int \<Rightarrow> int \<Rightarrow> int" where
  "quot a b = sgn a * sgn b * (\<bar>a\<bar> div \<bar>b\<bar>)"

lemma quot_nonneg: "0 \<le> a \<Longrightarrow> 0 < b \<Longrightarrow> quot a b = a div b"
  by (cases "a = 0") (simp_all add: quot_def)

subsection \<open>Strings\<close>

text \<open>Strings are byte lists, compared byte by byte as Go compares them.\<close>

definition trim_right :: "char \<Rightarrow> string \<Rightarrow> string" where
  "trim_right c s = rev (dropWhile (\<lambda>x. x = c) (rev s))"

definition has_prefix :: "string \<Rightarrow> string \<Rightarrow> bool" where
  "has_prefix s p \<longleftrightarrow> take (length p) s = p"

lemma has_prefix_iff: "has_prefix s p \<longleftrightarrow> (\<exists>t. s = p @ t)"
  by (metis append_eq_conv_conj append_take_drop_id has_prefix_def)

lemma trim_right_last: "trim_right c s \<noteq> [] \<Longrightarrow> last (trim_right c s) \<noteq> c"
proof -
  assume "trim_right c s \<noteq> []"
  then have ne: "dropWhile (\<lambda>x. x = c) (rev s) \<noteq> []" by (simp add: trim_right_def)
  then show ?thesis using hd_dropWhile [OF ne] by (simp add: trim_right_def last_rev)
qed

lemma trim_right_keep: "s = [] \<or> last s \<noteq> c \<Longrightarrow> trim_right c s = s"
  by (cases "rev s") (auto simp: trim_right_def rev_swap)

lemma trim_right_idem [simp]: "trim_right c (trim_right c s) = trim_right c s"
  using trim_right_keep trim_right_last by blast

text \<open>\<open>strings.TrimSpace\<close> and \<open>strings.ToUpper\<close> for ASCII, and \<open>strings.ReplaceAll\<close> of one character.\<close>

definition is_space :: "char \<Rightarrow> bool" where
  "is_space c \<longleftrightarrow> c = CHR '' '' \<or> (let n = (of_char c :: nat) in 9 \<le> n \<and> n \<le> 13)"

definition trim_space :: "string \<Rightarrow> string" where
  "trim_space s = rev (dropWhile is_space (rev (dropWhile is_space s)))"

definition to_upper :: "string \<Rightarrow> string" where
  "to_upper s = map (\<lambda>c. let n = (of_char c :: nat) in if 97 \<le> n \<and> n \<le> 122 then char_of (n - 32) else c) s"

definition replace_char :: "char \<Rightarrow> string \<Rightarrow> string \<Rightarrow> string" where
  "replace_char c new s = concat (map (\<lambda>x. if x = c then new else [x]) s)"

text \<open>The decimal rendering of \<open>%d\<close>.\<close>

definition digit :: "nat \<Rightarrow> char" where
  "digit n = char_of (48 + n)"

fun nat_dec :: "nat \<Rightarrow> string" where
  "nat_dec n = (if n < 10 then [digit n] else nat_dec (n div 10) @ [digit (n mod 10)])"

declare nat_dec.simps [simp del]

definition int_dec :: "int \<Rightarrow> string" where
  "int_dec i = (if i < 0 then CHR ''-'' # nat_dec (nat (- i)) else nat_dec (nat i))"

definition dec_val :: "string \<Rightarrow> nat" where
  "dec_val s = foldl (\<lambda>a c. 10 * a + (of_char c - 48)) 0 s"

lemma of_char_digit: "n < 10 \<Longrightarrow> (of_char (digit n) :: nat) = 48 + n"
  by (simp add: digit_def)

lemma dec_val_snoc: "dec_val (s @ [c]) = 10 * dec_val s + (of_char c - 48)"
  by (simp add: dec_val_def)

lemma dec_val_nat_dec [simp]: "dec_val (nat_dec n) = n"
proof (induction n rule: nat_dec.induct)
  case (1 n)
  show ?case
  proof (cases "n < 10")
    case True
    then show ?thesis by (simp add: nat_dec.simps [of n] dec_val_def of_char_digit)
  next
    case False
    with "1.IH" show ?thesis
      by (simp add: nat_dec.simps [of n] dec_val_snoc of_char_digit)
  qed
qed

lemma nat_dec_inject [simp]: "nat_dec m = nat_dec n \<longleftrightarrow> m = n"
  by (metis dec_val_nat_dec)

lemma nat_dec_digits: "c \<in> set (nat_dec n) \<Longrightarrow> \<exists>d<10. c = digit d"
proof (induction n rule: nat_dec.induct)
  case (1 n)
  have "n mod 10 < 10" by simp
  then have last: "\<exists>d<10. digit (n mod 10) = digit d" by blast
  show ?case
  proof (cases "n < 10")
    case True
    with "1.prems" show ?thesis by (auto simp: nat_dec.simps [of n])
  next
    case False
    with "1.prems" have "c \<in> set (nat_dec (n div 10)) \<or> c = digit (n mod 10)"
      by (auto simp: nat_dec.simps [of n])
    with "1.IH" [OF False] last show ?thesis by blast
  qed
qed

lemma digit_not_minus: "d < 10 \<Longrightarrow> digit d \<noteq> CHR ''-''"
proof
  assume "d < 10" and "digit d = CHR ''-''"
  then have "48 + d = (of_char CHR ''-'' :: nat)" by (metis of_char_digit)
  then show False by simp
qed

lemma int_dec_inject [simp]: "int_dec i = int_dec j \<longleftrightarrow> i = j"
proof -
  have minus: "CHR ''-'' \<notin> set (nat_dec n)" for n
    using nat_dec_digits digit_not_minus by metis
  have sep: "nat_dec n \<noteq> CHR ''-'' # s" for n s
    using minus [of n] by (metis list.set_intros(1))
  show ?thesis
    by (auto simp: int_dec_def sep sep [symmetric] eq_nat_nat_iff)
qed

text \<open>The \<open>%q\<close> verb: a Go string literal.\<close>

definition hex_digit :: "nat \<Rightarrow> char" where
  "hex_digit n = (if n < 10 then char_of (48 + n) else char_of (87 + n))"

definition quote_char :: "char \<Rightarrow> string" where
  "quote_char c = (let n = (of_char c :: nat); bs = CHR 0x5C in
     if n = 34 \<or> n = 92 then [bs, c]
     else if n = 7 then [bs, CHR ''a''] else if n = 8 then [bs, CHR ''b'']
     else if n = 9 then [bs, CHR ''t''] else if n = 10 then [bs, CHR ''n'']
     else if n = 11 then [bs, CHR ''v''] else if n = 12 then [bs, CHR ''f'']
     else if n = 13 then [bs, CHR ''r'']
     else if n < 32 \<or> n = 127 then [bs, CHR ''x'', hex_digit (n div 16), hex_digit (n mod 16)]
     else [c])"

definition quoted :: "string \<Rightarrow> string" where
  "quoted s = CHR 0x22 # concat (map quote_char s) @ [CHR 0x22]"

text \<open>
  Errors are known by their text; wrapping with \<open>%w\<close> puts a prefix in front. A function
  that returns only an error returns \<open>None\<close> for nil.
\<close>

type_synonym go_error = string

subsection \<open>Timestamps\<close>

text \<open>
  An instant is its distance from the Unix epoch in nanoseconds. \<open>time.RFC3339\<close> in UTC shows
  the date of the proleptic Gregorian calendar and drops the fraction of the second.
  \<open>civil_of_days\<close> counts days in 400-year eras that start on 1 March, so that the leap day is
  the last day of a year.
\<close>

definition nanos_per_second :: int where
  "nanos_per_second = 1000000000"

definition civil_of_days :: "int \<Rightarrow> int \<times> int \<times> int" where
  "civil_of_days days =
     (let z = days + 719468;
          era = z div 146097;
          doe = z mod 146097;
          yoe = (doe - doe div 1460 + doe div 36524 - doe div 146096) div 365;
          doy = doe - (365 * yoe + yoe div 4 - yoe div 100);
          mp = (5 * doy + 2) div 153;
          d = doy - (153 * mp + 2) div 5 + 1;
          m = (if mp < 10 then mp + 3 else mp - 9)
      in (yoe + era * 400 + (if m \<le> 2 then 1 else 0), m, d))"

definition zero_pad :: "nat \<Rightarrow> int \<Rightarrow> string" where
  "zero_pad w i =
     (if i < 0 then ''-'' else []) @
     (let s = nat_dec (nat \<bar>i\<bar>) in replicate (w - length s) (CHR ''0'') @ s)"

definition rfc3339 :: "int \<Rightarrow> string" where
  "rfc3339 ns =
     (let secs = ns div nanos_per_second; sod = secs mod 86400
      in case civil_of_days (secs div 86400) of (y, m, d) \<Rightarrow>
        zero_pad 4 y @ ''-'' @ zero_pad 2 m @ ''-'' @ zero_pad 2 d @ ''T'' @
        zero_pad 2 (sod div 3600) @ '':'' @ zero_pad 2 (sod div 60 mod 60) @ '':'' @
        zero_pad 2 (sod mod 60) @ ''Z'')"

text \<open>\<open>time.Time\<close> is marshalled as \<open>time.RFC3339Nano\<close>: the fraction without its final zeros.\<close>

definition rfc3339_nano :: "int \<Rightarrow> string" where
  "rfc3339_nano ns =
     (let base = rfc3339 ns; frac = ns mod nanos_per_second
      in if frac = 0 then base
         else butlast base @ ''.'' @ trim_right (CHR ''0'') (zero_pad 9 frac) @ ''Z'')"

lemma rfc3339_epoch: "rfc3339 0 = ''1970-01-01T00:00:00Z''"
  by code_simp

lemma rfc3339_leap_day: "rfc3339 1709210096999999999 = ''2024-02-29T12:34:56Z''"
  by code_simp

text \<open>The formats \<open>15:04:05.000\<close> of a time and \<open>%.2f\<close> of a number, which rounds half to even.\<close>

definition clock_millis :: "int \<Rightarrow> string" where
  "clock_millis ns =
     (let sod = (ns div nanos_per_second) mod 86400; ms = ns mod nanos_per_second div 1000000
      in zero_pad 2 (sod div 3600) @ '':'' @ zero_pad 2 (sod div 60 mod 60) @ '':'' @
         zero_pad 2 (sod mod 60) @ ''.'' @ zero_pad 3 ms)"

definition round_half_even :: "rat \<Rightarrow> int" where
  "round_half_even q = (let f = floor q; r = q - of_int f in
     if r < 1 / 2 then f else if 1 / 2 < r then f + 1 else if even f then f else f + 1)"

definition fixed :: "nat \<Rightarrow> rat \<Rightarrow> string" where
  "fixed d q = (let n = round_half_even (\<bar>q\<bar> * 10 ^ d) in
     (if q < 0 then ''-'' else []) @ int_dec (n div 10 ^ d) @ ''.'' @ zero_pad d (n mod 10 ^ d))"

lemma fixed_examples: "fixed 2 (1 / 8) = ''0.12''" "fixed 3 (123456 / 10000) = ''12.346''"
  by code_simp+

subsection \<open>Ranging over a Go map\<close>

text \<open>
  A \<open>for range\<close> over a map visits every entry once, in an order the language leaves open: the
  order is an argument of the model, a list of keys that enumerates the map.
\<close>

definition enumerates :: "'k list \<Rightarrow> ('k \<rightharpoonup> 'v) \<Rightarrow> bool" where
  "enumerates order m \<longleftrightarrow> distinct order \<and> set order = dom m"

definition range_vals :: "'k list \<Rightarrow> ('k \<rightharpoonup> 'v) \<Rightarrow> 'v list" where
  "range_vals order m = List.map_filter m order"

lemma range_vals_simps [simp]:
  "range_vals [] m = []"
  "range_vals (k # ks) m = (case m k of None \<Rightarrow> range_vals ks m | Some v \<Rightarrow> v # range_vals ks m)"
  by (simp_all add: range_vals_def map_filter_simps split: option.splits)

lemma set_range_vals: "set (range_vals order m) = {v. \<exists>k\<in>set order. m k = Some v}"
  by (induction order) (auto split: option.splits)

lemma enumerates_set_range: "enumerates order m \<Longrightarrow> set (range_vals order m) = ran m"
  by (auto simp: enumerates_def set_range_vals ran_def)

lemma enumerates_mset:
  assumes "enumerates o1 m" and "enumerates o2 m"
  shows "mset (range_vals o1 m) = mset (range_vals o2 m)"
proof -
  have "mset o1 = mset o2"
    using assms by (simp add: enumerates_def set_eq_iff_mset_eq_distinct [symmetric])
  moreover have "mset (range_vals ks m) = image_mset (the \<circ> m) (filter_mset (\<lambda>k. m k \<noteq> None) (mset ks))"
    for ks
    by (induction ks) (auto split: option.splits)
  ultimately show ?thesis by simp
qed

lemma enumerates_length: "enumerates order m \<Longrightarrow> length (range_vals order m) = card (dom m)"
proof -
  assume e: "enumerates order m"
  have "set ks \<subseteq> dom m \<Longrightarrow> length (range_vals ks m) = length ks" for ks
    by (induction ks) (auto split: option.splits)
  with e show ?thesis by (metis distinct_card enumerates_def order_refl)
qed

subsection \<open>Sorting by a key\<close>

text \<open>
  \<open>sort.Slice\<close> promises a permutation in key order and nothing about equal keys. With
  distinct keys that contract fixes the result, whatever order the elements came in.
\<close>

locale slice_sorter =
  fixes key :: "'a \<Rightarrow> 'k::linorder" and sorter :: "'a list \<Rightarrow> 'a list"
  assumes sorter_permutes: "mset (sorter xs) = mset xs"
    and sorter_ordered: "sorted (map key (sorter xs))"
begin

lemma sorter_set: "set (sorter xs) = set xs"
  by (metis sorter_permutes set_mset_mset)

lemma sorter_length: "length (sorter xs) = length xs"
  by (metis sorter_permutes size_mset)

lemma sorter_order_independent:
  assumes "mset xs = mset ys" and "inj_on key (set xs)"
  shows "sorter xs = sorter ys"
proof (rule map_inj_on)
  have sets: "set xs = set ys" using assms(1) by (metis set_mset_mset)
  have "mset (map key (sorter ys)) = mset (map key (sorter xs))"
    using assms(1) by (simp add: sorter_permutes)
  then show "map key (sorter xs) = map key (sorter ys)"
    using properties_for_sort sorter_ordered by metis
  show "inj_on key (set (sorter xs) \<union> set (sorter ys))"
    using assms(2) sets by (simp add: sorter_set)
qed

end

end
