(* ===== verification/Json.thy ===== *)
theory Json
  imports Prelude
begin

section \<open>JSON values and decoding into structs\<close>

text \<open>
  What the sources use of \<open>encoding/json\<close>. A value is a tree; an object keeps its members
  in the order they were written, duplicates included. Decoding into a struct follows the
  package: a member is matched to a field regardless of ASCII case, an unknown member is
  ignored, a later member overwrites an earlier one, \<open>null\<close> leaves a field as it is, and a
  value of another kind is an error. A number keeps the spelling of its literal, because only
  an integer literal in range decodes into an \<open>int\<close> field.
\<close>

datatype jval =
    JNull
  | JBool bool
  | JInt int
  | JFrac string rat
  | JStr string
  | JArr "jval list"
  | JObj "(string \<times> jval) list"

datatype decode_error = Unreadable string | Mismatch string string string

definition decode_error_text :: "decode_error \<Rightarrow> string" where
  "decode_error_text e = (case e of
     Unreadable msg \<Rightarrow> msg
   | Mismatch val fld typ \<Rightarrow>
       (if fld = []
        then ''json: cannot unmarshal '' @ val @ '' into Go value of type '' @ typ
        else ''json: cannot unmarshal '' @ val @ '' into Go struct field '' @ fld @ '' of type '' @ typ))"

fun kind_text :: "jval \<Rightarrow> string" where
  "kind_text JNull = ''null''"
| "kind_text (JBool b) = ''bool''"
| "kind_text (JInt i) = ''number''"
| "kind_text (JFrac lit q) = ''number''"
| "kind_text (JStr s) = ''string''"
| "kind_text (JArr xs) = ''array''"
| "kind_text (JObj ms) = ''object''"

text \<open>Field names are matched after folding ASCII letters to lower case.\<close>

definition ascii_lower :: "char \<Rightarrow> char" where
  "ascii_lower c =
     (let n = (of_char c :: nat) in if 65 \<le> n \<and> n \<le> 90 then char_of (n + 32) else c)"

definition names_field :: "string \<Rightarrow> string \<Rightarrow> bool" where
  "names_field key fld \<longleftrightarrow> map ascii_lower key = map ascii_lower fld"

lemma names_field_refl [simp]: "names_field s s"
  by (simp add: names_field_def)

subsection \<open>Scalars\<close>

text \<open>Each decoder takes the field's path for the error text and the value the field holds.\<close>

fun dec_string :: "string \<Rightarrow> string \<Rightarrow> jval \<Rightarrow> decode_error + string" where
  "dec_string fld cur JNull = Inr cur"
| "dec_string fld cur (JStr s) = Inr s"
| "dec_string fld cur v = Inl (Mismatch (kind_text v) fld ''string'')"

fun dec_bool :: "string \<Rightarrow> bool \<Rightarrow> jval \<Rightarrow> decode_error + bool" where
  "dec_bool fld cur JNull = Inr cur"
| "dec_bool fld cur (JBool b) = Inr b"
| "dec_bool fld cur v = Inl (Mismatch (kind_text v) fld ''bool'')"

fun dec_int :: "string \<Rightarrow> int \<Rightarrow> jval \<Rightarrow> decode_error + int" where
  "dec_int fld cur JNull = Inr cur"
| "dec_int fld cur (JInt i) =
     (if in_int64 i then Inr i else Inl (Mismatch (''number '' @ int_dec i) fld ''int''))"
| "dec_int fld cur (JFrac lit q) = Inl (Mismatch (''number '' @ lit) fld ''int'')"
| "dec_int fld cur v = Inl (Mismatch (kind_text v) fld ''int'')"

fun dec_float :: "string \<Rightarrow> rat \<Rightarrow> jval \<Rightarrow> decode_error + rat" where
  "dec_float fld cur JNull = Inr cur"
| "dec_float fld cur (JInt i) = Inr (of_int i)"
| "dec_float fld cur (JFrac lit q) = Inr q"
| "dec_float fld cur v = Inl (Mismatch (kind_text v) fld ''float64'')"

text \<open>Storing a decoded value in a field keeps the error.\<close>

definition assign :: "decode_error + 'a \<Rightarrow> ('a \<Rightarrow> 'r) \<Rightarrow> decode_error + 'r" where
  "assign d f = (case d of Inl e \<Rightarrow> Inl e | Inr x \<Rightarrow> Inr (f x))"

lemma assign_simps [simp]:
  "assign (Inl e) f = Inl e"
  "assign (Inr x) f = Inr (f x)"
  by (simp_all add: assign_def)

text \<open>A \<open>[]any\<close> field keeps the elements as trees; \<open>null\<close> makes it nil.\<close>

fun dec_any_slice :: "string \<Rightarrow> jval \<Rightarrow> decode_error + jval list" where
  "dec_any_slice fld JNull = Inr []"
| "dec_any_slice fld (JArr xs) = Inr xs"
| "dec_any_slice fld v = Inl (Mismatch (kind_text v) fld ''[]interface {}'')"

subsection \<open>Structs and slices of structs\<close>

fun dec_members :: "(string \<Rightarrow> jval \<Rightarrow> 'r \<Rightarrow> decode_error + 'r) \<Rightarrow> (string \<times> jval) list \<Rightarrow> 'r \<Rightarrow> decode_error + 'r" where
  "dec_members fld [] r = Inr r"
| "dec_members fld ((k, v) # ms) r =
     (case fld k v r of Inl e \<Rightarrow> Inl e | Inr r' \<Rightarrow> dec_members fld ms r')"

fun dec_struct :: "string \<Rightarrow> string \<Rightarrow> (string \<Rightarrow> jval \<Rightarrow> 'r \<Rightarrow> decode_error + 'r) \<Rightarrow> 'r \<Rightarrow> jval \<Rightarrow> decode_error + 'r" where
  "dec_struct path typ fld r JNull = Inr r"
| "dec_struct path typ fld r (JObj ms) = dec_members fld ms r"
| "dec_struct path typ fld r v = Inl (Mismatch (kind_text v) path typ)"

fun dec_each :: "(jval \<Rightarrow> decode_error + 'r) \<Rightarrow> jval list \<Rightarrow> decode_error + 'r list" where
  "dec_each dec [] = Inr []"
| "dec_each dec (v # vs) = (case dec v of
     Inl e \<Rightarrow> Inl e
   | Inr r \<Rightarrow> (case dec_each dec vs of Inl e \<Rightarrow> Inl e | Inr rs \<Rightarrow> Inr (r # rs)))"

fun dec_slice :: "string \<Rightarrow> string \<Rightarrow> (jval \<Rightarrow> decode_error + 'r) \<Rightarrow> jval \<Rightarrow> decode_error + 'r list" where
  "dec_slice path typ dec JNull = Inr []"
| "dec_slice path typ dec (JArr xs) = dec_each dec xs"
| "dec_slice path typ dec v = Inl (Mismatch (kind_text v) path typ)"

text \<open>\<open>Decode\<close> on a stream first reads one value; a stream that holds none is an error.\<close>

definition decode_stream :: "(jval \<Rightarrow> decode_error + 'r) \<Rightarrow> string + jval \<Rightarrow> decode_error + 'r" where
  "decode_stream dec body = (case body of Inl msg \<Rightarrow> Inl (Unreadable msg) | Inr v \<Rightarrow> dec v)"

lemma dec_each_map:
  "(\<And>x. x \<in> set xs \<Longrightarrow> dec (enc x) = Inr (g x)) \<Longrightarrow> dec_each dec (map enc xs) = Inr (map g xs)"
  by (induction xs) simp_all

text \<open>The \<open>omitempty\<close> option leaves a member with the zero value out.\<close>

definition omit_empty :: "bool \<Rightarrow> string \<Rightarrow> jval \<Rightarrow> (string \<times> jval) list" where
  "omit_empty zero k v = (if zero then [] else [(k, v)])"

lemma omit_empty_simps [simp]:
  "omit_empty True k v = []"
  "omit_empty False k v = [(k, v)]"
  by (simp_all add: omit_empty_def)

text \<open>Members of a decoded map, kept in key order with the last value of each key.\<close>

fun put_member :: "string \<Rightarrow> 'v \<Rightarrow> (string \<times> 'v) list \<Rightarrow> (string \<times> 'v) list" where
  "put_member k v [] = [(k, v)]"
| "put_member k v ((l, u) # ms) =
     (if k < l then (k, v) # (l, u) # ms
      else if k = l then (k, v) # ms
      else (l, u) # put_member k v ms)"

subsection \<open>The text of a value\<close>

text \<open>
  The encoder's output: no spaces, strings with the short escapes, and \<open><\<close>, \<open>>\<close>, \<open>&\<close>
  escaped as the package does by default. Members come in the order of the tree, which the
  models build as the encoder would: struct fields as declared, map keys sorted.
\<close>

definition json_char :: "char \<Rightarrow> string" where
  "json_char c = (let n = (of_char c :: nat); bs = CHR 0x5C in
     if n = 34 \<or> n = 92 then [bs, c]
     else if n = 8 then [bs, CHR ''b''] else if n = 9 then [bs, CHR ''t'']
     else if n = 10 then [bs, CHR ''n''] else if n = 12 then [bs, CHR ''f'']
     else if n = 13 then [bs, CHR ''r'']
     else if n < 32 \<or> n = 38 \<or> n = 60 \<or> n = 62
       then bs # ''u00'' @ [hex_digit (n div 16), hex_digit (n mod 16)]
     else [c])"

definition json_string :: "string \<Rightarrow> string" where
  "json_string s = CHR 0x22 # concat (map json_char s) @ [CHR 0x22]"

fun join :: "string \<Rightarrow> string list \<Rightarrow> string" where
  "join sep [] = []"
| "join sep [x] = x"
| "join sep (x # y # xs) = x @ sep @ join sep (y # xs)"

fun json_text :: "jval \<Rightarrow> string" where
  "json_text JNull = ''null''"
| "json_text (JBool b) = (if b then ''true'' else ''false'')"
| "json_text (JInt i) = int_dec i"
| "json_text (JFrac lit q) = lit"
| "json_text (JStr s) = json_string s"
| "json_text (JArr xs) = ''['' @ join '','' (map json_text xs) @ '']''"
| "json_text (JObj ms) =
     ''{'' @ join '','' (map (\<lambda>(k, v). json_string k @ '':'' @ json_text v) ms) @ ''}''"

end
