(* ===== verification/Http.thy ===== *)
theory Http
  imports Json
begin

section \<open>HTTP as the harness sees it\<close>

text \<open>
  Requests, responses and the parts of \<open>net/http\<close> the sources rely on: the status line and
  body rules of \<open>ResponseWriter\<close>, method and path patterns of \<open>ServeMux\<close>, and what a
  client's \<open>Do\<close> returns. The path of a request is the list of its unescaped segments after
  the mux has cleaned it, so no inner segment is empty and a trailing slash is a last empty
  segment. A body is the JSON value at its head, or the text of the error a decoder returns
  when there is none.
\<close>

record request =
  rq_method :: string
  rq_path :: "string list"
  rq_uri :: string
  rq_body :: "string + jval"

datatype body = BNone | BRaw string | BJson jval

text \<open>
  What a handler did with its connection: a reply; no reply written (the server then sends an
  empty 200); the hijacked connection closed; a panic, which makes the server drop the
  connection.
\<close>

datatype outcome = Reply int body | Unwritten | Dropped | Panicked

definition body_allowed :: "int \<Rightarrow> bool" where
  "body_allowed status \<longleftrightarrow> \<not> (100 \<le> status \<and> status \<le> 199) \<and> status \<noteq> 204 \<and> status \<noteq> 304"

text \<open>
  \<open>WriteHeader(status)\<close> followed by one \<open>Write\<close>. A code outside 100..999 panics. An
  informational code other than 101 is sent ahead of the response, which then is a 200. A
  body is discarded where the status does not allow one.
\<close>

definition write_header :: "int \<Rightarrow> body \<Rightarrow> outcome" where
  "write_header status b =
     (if status < 100 \<or> 999 < status then Panicked
      else if status \<le> 199 \<and> status \<noteq> 101 then Reply 200 b
      else if body_allowed status then Reply status b
      else Reply status BNone)"

lemma write_header_plain:
  "200 \<le> status \<Longrightarrow> status \<le> 999 \<Longrightarrow> status \<noteq> 204 \<Longrightarrow> status \<noteq> 304 \<Longrightarrow>
   write_header status b = Reply status b"
  by (simp add: write_header_def body_allowed_def)

text \<open>A pattern segment is a literal or a wildcard, which matches one non-empty segment.\<close>

datatype seg = Lit string | Wild

fun match_path :: "seg list \<Rightarrow> string list \<Rightarrow> string list option" where
  "match_path [] [] = Some []"
| "match_path (Lit l # ps) (s # ss) = (if l = s then match_path ps ss else None)"
| "match_path (Wild # ps) (s # ss) =
     (if s = [] then None else map_option (\<lambda>vs. s # vs) (match_path ps ss))"
| "match_path _ _ = None"

definition match_method :: "string \<Rightarrow> string \<Rightarrow> bool" where
  "match_method pattern_method method \<longleftrightarrow>
     pattern_method = method \<or> pattern_method = ''GET'' \<and> method = ''HEAD''"

fun mux_find :: "(string \<times> seg list \<times> 'h) list \<Rightarrow> string \<Rightarrow> string list \<Rightarrow> ('h \<times> string list) option" where
  "mux_find [] m p = None"
| "mux_find ((pm, ps, h) # rs) m p =
     (if match_method pm m then
        (case match_path ps p of Some vs \<Rightarrow> Some (h, vs) | None \<Rightarrow> mux_find rs m p)
      else mux_find rs m p)"

definition path_known :: "(string \<times> seg list \<times> 'h) list \<Rightarrow> string list \<Rightarrow> bool" where
  "path_known rs p \<longleftrightarrow> list_ex (\<lambda>(pm, ps, h). match_path ps p \<noteq> None) rs"

text \<open>The mux answers 405 when only the method is wrong, else 404.\<close>

definition mux_miss :: "(string \<times> seg list \<times> 'h) list \<Rightarrow> string list \<Rightarrow> outcome" where
  "mux_miss rs p =
     (if path_known rs p then Reply 405 (BRaw ''Method Not Allowed'')
      else Reply 404 (BRaw ''404 page not found''))"

fun drop_body :: "outcome \<Rightarrow> outcome" where
  "drop_body (Reply st b) = Reply st BNone"
| "drop_body Unwritten = Unwritten"
| "drop_body Dropped = Dropped"
| "drop_body Panicked = Panicked"

subsection \<open>The client's side\<close>

record response =
  rs_status :: int
  rs_body :: "string + jval"
  rs_text :: string

fun read_body :: "body \<Rightarrow> string + jval" where
  "read_body BNone = Inl ''EOF''"
| "read_body (BRaw t) = Inl ''unexpected EOF''"
| "read_body (BJson v) = Inr v"

fun body_text :: "body \<Rightarrow> string" where
  "body_text BNone = []"
| "body_text (BRaw t) = t"
| "body_text (BJson v) = json_text v @ [CHR 0x0A]"

text \<open>
  What \<open>Client.Do\<close> returns for an outcome: an error when the connection went away without a
  response.
\<close>

fun client_view :: "outcome \<Rightarrow> string + response" where
  "client_view (Reply st b) = Inr \<lparr>rs_status = st, rs_body = read_body b, rs_text = body_text b\<rparr>"
| "client_view Unwritten = Inr \<lparr>rs_status = 200, rs_body = Inl ''EOF'', rs_text = []\<rparr>"
| "client_view Dropped = Inl ''EOF''"
| "client_view Panicked = Inl ''EOF''"

text \<open>
  A client of \<open>net/http\<close>: what \<open>url.Parse\<close> objects to in a URL, and one exchange, which
  takes the base URL, the request and the state of everything behind the network, and returns
  the response or the transport's error, and the new state. Both come from outside the
  harness, so the client is an argument of every function that uses it. The state is shared
  by all clients of one world.
\<close>

record 'w client =
  cl_url_error :: "string \<Rightarrow> go_error option"
  cl_do :: "string \<Rightarrow> request \<Rightarrow> 'w \<Rightarrow> (go_error + response) \<times> 'w"

text \<open>\<open>url.PathEscape\<close>: every byte but the unreserved and a few others becomes \<open>%XX\<close>.\<close>

definition path_keeps :: "char \<Rightarrow> bool" where
  "path_keeps c \<longleftrightarrow> (let n = (of_char c :: nat) in
     48 \<le> n \<and> n \<le> 57 \<or> 65 \<le> n \<and> n \<le> 90 \<or> 97 \<le> n \<and> n \<le> 122 \<or> c \<in> set ''-_.~$&+=:@'')"

definition upper_hex :: "nat \<Rightarrow> char" where
  "upper_hex n = (if n < 10 then char_of (48 + n) else char_of (55 + n))"

definition escape_char :: "char \<Rightarrow> string" where
  "escape_char c = (if path_keeps c then [c]
     else let n = (of_char c :: nat) in [CHR ''%'', upper_hex (n div 16), upper_hex (n mod 16)])"

definition path_escape :: "string \<Rightarrow> string" where
  "path_escape s = concat (map escape_char s)"

definition url_path :: "string list \<Rightarrow> string" where
  "url_path segs = concat (map (\<lambda>s. ''/'' @ path_escape s) segs)"

text \<open>Escaping loses nothing and leaves no slash, so a URL path determines its segments.\<close>

definition hex_value :: "char \<Rightarrow> nat" where
  "hex_value c = (let n = (of_char c :: nat) in if n < 58 then n - 48 else n - 55)"

fun path_unescape :: "string \<Rightarrow> string" where
  "path_unescape (c # h # l # s) =
     (if c = CHR ''%'' then char_of (16 * hex_value h + hex_value l) # path_unescape s
      else c # path_unescape (h # l # s))"
| "path_unescape (c # s) = c # path_unescape s"
| "path_unescape [] = []"

lemma path_unescape_keep: "c \<noteq> CHR ''%'' \<Longrightarrow> path_unescape (c # s) = c # path_unescape s"
  by (cases s; cases "tl s") auto

lemma hex_value_upper_hex: "n < 16 \<Longrightarrow> hex_value (upper_hex n) = n"
  by (auto simp: hex_value_def upper_hex_def Let_def)

lemma unescape_escape [simp]: "path_unescape (path_escape s) = s"
proof (induction s)
  case (Cons c s)
  have "(of_char c :: nat) < 256" by simp
  then have "(of_char c :: nat) div 16 < 16" by linarith
  moreover have "path_keeps c \<Longrightarrow> c \<noteq> CHR ''%''"
    by (auto simp: path_keeps_def Let_def)
  moreover have "char_of (16 * ((of_char c :: nat) div 16) + of_char c mod 16) = c" by simp
  ultimately show ?case
    using Cons by (auto simp: path_escape_def escape_char_def Let_def path_unescape_keep hex_value_upper_hex)
qed (simp add: path_escape_def)

lemma upper_hex_not_slash: "n < 16 \<Longrightarrow> upper_hex n \<noteq> CHR ''/''"
proof
  assume "n < 16" and "upper_hex n = CHR ''/''"
  then have "n = hex_value CHR ''/''" by (metis hex_value_upper_hex)
  with \<open>upper_hex n = CHR ''/''\<close> show False
    by (simp add: hex_value_def upper_hex_def char_of_def)
qed

lemma path_escape_no_slash: "CHR ''/'' \<notin> set (path_escape s)"
proof -
  have "CHR ''/'' \<notin> set (escape_char c)" for c
  proof -
    have "(of_char c :: nat) < 256" by simp
    then have "(of_char c :: nat) div 16 < 16" by linarith
    then have "upper_hex ((of_char c :: nat) div 16) \<noteq> CHR ''/''" by (rule upper_hex_not_slash)
    moreover have "upper_hex ((of_char c :: nat) mod 16) \<noteq> CHR ''/''" by (rule upper_hex_not_slash) simp
    moreover have "\<not> path_keeps CHR ''/''" by (simp add: path_keeps_def Let_def)
    ultimately show ?thesis by (auto simp: escape_char_def Let_def)
  qed
  then show ?thesis by (auto simp: path_escape_def)
qed

lemma path_escape_inject [simp]: "path_escape s = path_escape t \<longleftrightarrow> s = t"
  by (metis unescape_escape)

lemma url_path_simps [simp]:
  "url_path [] = []"
  "url_path (s # ss) = CHR ''/'' # path_escape s @ url_path ss"
  by (simp_all add: url_path_def)

lemma url_path_head: "takeWhile (\<lambda>c. c \<noteq> CHR ''/'') (path_escape s @ url_path ss) = path_escape s"
proof -
  have "takeWhile (\<lambda>c. c \<noteq> CHR ''/'') (url_path ss) = []" by (cases ss) simp_all
  moreover have "\<And>x. x \<in> set (path_escape s) \<Longrightarrow> x \<noteq> CHR ''/''"
    using path_escape_no_slash by metis
  ultimately show ?thesis by (simp add: takeWhile_append2)
qed

lemma url_path_inject: "url_path xs = url_path ys \<longleftrightarrow> xs = ys"
proof (induction xs arbitrary: ys)
  case Nil
  show ?case by (cases ys) simp_all
next
  case (Cons x xs)
  show ?case
  proof (cases ys)
    case (Cons y ys')
    have "path_escape x @ url_path xs = path_escape y @ url_path ys' \<Longrightarrow> x = y"
      by (metis path_escape_inject url_path_head)
    with Cons.IH [of ys'] Cons show ?thesis by auto
  qed simp
qed

text \<open>
  \<open>http.NewRequestWithContext\<close> for a base URL without a path and the path segments after
  it. The body is the value the client encodes; a nil body reads as the end of the stream.
\<close>

definition new_request :: "'w client \<Rightarrow> string \<Rightarrow> string \<Rightarrow> string list \<Rightarrow> jval option \<Rightarrow> go_error + request" where
  "new_request cl base meth segs body = (case cl_url_error cl (base @ url_path segs) of
     Some e \<Rightarrow> Inl e
   | None \<Rightarrow> Inr \<lparr>rq_method = meth, rq_path = segs, rq_uri = url_path segs,
       rq_body = (case body of None \<Rightarrow> Inl ''EOF'' | Some v \<Rightarrow> Inr v)\<rparr>)"

end
