(* ===== verification/Fixture_Server.thy ===== *)
theory Fixture_Server
  imports Http
begin

section \<open>The deterministic DSS and peer fixture\<close>

text \<open>
  \<open>internal/fixture/server.go\<close>. The server's state is the record \<open>server\<close>; each handler is a
  function from the environment of one exchange, the request and the state to the outcome and
  the new state. \<open>serve\<close> is the mux of \<open>Handler\<close> in front of them. The environment holds what
  the handler observes but does not control: whether the request's context outlasts a delay,
  what kind of connection it writes to, the two clock readings and the order in which a map is
  ranged over.
\<close>

subsection \<open>Data\<close>

definition OperationQueryReferences :: string where "OperationQueryReferences = ''dss.query_references''"
definition OperationGetReference :: string where "OperationGetReference = ''dss.get_reference''"
definition OperationCreateReference :: string where "OperationCreateReference = ''dss.create_reference''"
definition OperationUpdateReference :: string where "OperationUpdateReference = ''dss.update_reference''"
definition OperationDeleteReference :: string where "OperationDeleteReference = ''dss.delete_reference''"
definition OperationSubscriptions :: string where "OperationSubscriptions = ''dss.query_subscriptions''"
definition OperationPeerDetails :: string where "OperationPeerDetails = ''peer.get_details''"
definition OperationPeerNotify :: string where "OperationPeerNotify = ''peer.notify''"

lemmas operation_names = OperationQueryReferences_def OperationGetReference_def
  OperationCreateReference_def OperationUpdateReference_def OperationDeleteReference_def
  OperationSubscriptions_def OperationPeerDetails_def OperationPeerNotify_def

record fault_plan =
  fp_operation :: string
  fp_times :: int
  fp_status :: int
  fp_delay_ms :: int
  fp_close_after_commit :: bool
  fp_malformed_json :: bool

record fault_snapshot =
  fs_status :: int
  fs_delay_ms :: int
  fs_close_after_commit :: bool
  fs_malformed_json :: bool

record event =
  ev_sequence :: "64 word"
  ev_at :: int
  ev_operation :: string
  ev_method :: string
  ev_path :: string
  ev_intent_id :: string
  ev_status :: int
  ev_fault :: "fault_snapshot option"

record reference =
  rf_id :: string
  rf_manager :: string
  rf_ovn :: string
  rf_state :: string
  rf_subscription_id :: string
  rf_uss_availability :: string
  rf_uss_base_url :: string
  rf_version :: int
  rf_time_start :: jval
  rf_time_end :: jval
  rf_volumes :: "jval list"

record config =
  cf_manager :: string
  cf_peer_base_url :: string
  cf_subscriber_url :: string

record server =
  sv_manager :: string
  sv_peer_base_url :: string
  sv_subscriber_url :: string
  sv_sequence :: "64 word"
  sv_references :: "string \<rightharpoonup> reference"
  sv_faults :: "string \<rightharpoonup> fault_plan"
  sv_events :: "event list"

datatype connection = NoHijacker | HijackFails | Hijackable

record env =
  en_outlasts :: "int \<Rightarrow> bool"
  en_connection :: connection
  en_commit_time :: int
  en_record_time :: int
  en_order :: "string list"

definition new_server :: "config \<Rightarrow> server" where
  "new_server c = \<lparr>
     sv_manager = (if cf_manager c = [] then ''fixture-dss'' else cf_manager c),
     sv_peer_base_url = trim_right (CHR ''/'') (cf_peer_base_url c),
     sv_subscriber_url = trim_right (CHR ''/'') (cf_subscriber_url c),
     sv_sequence = 0, sv_references = Map.empty, sv_faults = Map.empty, sv_events = []\<rparr>"

subsection \<open>JSON forms\<close>

definition error_json :: "string \<Rightarrow> jval" where
  "error_json msg = JObj [(''error'', JStr msg)]"

definition message_json :: "string \<Rightarrow> jval" where
  "message_json msg = JObj [(''message'', JStr msg)]"

definition stale_json :: "string \<Rightarrow> jval" where
  "stale_json ovn = JObj [(''current_ovn'', JStr ovn), (''message'', JStr ''stale OVN'')]"

definition plan_json :: "fault_plan \<Rightarrow> jval" where
  "plan_json p = JObj ([(''operation'', JStr (fp_operation p)), (''times'', JInt (fp_times p))] @
     omit_empty (fp_status p = 0) ''status'' (JInt (fp_status p)) @
     omit_empty (fp_delay_ms p = 0) ''delay_ms'' (JInt (fp_delay_ms p)) @
     omit_empty (\<not> fp_close_after_commit p) ''close_after_commit'' (JBool True) @
     omit_empty (\<not> fp_malformed_json p) ''malformed_json'' (JBool True))"

definition snapshot_json :: "fault_snapshot \<Rightarrow> jval" where
  "snapshot_json f = JObj (
     omit_empty (fs_status f = 0) ''status'' (JInt (fs_status f)) @
     omit_empty (fs_delay_ms f = 0) ''delay_ms'' (JInt (fs_delay_ms f)) @
     omit_empty (\<not> fs_close_after_commit f) ''close_after_commit'' (JBool True) @
     omit_empty (\<not> fs_malformed_json f) ''malformed_json'' (JBool True))"

definition event_json :: "event \<Rightarrow> jval" where
  "event_json e = JObj ([(''sequence'', JInt (uint (ev_sequence e))),
       (''at'', JStr (rfc3339_nano (ev_at e))), (''operation'', JStr (ev_operation e)),
       (''method'', JStr (ev_method e)), (''path'', JStr (ev_path e))] @
     omit_empty (ev_intent_id e = []) ''intent_id'' (JStr (ev_intent_id e)) @
     [(''status'', JInt (ev_status e))] @
     (case ev_fault e of None \<Rightarrow> [] | Some f \<Rightarrow> [(''fault'', snapshot_json f)]))"

definition reference_json :: "reference \<Rightarrow> jval" where
  "reference_json r = JObj [(''id'', JStr (rf_id r)), (''manager'', JStr (rf_manager r)),
     (''ovn'', JStr (rf_ovn r)), (''state'', JStr (rf_state r)),
     (''subscription_id'', JStr (rf_subscription_id r)),
     (''uss_availability'', JStr (rf_uss_availability r)),
     (''uss_base_url'', JStr (rf_uss_base_url r)), (''version'', JInt (rf_version r)),
     (''time_start'', rf_time_start r), (''time_end'', rf_time_end r)]"

text \<open>A nil slice is encoded as \<open>null\<close>.\<close>

definition nil_slice_json :: "jval list \<Rightarrow> jval" where
  "nil_slice_json xs = (if xs = [] then JNull else JArr xs)"

definition references_json :: "reference list \<Rightarrow> jval" where
  "references_json rs = JObj [(''operational_intent_references'', JArr (map reference_json rs))]"

definition plan_zero :: fault_plan where
  "plan_zero = \<lparr>fp_operation = [], fp_times = 0, fp_status = 0, fp_delay_ms = 0,
     fp_close_after_commit = False, fp_malformed_json = False\<rparr>"

definition plan_field :: "string \<Rightarrow> jval \<Rightarrow> fault_plan \<Rightarrow> decode_error + fault_plan" where
  "plan_field k v p =
     (if names_field k ''operation'' then
        assign (dec_string ''FaultPlan.operation'' (fp_operation p) v) (\<lambda>x. p\<lparr>fp_operation := x\<rparr>)
      else if names_field k ''times'' then
        assign (dec_int ''FaultPlan.times'' (fp_times p) v) (\<lambda>x. p\<lparr>fp_times := x\<rparr>)
      else if names_field k ''status'' then
        assign (dec_int ''FaultPlan.status'' (fp_status p) v) (\<lambda>x. p\<lparr>fp_status := x\<rparr>)
      else if names_field k ''delay_ms'' then
        assign (dec_int ''FaultPlan.delay_ms'' (fp_delay_ms p) v) (\<lambda>x. p\<lparr>fp_delay_ms := x\<rparr>)
      else if names_field k ''close_after_commit'' then
        assign (dec_bool ''FaultPlan.close_after_commit'' (fp_close_after_commit p) v)
          (\<lambda>x. p\<lparr>fp_close_after_commit := x\<rparr>)
      else if names_field k ''malformed_json'' then
        assign (dec_bool ''FaultPlan.malformed_json'' (fp_malformed_json p) v)
          (\<lambda>x. p\<lparr>fp_malformed_json := x\<rparr>)
      else Inr p)"

definition decode_plan :: "jval \<Rightarrow> decode_error + fault_plan" where
  "decode_plan = dec_struct [] ''fixture.FaultPlan'' plan_field plan_zero"

record put_request =
  pr_state :: string
  pr_uss_base_url :: string
  pr_extents :: "jval list"

definition put_field :: "string \<Rightarrow> jval \<Rightarrow> put_request \<Rightarrow> decode_error + put_request" where
  "put_field k v p =
     (if names_field k ''state'' then
        assign (dec_string ''putRequest.state'' (pr_state p) v) (\<lambda>x. p\<lparr>pr_state := x\<rparr>)
      else if names_field k ''uss_base_url'' then
        assign (dec_string ''putRequest.uss_base_url'' (pr_uss_base_url p) v)
          (\<lambda>x. p\<lparr>pr_uss_base_url := x\<rparr>)
      else if names_field k ''extents'' then
        assign (dec_any_slice ''putRequest.extents'' v) (\<lambda>x. p\<lparr>pr_extents := x\<rparr>)
      else Inr p)"

definition decode_put :: "jval \<Rightarrow> decode_error + put_request" where
  "decode_put = dec_struct [] ''fixture.putRequest'' put_field
     \<lparr>pr_state = [], pr_uss_base_url = [], pr_extents = []\<rparr>"

subsection \<open>Faults and the journal\<close>

definition take_fault :: "string \<Rightarrow> server \<Rightarrow> fault_snapshot option \<times> server" where
  "take_fault operation s = (case sv_faults s operation of
     None \<Rightarrow> (None, s)
   | Some plan \<Rightarrow>
       (if fp_times plan \<le> 0 then (None, s)
        else
          (let plan' = plan\<lparr>fp_times := fp_times plan - 1\<rparr> in
           (Some \<lparr>fs_status = fp_status plan', fs_delay_ms = fp_delay_ms plan',
                  fs_close_after_commit = fp_close_after_commit plan',
                  fs_malformed_json = fp_malformed_json plan'\<rparr>,
            s\<lparr>sv_faults := (if fp_times plan' = 0 then (sv_faults s)(operation := None)
                            else (sv_faults s)(operation \<mapsto> plan'))\<rparr>))))"

definition record_event ::
  "env \<Rightarrow> request \<Rightarrow> string \<Rightarrow> string \<Rightarrow> int \<Rightarrow> fault_snapshot option \<Rightarrow> server \<Rightarrow> server" where
  "record_event env rq operation intent_id status fault s =
     (let seq = sv_sequence s + 1;
          event = \<lparr>ev_sequence = seq, ev_at = en_record_time env, ev_operation = operation,
            ev_method = rq_method rq, ev_path = rq_uri rq, ev_intent_id = intent_id,
            ev_status = status, ev_fault = fault\<rparr>
      in s\<lparr>sv_sequence := seq, sv_events := sv_events s @ [event]\<rparr>)"

text \<open>\<open>writeJSON\<close>; \<open>None\<close> is Go's nil value.\<close>

definition write_json :: "int \<Rightarrow> jval option \<Rightarrow> outcome" where
  "write_json status value =
     (if status = 204 then write_header 204 BNone
      else write_header status (case value of None \<Rightarrow> BNone | Some v \<Rightarrow> BJson v))"

definition incomplete_json :: string where
  "incomplete_json = CHR ''{'' # CHR 0x22 # ''incomplete'' @ [CHR 0x22, CHR '':'']"

definition respond ::
  "env \<Rightarrow> request \<Rightarrow> string \<Rightarrow> string \<Rightarrow> int \<Rightarrow> jval \<Rightarrow> fault_snapshot option \<Rightarrow> server \<Rightarrow> outcome \<times> server" where
  "respond env rq operation intent_id status payload fault s =
     (let s' = record_event env rq operation intent_id status fault s in
      case fault of
        Some f \<Rightarrow> (if fs_malformed_json f then (write_header status (BRaw incomplete_json), s')
                   else (write_json status (Some payload), s'))
      | None \<Rightarrow> (write_json status (Some payload), s'))"

text \<open>
  \<open>time.Duration(ms) * time.Millisecond\<close> is a 64-bit product. The wait reports whether the
  timer fired before the request's context was done.
\<close>

definition wait_millis :: "env \<Rightarrow> int \<Rightarrow> bool" where
  "wait_millis env ms = en_outlasts env (wrap64 (ms * 1000000))"

definition injected_failure :: jval where
  "injected_failure = message_json ''injected fixture failure''"

text \<open>\<open>Some\<close> outcome when the fault ended the request, as the Go function returns true.\<close>

definition pre_commit_fault ::
  "env \<Rightarrow> request \<Rightarrow> string \<Rightarrow> string \<Rightarrow> fault_snapshot option \<Rightarrow> server \<Rightarrow> outcome option \<times> server" where
  "pre_commit_fault env rq operation intent_id fault s = (case fault of
     None \<Rightarrow> (None, s)
   | Some f \<Rightarrow>
       (if 0 < fs_delay_ms f \<and> \<not> wait_millis env (fs_delay_ms f) then
          (Some Unwritten, record_event env rq operation intent_id 499 fault s)
        else if fs_status f \<noteq> 0 then
          (case respond env rq operation intent_id (fs_status f) injected_failure fault s of
             (out, s') \<Rightarrow> (Some out, s'))
        else (None, s)))"

definition close_connection :: "env \<Rightarrow> outcome" where
  "close_connection env = (case en_connection env of
     NoHijacker \<Rightarrow> write_json 503 (Some (message_json ''injected ambiguous outcome''))
   | HijackFails \<Rightarrow> Unwritten
   | Hijackable \<Rightarrow> Dropped)"

subsection \<open>The control plane\<close>

definition handle_healthz :: "server \<Rightarrow> outcome \<times> server" where
  "handle_healthz s = (write_json 200 (Some (JObj [(''status'', JStr ''ok'')])), s)"

definition handle_reset :: "server \<Rightarrow> outcome \<times> server" where
  "handle_reset s = (write_json 204 None,
     s\<lparr>sv_references := Map.empty, sv_faults := Map.empty, sv_events := [], sv_sequence := 0\<rparr>)"

definition plan_valid :: "fault_plan \<Rightarrow> bool" where
  "plan_valid p \<longleftrightarrow> \<not> (fp_operation p = [] \<or> fp_times p \<le> 0 \<or> fp_delay_ms p < 0 \<or>
     fp_status p < 0 \<or> fp_status p > 599)"

definition handle_fault :: "request \<Rightarrow> server \<Rightarrow> outcome \<times> server" where
  "handle_fault rq s = (case decode_stream decode_plan (rq_body rq) of
     Inl e \<Rightarrow> (write_json 400 (Some (error_json (decode_error_text e))), s)
   | Inr plan \<Rightarrow>
       (if \<not> plan_valid plan then
          (write_json 400 (Some (error_json
             ''operation and positive times are required; delay/status must be valid'')), s)
        else
          (write_json 201 (Some (plan_json plan)),
           s\<lparr>sv_faults := (sv_faults s)(fp_operation plan \<mapsto> plan)\<rparr>)))"

definition handle_clear_faults :: "server \<Rightarrow> outcome \<times> server" where
  "handle_clear_faults s = (write_header 204 BNone, s\<lparr>sv_faults := Map.empty\<rparr>)"

definition handle_events :: "server \<Rightarrow> outcome \<times> server" where
  "handle_events s =
     (write_json 200 (Some (JObj [(''events'', nil_slice_json (map event_json (sv_events s)))])), s)"

definition handle_state :: "env \<Rightarrow> server \<Rightarrow> outcome \<times> server" where
  "handle_state env s =
     (write_json 200 (Some (references_json (range_vals (en_order env) (sv_references s)))), s)"

definition ovn_of :: "string \<Rightarrow> int \<Rightarrow> string" where
  "ovn_of iid version = ''ovn-'' @ iid @ ''-'' @ int_dec version"

definition bump :: "string \<Rightarrow> reference \<Rightarrow> reference" where
  "bump iid r = (let v = wrap64 (rf_version r + 1) in r\<lparr>rf_version := v, rf_ovn := ovn_of iid v\<rparr>)"

definition handle_rotate_ovn :: "string \<Rightarrow> server \<Rightarrow> outcome \<times> server" where
  "handle_rotate_ovn iid s = (case sv_references s iid of
     Some r \<Rightarrow>
       (let r' = bump iid r in
        (write_json 200 (Some (reference_json r')), s\<lparr>sv_references := (sv_references s)(iid \<mapsto> r')\<rparr>))
   | None \<Rightarrow> (write_json 404 (Some (error_json ''reference not found'')), s))"

subsection \<open>The DSS and peer surface\<close>

definition handle_query_references :: "env \<Rightarrow> request \<Rightarrow> server \<Rightarrow> outcome \<times> server" where
  "handle_query_references env rq s =
     (case take_fault OperationQueryReferences s of (fault, s1) \<Rightarrow>
      case pre_commit_fault env rq OperationQueryReferences [] fault s1 of
        (Some out, s2) \<Rightarrow> (out, s2)
      | (None, s2) \<Rightarrow>
          respond env rq OperationQueryReferences [] 200
            (references_json (range_vals (en_order env) (sv_references s2))) fault s2)"

definition handle_subscriptions :: "env \<Rightarrow> request \<Rightarrow> server \<Rightarrow> outcome \<times> server" where
  "handle_subscriptions env rq s =
     (case take_fault OperationSubscriptions s of (fault, s1) \<Rightarrow>
      case pre_commit_fault env rq OperationSubscriptions [] fault s1 of
        (Some out, s2) \<Rightarrow> (out, s2)
      | (None, s2) \<Rightarrow>
          respond env rq OperationSubscriptions [] 200
            (JObj [(''subscriptions'', JArr [])]) fault s2)"

definition handle_get_reference :: "env \<Rightarrow> request \<Rightarrow> string \<Rightarrow> server \<Rightarrow> outcome \<times> server" where
  "handle_get_reference env rq iid s =
     (case take_fault OperationGetReference s of (fault, s1) \<Rightarrow>
      case pre_commit_fault env rq OperationGetReference iid fault s1 of
        (Some out, s2) \<Rightarrow> (out, s2)
      | (None, s2) \<Rightarrow>
          (case sv_references s2 iid of
             None \<Rightarrow> respond env rq OperationGetReference iid 404
                       (message_json ''reference not found'') fault s2
           | Some r \<Rightarrow> respond env rq OperationGetReference iid 200
                       (JObj [(''operational_intent_reference'', reference_json r)]) fault s2))"

text \<open>The section of \<open>handlePutReference\<close> under the lock.\<close>

datatype put_result = PutExists | PutNotFound | PutStale string | PutDone reference

definition rfc3339_time :: "int \<Rightarrow> jval" where
  "rfc3339_time ns = JObj [(''format'', JStr ''RFC3339''), (''value'', JStr (rfc3339 ns))]"

definition put_reference :: "env \<Rightarrow> string \<Rightarrow> int \<Rightarrow> put_request \<Rightarrow> server \<Rightarrow> reference" where
  "put_reference env iid version body s =
     (let start = en_commit_time env - 60 * nanos_per_second;
          stop = start + 3600 * nanos_per_second;
          base_url = (if pr_uss_base_url body = [] then sv_peer_base_url s
                      else pr_uss_base_url body)
      in \<lparr>rf_id = iid, rf_manager = sv_manager s, rf_ovn = ovn_of iid version,
          rf_state = pr_state body,
          rf_subscription_id = ''33333333-3333-4333-8333-333333333333'',
          rf_uss_availability = ''Normal'', rf_uss_base_url = base_url, rf_version = version,
          rf_time_start = rfc3339_time start, rf_time_end = rfc3339_time stop,
          rf_volumes = pr_extents body\<rparr>)"

definition commit_put :: "env \<Rightarrow> bool \<Rightarrow> string \<Rightarrow> string \<Rightarrow> put_request \<Rightarrow> server \<Rightarrow> put_result \<times> server" where
  "commit_put env create iid ovn body s =
     (let current = sv_references s iid in
      if create \<and> current \<noteq> None then (PutExists, s)
      else if \<not> create \<and> current = None then (PutNotFound, s)
      else if \<not> create \<and> ovn \<noteq> rf_ovn (the current) then (PutStale (rf_ovn (the current)), s)
      else
        (let version = wrap64 ((case current of None \<Rightarrow> 0 | Some r \<Rightarrow> rf_version r) + 1);
             r = put_reference env iid version body s
         in (PutDone r, s\<lparr>sv_references := (sv_references s)(iid \<mapsto> r)\<rparr>)))"

definition subscribers_json :: "string \<Rightarrow> jval" where
  "subscribers_json url =
     (if url = [] then JArr []
      else JArr [JObj [
        (''subscriptions'', JArr [JObj [(''notification_index'', JInt 1),
           (''subscription_id'', JStr ''22222222-2222-4222-8222-222222222222'')]]),
        (''uss_base_url'', JStr url)]])"

text \<open>
  The delay and status checks at the head of the two mutating handlers are those of
  \<open>preCommitFault\<close>, written out again in the source.
\<close>

definition closes_after_commit :: "fault_snapshot option \<Rightarrow> bool" where
  "closes_after_commit fault = (case fault of None \<Rightarrow> False | Some f \<Rightarrow> fs_close_after_commit f)"

definition handle_put_reference :: "env \<Rightarrow> request \<Rightarrow> bool \<Rightarrow> string \<Rightarrow> string \<Rightarrow> server \<Rightarrow> outcome \<times> server" where
  "handle_put_reference env rq create iid ovn s =
     (let operation = (if create then OperationCreateReference else OperationUpdateReference);
          status = (if create then 201 else 200)
      in case take_fault operation s of (fault, s1) \<Rightarrow>
      case pre_commit_fault env rq operation iid fault s1 of
        (Some out, s2) \<Rightarrow> (out, s2)
      | (None, s2) \<Rightarrow>
        (case decode_stream decode_put (rq_body rq) of
           Inl e \<Rightarrow> respond env rq operation iid 400 (message_json (decode_error_text e)) fault s2
         | Inr body \<Rightarrow>
           (case commit_put env create iid ovn body s2 of
              (PutExists, s3) \<Rightarrow>
                respond env rq operation iid 409 (message_json ''reference exists'') fault s3
            | (PutNotFound, s3) \<Rightarrow>
                respond env rq operation iid 404 (message_json ''reference not found'') fault s3
            | (PutStale cur, s3) \<Rightarrow>
                respond env rq operation iid 409 (stale_json cur) fault s3
            | (PutDone r, s3) \<Rightarrow>
                (if closes_after_commit fault
                 then (close_connection env, record_event env rq operation iid 0 fault s3)
                 else respond env rq operation iid status
                        (JObj [(''operational_intent_reference'', reference_json r),
                               (''subscribers'', subscribers_json (sv_subscriber_url s3))]) fault s3))))"

definition handle_create_reference :: "env \<Rightarrow> request \<Rightarrow> string \<Rightarrow> server \<Rightarrow> outcome \<times> server" where
  "handle_create_reference env rq iid s = handle_put_reference env rq True iid [] s"

definition handle_update_reference :: "env \<Rightarrow> request \<Rightarrow> string \<Rightarrow> string \<Rightarrow> server \<Rightarrow> outcome \<times> server" where
  "handle_update_reference env rq iid ovn s = handle_put_reference env rq False iid ovn s"

text \<open>The section of \<open>handleDeleteReference\<close> under the lock, with what it read.\<close>

definition commit_delete :: "string \<Rightarrow> string \<Rightarrow> server \<Rightarrow> reference option \<times> server" where
  "commit_delete iid ovn s = (case sv_references s iid of
     None \<Rightarrow> (None, s)
   | Some r \<Rightarrow>
       (if ovn = rf_ovn r then (Some r, s\<lparr>sv_references := (sv_references s)(iid := None)\<rparr>)
        else (Some r, s)))"

definition handle_delete_reference :: "env \<Rightarrow> request \<Rightarrow> string \<Rightarrow> string \<Rightarrow> server \<Rightarrow> outcome \<times> server" where
  "handle_delete_reference env rq iid ovn s =
     (case take_fault OperationDeleteReference s of (fault, s1) \<Rightarrow>
      case pre_commit_fault env rq OperationDeleteReference iid fault s1 of
        (Some out, s2) \<Rightarrow> (out, s2)
      | (None, s2) \<Rightarrow>
        (case commit_delete iid ovn s2 of
           (None, s3) \<Rightarrow>
             respond env rq OperationDeleteReference iid 404 (message_json ''reference not found'') fault s3
         | (Some r, s3) \<Rightarrow>
             (if ovn \<noteq> rf_ovn r then
                respond env rq OperationDeleteReference iid 409 (stale_json (rf_ovn r)) fault s3
              else if closes_after_commit fault then
                (close_connection env, record_event env rq OperationDeleteReference iid 0 fault s3)
              else
                respond env rq OperationDeleteReference iid 200
                  (JObj [(''operational_intent_reference'', reference_json (bump iid r)),
                         (''subscribers'', JArr [])]) fault s3)))"

definition details_json :: "reference \<Rightarrow> jval" where
  "details_json r = JObj [(''operational_intent'', JObj [
     (''details'', JObj [(''off_nominal_volumes'', JArr []), (''priority'', JInt 0),
                         (''volumes'', nil_slice_json (rf_volumes r))]),
     (''reference'', reference_json r)])]"

definition handle_peer_details :: "env \<Rightarrow> request \<Rightarrow> string \<Rightarrow> server \<Rightarrow> outcome \<times> server" where
  "handle_peer_details env rq iid s =
     (case take_fault OperationPeerDetails s of (fault, s1) \<Rightarrow>
      case pre_commit_fault env rq OperationPeerDetails iid fault s1 of
        (Some out, s2) \<Rightarrow> (out, s2)
      | (None, s2) \<Rightarrow>
          (case sv_references s2 iid of
             None \<Rightarrow> respond env rq OperationPeerDetails iid 404
                       (message_json ''intent not found'') fault s2
           | Some r \<Rightarrow> respond env rq OperationPeerDetails iid 200 (details_json r) fault s2))"

definition handle_peer_notification :: "env \<Rightarrow> request \<Rightarrow> server \<Rightarrow> outcome \<times> server" where
  "handle_peer_notification env rq s =
     (case take_fault OperationPeerNotify s of (fault, s1) \<Rightarrow>
      case pre_commit_fault env rq OperationPeerNotify [] fault s1 of
        (Some out, s2) \<Rightarrow> (out, s2)
      | (None, s2) \<Rightarrow>
          (write_header 204 BNone, record_event env rq OperationPeerNotify [] 204 fault s2))"

subsection \<open>Routing\<close>

datatype endpoint =
    Healthz | Reset | ArmFault | ClearFaults | Events | State | RotateOVN
  | QueryReferences | QuerySubscriptions | GetReference | CreateReference | UpdateReference
  | DeleteReference | PeerDetails | PeerNotify

definition routes :: "(string \<times> seg list \<times> endpoint) list" where
  "routes = [
     (''GET'', [Lit ''healthz''], Healthz),
     (''POST'', [Lit ''control'', Lit ''reset''], Reset),
     (''POST'', [Lit ''control'', Lit ''faults''], ArmFault),
     (''POST'', [Lit ''control'', Lit ''faults'', Lit ''clear''], ClearFaults),
     (''GET'', [Lit ''control'', Lit ''events''], Events),
     (''GET'', [Lit ''control'', Lit ''state''], State),
     (''POST'', [Lit ''control'', Lit ''intents'', Wild, Lit ''rotate-ovn''], RotateOVN),
     (''POST'', [Lit ''dss'', Lit ''v1'', Lit ''operational_intent_references'', Lit ''query''], QueryReferences),
     (''POST'', [Lit ''dss'', Lit ''v1'', Lit ''subscriptions'', Lit ''query''], QuerySubscriptions),
     (''GET'', [Lit ''dss'', Lit ''v1'', Lit ''operational_intent_references'', Wild], GetReference),
     (''PUT'', [Lit ''dss'', Lit ''v1'', Lit ''operational_intent_references'', Wild], CreateReference),
     (''PUT'', [Lit ''dss'', Lit ''v1'', Lit ''operational_intent_references'', Wild, Wild], UpdateReference),
     (''DELETE'', [Lit ''dss'', Lit ''v1'', Lit ''operational_intent_references'', Wild, Wild], DeleteReference),
     (''GET'', [Lit ''uss'', Lit ''v1'', Lit ''operational_intents'', Wild], PeerDetails),
     (''POST'', [Lit ''uss'', Lit ''v1'', Lit ''operational_intents''], PeerNotify)]"

text \<open>\<open>r.PathValue\<close>: the wildcards of a pattern in order, the empty string where there is none.\<close>

definition path_value :: "nat \<Rightarrow> string list \<Rightarrow> string" where
  "path_value i args = (if i < length args then args ! i else [])"

fun handle :: "env \<Rightarrow> request \<Rightarrow> endpoint \<Rightarrow> string list \<Rightarrow> server \<Rightarrow> outcome \<times> server" where
  "handle env rq Healthz args s = handle_healthz s"
| "handle env rq Reset args s = handle_reset s"
| "handle env rq ArmFault args s = handle_fault rq s"
| "handle env rq ClearFaults args s = handle_clear_faults s"
| "handle env rq Events args s = handle_events s"
| "handle env rq State args s = handle_state env s"
| "handle env rq RotateOVN args s = handle_rotate_ovn (path_value 0 args) s"
| "handle env rq QueryReferences args s = handle_query_references env rq s"
| "handle env rq QuerySubscriptions args s = handle_subscriptions env rq s"
| "handle env rq GetReference args s = handle_get_reference env rq (path_value 0 args) s"
| "handle env rq CreateReference args s = handle_create_reference env rq (path_value 0 args) s"
| "handle env rq UpdateReference args s =
     handle_update_reference env rq (path_value 0 args) (path_value 1 args) s"
| "handle env rq DeleteReference args s =
     handle_delete_reference env rq (path_value 0 args) (path_value 1 args) s"
| "handle env rq PeerDetails args s = handle_peer_details env rq (path_value 0 args) s"
| "handle env rq PeerNotify args s = handle_peer_notification env rq s"

text \<open>A GET pattern also takes HEAD requests, whose response has no body.\<close>

definition dispatch :: "env \<Rightarrow> request \<Rightarrow> server \<Rightarrow> outcome \<times> server" where
  "dispatch env rq s = (case mux_find routes (rq_method rq) (rq_path rq) of
     None \<Rightarrow> (mux_miss routes (rq_path rq), s)
   | Some (ep, args) \<Rightarrow> handle env rq ep args s)"

definition serve :: "env \<Rightarrow> request \<Rightarrow> server \<Rightarrow> outcome \<times> server" where
  "serve env rq s = (case dispatch env rq s of (out, s') \<Rightarrow>
     (if rq_method rq = ''HEAD'' then drop_body out else out, s'))"

fun run :: "(env \<times> request) list \<Rightarrow> server \<Rightarrow> outcome list \<times> server" where
  "run [] s = ([], s)"
| "run ((env, rq) # xs) s =
     (case serve env rq s of (out, s1) \<Rightarrow> case run xs s1 of (outs, s2) \<Rightarrow> (out # outs, s2))"

end
