(* ===== verification/Fixture_Invariant.thy ===== *)
theory Fixture_Invariant
  imports Fixture_Server
begin

section \<open>What every fixture request keeps\<close>

text \<open>
  The handlers are built from a few atomic changes of the state, each made under the server's
  lock. The locale \<open>atomic_steps\<close> takes a preorder on states that holds across each of them
  but the reset, and gives it for every handler, request and run without a reset;
  \<open>atomic_steps_reset\<close> adds the reset, and \<open>server_invariant\<close> is the special case of a
  predicate. They are interpreted for the well-formedness of the state, for the journal and
  for the configuration.
\<close>

subsection \<open>Frame facts of the atomic changes\<close>

lemma take_fault_frame [frame]:
  "sv_references (snd (take_fault operation s)) = sv_references s"
  "sv_events (snd (take_fault operation s)) = sv_events s"
  "sv_sequence (snd (take_fault operation s)) = sv_sequence s"
  "sv_manager (snd (take_fault operation s)) = sv_manager s"
  "sv_peer_base_url (snd (take_fault operation s)) = sv_peer_base_url s"
  "sv_subscriber_url (snd (take_fault operation s)) = sv_subscriber_url s"
  by (auto simp: take_fault_def Let_def split: option.splits)

lemma record_event_frame [frame]:
  "sv_references (record_event env rq operation iid status fault s) = sv_references s"
  "sv_faults (record_event env rq operation iid status fault s) = sv_faults s"
  "sv_manager (record_event env rq operation iid status fault s) = sv_manager s"
  "sv_peer_base_url (record_event env rq operation iid status fault s) = sv_peer_base_url s"
  "sv_subscriber_url (record_event env rq operation iid status fault s) = sv_subscriber_url s"
  by (simp_all add: record_event_def Let_def)

lemma commit_put_frame [frame]:
  "sv_faults (snd (commit_put env create iid ovn body s)) = sv_faults s"
  "sv_events (snd (commit_put env create iid ovn body s)) = sv_events s"
  "sv_sequence (snd (commit_put env create iid ovn body s)) = sv_sequence s"
  "sv_manager (snd (commit_put env create iid ovn body s)) = sv_manager s"
  "sv_peer_base_url (snd (commit_put env create iid ovn body s)) = sv_peer_base_url s"
  "sv_subscriber_url (snd (commit_put env create iid ovn body s)) = sv_subscriber_url s"
  by (auto simp: commit_put_def Let_def)

lemma commit_delete_frame [frame]:
  "sv_faults (snd (commit_delete iid ovn s)) = sv_faults s"
  "sv_events (snd (commit_delete iid ovn s)) = sv_events s"
  "sv_sequence (snd (commit_delete iid ovn s)) = sv_sequence s"
  "sv_manager (snd (commit_delete iid ovn s)) = sv_manager s"
  "sv_peer_base_url (snd (commit_delete iid ovn s)) = sv_peer_base_url s"
  "sv_subscriber_url (snd (commit_delete iid ovn s)) = sv_subscriber_url s"
  by (auto simp: commit_delete_def split: option.splits)

lemma snd_respond [frame]:
  "snd (respond env rq operation iid status payload fault s) =
   record_event env rq operation iid status fault s"
  by (simp add: respond_def Let_def split: option.splits)

lemma snd_pre_commit_fault:
  "snd (pre_commit_fault env rq operation iid fault s) = s \<or>
   (\<exists>status. snd (pre_commit_fault env rq operation iid fault s) =
      record_event env rq operation iid status fault s)"
  by (auto simp: pre_commit_fault_def respond_def Let_def split: option.splits)

lemma pre_commit_fault_None:
  "pre_commit_fault env rq operation iid fault s = (None, s') \<Longrightarrow> s' = s"
  by (auto simp: pre_commit_fault_def split: option.splits if_splits prod.splits)

lemma pre_commit_fault_Some:
  "pre_commit_fault env rq operation iid fault s = (Some out, s') \<Longrightarrow>
   \<exists>status. s' = record_event env rq operation iid status fault s"
  by (auto simp: pre_commit_fault_def respond_def Let_def split: option.splits if_splits prod.splits)

subsection \<open>From atomic changes to requests\<close>

definition is_reset :: "request \<Rightarrow> bool" where
  "is_reset rq \<longleftrightarrow> (case mux_find routes (rq_method rq) (rq_path rq) of
     None \<Rightarrow> False | Some (ep, args) \<Rightarrow> ep = Reset)"

lemma snd_serve: "snd (serve env rq s) = snd (dispatch env rq s)"
  by (simp add: serve_def split: prod.splits)

lemma snd_run_Cons: "snd (run ((env, rq) # xs) s) = snd (run xs (snd (serve env rq s)))"
  by (simp split: prod.splits)

locale atomic_steps =
  fixes R :: "server \<Rightarrow> server \<Rightarrow> bool"
  assumes R_refl: "R s s"
    and R_trans: "R s t \<Longrightarrow> R t u \<Longrightarrow> R s u"
    and R_take: "R s (snd (take_fault operation s))"
    and R_record: "R s (record_event env rq operation iid status fault s)"
    and R_put: "R s (snd (commit_put env create iid ovn body s))"
    and R_delete: "R s (snd (commit_delete iid ovn s))"
    and R_rotate: "R s (snd (handle_rotate_ovn iid s))"
    and R_arm: "R s (snd (handle_fault rq s))"
    and R_clear: "R s (snd (handle_clear_faults s))"
begin

lemma R_take': "take_fault operation s = (f, t) \<Longrightarrow> R s t"
  by (metis R_take snd_conv)

lemma R_put': "commit_put env create iid ovn body s = (x, t) \<Longrightarrow> R s t"
  by (metis R_put snd_conv)

lemma R_delete': "commit_delete iid ovn s = (x, t) \<Longrightarrow> R s t"
  by (metis R_delete snd_conv)

lemma R_pre: "pre_commit_fault env rq operation iid fault s = (x, t) \<Longrightarrow> R s t"
  by (metis R_record R_refl snd_conv snd_pre_commit_fault)

lemma R_respond: "R s t \<Longrightarrow> R s (snd (respond env rq operation iid status payload fault t))"
  by (metis R_record R_trans snd_respond)

lemma R_record': "R s t \<Longrightarrow> R s (record_event env rq operation iid status fault t)"
  by (metis R_record R_trans)

lemmas R_chain = R_take' R_put' R_delete' R_pre

lemma R_put_reference: "R s (snd (handle_put_reference env rq create iid ovn s))"
  unfolding handle_put_reference_def Let_def
  by (auto split: prod.splits option.splits sum.splits put_result.splits
      intro!: R_respond R_record' intro: R_trans dest!: R_chain) 

lemma R_delete_reference: "R s (snd (handle_delete_reference env rq iid ovn s))"
  unfolding handle_delete_reference_def
  by (auto split: prod.splits option.splits
      intro!: R_respond R_record' intro: R_trans dest!: R_chain)

lemma R_reads:
  "R s (snd (handle_query_references env rq s))"
  "R s (snd (handle_subscriptions env rq s))"
  "R s (snd (handle_get_reference env rq iid s))"
  "R s (snd (handle_peer_details env rq iid s))"
  "R s (snd (handle_peer_notification env rq s))"
  unfolding handle_query_references_def handle_subscriptions_def handle_get_reference_def
    handle_peer_details_def handle_peer_notification_def
  by (auto split: prod.splits option.splits
      intro!: R_respond R_record' intro: R_trans dest!: R_chain)

lemma R_handle: "ep \<noteq> Reset \<Longrightarrow> R s (snd (handle env rq ep args s))"
  by (cases ep)
    (simp_all add: R_refl R_rotate R_arm R_clear R_put_reference R_delete_reference R_reads
      handle_healthz_def handle_events_def handle_state_def handle_create_reference_def
      handle_update_reference_def)

lemma R_dispatch: "\<not> is_reset rq \<Longrightarrow> R s (snd (dispatch env rq s))"
  using R_handle by (auto simp: dispatch_def is_reset_def R_refl split: option.splits)

lemma R_serve: "\<not> is_reset rq \<Longrightarrow> R s (snd (serve env rq s))"
  by (simp add: snd_serve R_dispatch)

lemma R_run: "list_all (\<lambda>(env, rq). \<not> is_reset rq) xs \<Longrightarrow> R s (snd (run xs s))"
proof (induction xs arbitrary: s)
  case Nil
  then show ?case by (simp add: R_refl)
next
  case (Cons x xs)
  obtain env rq where x: "x = (env, rq)" by (cases x)
  with Cons.prems have "R s (snd (serve env rq s))" by (simp add: R_serve)
  then show ?case using Cons x
    by (auto simp: snd_run_Cons simp del: run.simps intro: R_trans)
qed

end

text \<open>A relation the reset keeps too holds across every request and every run.\<close>

locale atomic_steps_reset = atomic_steps +
  assumes R_reset: "R s (snd (handle_reset s))"
begin

lemma R_serve_any: "R s (snd (serve env rq s))"
proof (cases "is_reset rq")
  case True
  then show ?thesis
    by (auto simp: is_reset_def snd_serve dispatch_def R_reset split: option.splits)
next
  case False
  then show ?thesis by (rule R_serve)
qed

lemma R_run_any: "R s (snd (run xs s))"
proof (induction xs arbitrary: s)
  case Nil
  then show ?case by (simp add: R_refl)
next
  case (Cons x xs)
  obtain env rq where x: "x = (env, rq)" by (cases x)
  have "R s (snd (serve env rq s))" by (rule R_serve_any)
  then show ?case using Cons x
    by (auto simp: snd_run_Cons simp del: run.simps intro: R_trans)
qed

end

text \<open>A predicate kept by the atomic changes is the relation "if it held, it holds".\<close>

locale server_invariant =
  fixes P :: "server \<Rightarrow> bool"
  assumes P_take: "P s \<Longrightarrow> P (snd (take_fault operation s))"
    and P_record: "P s \<Longrightarrow> P (record_event env rq operation iid status fault s)"
    and P_put: "P s \<Longrightarrow> P (snd (commit_put env create iid ovn body s))"
    and P_delete: "P s \<Longrightarrow> P (snd (commit_delete iid ovn s))"
    and P_rotate: "P s \<Longrightarrow> P (snd (handle_rotate_ovn iid s))"
    and P_arm: "P s \<Longrightarrow> P (snd (handle_fault rq s))"
    and P_clear: "P s \<Longrightarrow> P (snd (handle_clear_faults s))"
    and P_reset: "P s \<Longrightarrow> P (snd (handle_reset s))"

sublocale server_invariant \<subseteq> inv: atomic_steps_reset "\<lambda>s s'. P s \<longrightarrow> P s'"
  by unfold_locales (auto intro: P_take P_record P_put P_delete P_rotate P_arm P_clear P_reset)

subsection \<open>The well-formed state\<close>

text \<open>
  Every stored reference is filed under its own identifier, owned by the configured manager
  and carries the OVN of its version; every pending plan is filed under its operation and
  passes the checks that armed it; the journal is numbered 1, 2, 3, \<dots> without a gap.
\<close>

definition wf_reference :: "server \<Rightarrow> string \<Rightarrow> reference \<Rightarrow> bool" where
  "wf_reference s iid r \<longleftrightarrow> rf_id r = iid \<and> rf_manager r = sv_manager s \<and>
     in_int64 (rf_version r) \<and> rf_ovn r = ovn_of iid (rf_version r)"

definition wf_plan :: "string \<Rightarrow> fault_plan \<Rightarrow> bool" where
  "wf_plan operation p \<longleftrightarrow> fp_operation p = operation \<and> plan_valid p"

definition wf_journal :: "server \<Rightarrow> bool" where
  "wf_journal s \<longleftrightarrow> sv_sequence s = of_nat (length (sv_events s)) \<and>
     (\<forall>i < length (sv_events s). ev_sequence (sv_events s ! i) = of_nat (Suc i))"

definition wf_server :: "server \<Rightarrow> bool" where
  "wf_server s \<longleftrightarrow> (\<forall>iid r. sv_references s iid = Some r \<longrightarrow> wf_reference s iid r) \<and>
     (\<forall>operation p. sv_faults s operation = Some p \<longrightarrow> wf_plan operation p) \<and> wf_journal s"

lemma wf_new_server: "wf_server (new_server c)"
  by (simp add: wf_server_def new_server_def wf_journal_def)

lemma wf_plan_less:
  "wf_plan operation p \<Longrightarrow> fp_times p \<noteq> 1 \<Longrightarrow> wf_plan operation (p\<lparr>fp_times := fp_times p - 1\<rparr>)"
  by (auto simp: wf_plan_def plan_valid_def)

lemma wf_take_fault: "wf_server s \<Longrightarrow> wf_server (snd (take_fault operation s))"
  using wf_plan_less
  by (auto simp: wf_server_def take_fault_def Let_def wf_journal_def wf_reference_def
      split: option.splits if_splits)

lemma wf_record_event: "wf_server s \<Longrightarrow> wf_server (record_event env rq operation iid status fault s)"
  by (auto simp: wf_server_def record_event_def Let_def wf_journal_def wf_reference_def
      nth_append less_Suc_eq)

lemma wf_put_reference:
  "wf_reference s iid (put_reference env iid (wrap64 v) body s)"
  by (simp add: wf_reference_def put_reference_def Let_def wrap64_range)

lemma wf_commit_put: "wf_server s \<Longrightarrow> wf_server (snd (commit_put env create iid ovn body s))"
  using wf_put_reference
  by (auto simp: wf_server_def commit_put_def Let_def wf_journal_def wf_reference_def
      split: if_splits)

lemma wf_commit_delete: "wf_server s \<Longrightarrow> wf_server (snd (commit_delete iid ovn s))"
  by (auto simp: wf_server_def commit_delete_def wf_journal_def wf_reference_def
      split: option.splits if_splits)

lemma wf_bump: "wf_reference s iid r \<Longrightarrow> wf_reference s iid (bump iid r)"
  by (simp add: wf_reference_def bump_def Let_def wrap64_range)

lemma wf_rotate: "wf_server s \<Longrightarrow> wf_server (snd (handle_rotate_ovn iid s))"
  using wf_bump
  by (auto simp: wf_server_def handle_rotate_ovn_def Let_def wf_journal_def wf_reference_def
      split: option.splits if_splits)

lemma wf_arm: "wf_server s \<Longrightarrow> wf_server (snd (handle_fault rq s))"
  by (auto simp: wf_server_def handle_fault_def wf_journal_def wf_reference_def wf_plan_def
      split: sum.splits if_splits)

lemma wf_clear: "wf_server s \<Longrightarrow> wf_server (snd (handle_clear_faults s))"
  by (auto simp: wf_server_def handle_clear_faults_def wf_journal_def wf_reference_def)

lemma wf_reset: "wf_server s \<Longrightarrow> wf_server (snd (handle_reset s))"
  by (auto simp: wf_server_def handle_reset_def wf_journal_def)

interpretation wf: server_invariant wf_server
  by unfold_locales
    (fact wf_take_fault wf_record_event wf_commit_put wf_commit_delete wf_rotate wf_arm wf_clear
      wf_reset)+

lemma wf_serve: "wf_server s \<Longrightarrow> wf_server (snd (serve env rq s))"
  using wf.inv.R_serve_any by blast

lemma wf_run: "wf_server s \<Longrightarrow> wf_server (snd (run xs s))"
  using wf.inv.R_run_any by blast

end
