(* ===== verification/Fixture_Journal.thy ===== *)
theory Fixture_Journal
  imports Fixture_Invariant "HOL-Library.Sublist"
begin

section \<open>The request journal and bounded faults\<close>

text \<open>
  Every DSS or peer request leaves exactly one journal entry, which carries the fault it
  consumed; nothing else writes the journal except the reset. From this follows what a bounded
  fault does over a run: it hits exactly the next requests to its operation, as many as its
  plan allows, and no other.
\<close>

fun journal_key :: "endpoint \<Rightarrow> string list \<Rightarrow> (string \<times> string) option" where
  "journal_key QueryReferences args = Some (OperationQueryReferences, [])"
| "journal_key QuerySubscriptions args = Some (OperationSubscriptions, [])"
| "journal_key GetReference args = Some (OperationGetReference, path_value 0 args)"
| "journal_key CreateReference args = Some (OperationCreateReference, path_value 0 args)"
| "journal_key UpdateReference args = Some (OperationUpdateReference, path_value 0 args)"
| "journal_key DeleteReference args = Some (OperationDeleteReference, path_value 0 args)"
| "journal_key PeerDetails args = Some (OperationPeerDetails, path_value 0 args)"
| "journal_key PeerNotify args = Some (OperationPeerNotify, [])"
| "journal_key _ args = None"

definition request_key :: "request \<Rightarrow> (string \<times> string) option" where
  "request_key rq = (case mux_find routes (rq_method rq) (rq_path rq) of
     None \<Rightarrow> None | Some (ep, args) \<Rightarrow> journal_key ep args)"

definition is_fault_control :: "request \<Rightarrow> bool" where
  "is_fault_control rq \<longleftrightarrow> (case mux_find routes (rq_method rq) (rq_path rq) of
     None \<Rightarrow> False | Some (ep, args) \<Rightarrow> ep = Reset \<or> ep = ArmFault \<or> ep = ClearFaults)"

subsection \<open>One entry per request\<close>

definition logged :: "env \<Rightarrow> request \<Rightarrow> string \<Rightarrow> string \<Rightarrow> server \<Rightarrow> server \<Rightarrow> bool" where
  "logged env rq operation iid s s' \<longleftrightarrow>
     (\<exists>status. sv_events s' = sv_events s @
        [\<lparr>ev_sequence = sv_sequence s + 1, ev_at = en_record_time env, ev_operation = operation,
          ev_method = rq_method rq, ev_path = rq_uri rq, ev_intent_id = iid,
          ev_status = status, ev_fault = fst (take_fault operation s)\<rparr>]) \<and>
     sv_sequence s' = sv_sequence s + 1 \<and>
     sv_faults s' = sv_faults (snd (take_fault operation s))"

lemma logged_record:
  assumes "take_fault operation s = (fault, s1)" and "sv_events s2 = sv_events s1"
    and "sv_sequence s2 = sv_sequence s1" and "sv_faults s2 = sv_faults s1"
  shows "logged env rq operation iid s (record_event env rq operation iid status fault s2)"
  using assms take_fault_frame(2,3) [of operation s]
  by (auto simp: logged_def record_event_def Let_def)

lemma logged_respond:
  assumes "take_fault operation s = (fault, s1)" and "sv_events s2 = sv_events s1"
    and "sv_sequence s2 = sv_sequence s1" and "sv_faults s2 = sv_faults s1"
  shows "logged env rq operation iid s (snd (respond env rq operation iid status payload fault s2))"
  using logged_record [OF assms] by (simp add: snd_respond)

lemma logged_pre:
  assumes "take_fault operation s = (fault, s1)"
    and "pre_commit_fault env rq operation iid fault s1 = (Some out, s2)"
  shows "logged env rq operation iid s s2"
  using pre_commit_fault_Some [OF assms(2)] logged_record [OF assms(1)] by auto

lemma commit_put_eq:
  assumes "commit_put env create iid ovn body s = (x, t)"
  shows "sv_events t = sv_events s" "sv_sequence t = sv_sequence s" "sv_faults t = sv_faults s"
    "sv_subscriber_url t = sv_subscriber_url s"
  using commit_put_frame [of env create iid ovn body s] assms by simp_all

lemma commit_delete_eq:
  assumes "commit_delete iid ovn s = (x, t)"
  shows "sv_events t = sv_events s" "sv_sequence t = sv_sequence s" "sv_faults t = sv_faults s"
  using commit_delete_frame [of iid ovn s] assms by simp_all

lemmas logged_intros = logged_record logged_respond

lemma logged_put:
  "logged env rq (if create then OperationCreateReference else OperationUpdateReference) iid s
     (snd (handle_put_reference env rq create iid ovn s))"
  unfolding handle_put_reference_def Let_def
  by (auto split: prod.splits option.splits sum.splits put_result.splits
      dest: pre_commit_fault_None commit_put_eq intro!: logged_intros intro: logged_pre)

lemma logged_delete:
  "logged env rq OperationDeleteReference iid s (snd (handle_delete_reference env rq iid ovn s))"
  unfolding handle_delete_reference_def
  by (auto split: prod.splits option.splits
      dest: pre_commit_fault_None commit_delete_eq intro!: logged_intros intro: logged_pre)

lemma logged_reads:
  "logged env rq OperationQueryReferences [] s (snd (handle_query_references env rq s))"
  "logged env rq OperationSubscriptions [] s (snd (handle_subscriptions env rq s))"
  "logged env rq OperationGetReference iid s (snd (handle_get_reference env rq iid s))"
  "logged env rq OperationPeerDetails iid s (snd (handle_peer_details env rq iid s))"
  "logged env rq OperationPeerNotify [] s (snd (handle_peer_notification env rq s))"
  unfolding handle_query_references_def handle_subscriptions_def handle_get_reference_def
    handle_peer_details_def handle_peer_notification_def
  by (auto split: prod.splits option.splits
      dest: pre_commit_fault_None intro!: logged_intros intro: logged_pre)

lemma logged_handle:
  "journal_key ep args = Some (operation, iid) \<Longrightarrow>
   logged env rq operation iid s (snd (handle env rq ep args s))"
  using logged_put [of env rq True] logged_put [of env rq False]
  by (cases ep) (auto simp: logged_delete logged_reads handle_create_reference_def
      handle_update_reference_def)

lemma logged_serve:
  "request_key rq = Some (operation, iid) \<Longrightarrow>
   logged env rq operation iid s (snd (serve env rq s))"
  by (auto simp: request_key_def snd_serve dispatch_def logged_handle split: option.splits prod.splits)

lemma unlogged_serve:
  assumes "request_key rq = None" and "\<not> is_fault_control rq"
  shows "sv_events (snd (serve env rq s)) = sv_events s"
    and "sv_sequence (snd (serve env rq s)) = sv_sequence s"
    and "sv_faults (snd (serve env rq s)) = sv_faults s"
proof -
  have "sv_events (snd (handle env rq ep args s)) = sv_events s \<and>
      sv_sequence (snd (handle env rq ep args s)) = sv_sequence s \<and>
      sv_faults (snd (handle env rq ep args s)) = sv_faults s"
    if "journal_key ep args = None" and "ep \<noteq> Reset" and "ep \<noteq> ArmFault" and "ep \<noteq> ClearFaults"
    for ep args
    using that
    by (cases ep) (auto simp: handle_healthz_def handle_events_def handle_state_def
        handle_rotate_ovn_def Let_def split: option.splits)
  with assms show "sv_events (snd (serve env rq s)) = sv_events s"
    and "sv_sequence (snd (serve env rq s)) = sv_sequence s"
    and "sv_faults (snd (serve env rq s)) = sv_faults s"
    by (auto simp: request_key_def is_fault_control_def snd_serve dispatch_def
        split: option.splits prod.splits)
qed

subsection \<open>The journal only grows, and is numbered without gaps\<close>

interpretation grows: atomic_steps "\<lambda>s s'. prefix (sv_events s) (sv_events s')"
  by unfold_locales
    (auto simp: frame record_event_def Let_def handle_rotate_ovn_def handle_fault_def
      handle_clear_faults_def split: option.splits sum.splits)

lemma run_snoc: "snd (run (xs @ [(env, rq)]) s) = snd (serve env rq (snd (run xs s)))"
  by (induction xs arbitrary: s) (auto simp: snd_run_Cons simp del: run.simps split: prod.splits
      simp add: run.simps(1))

lemma events_length_serve:
  "length (sv_events (snd (serve env rq s))) \<le> Suc (length (sv_events s))"
proof (cases "request_key rq")
  case None
  then show ?thesis
  proof (cases "is_fault_control rq")
    case True
    then show ?thesis
      by (auto simp: is_fault_control_def snd_serve dispatch_def handle_reset_def
          handle_fault_def handle_clear_faults_def split: option.splits sum.splits)
  next
    case False
    with None show ?thesis by (simp add: unlogged_serve)
  qed
next
  case (Some a)
  then show ?thesis
    using logged_serve [of rq "fst a" "snd a" env s] by (auto simp: logged_def)
qed

lemma events_length_run:
  "length (sv_events (snd (run xs s))) \<le> length xs + length (sv_events s)"
proof (induction xs rule: rev_induct)
  case Nil
  then show ?case by simp
next
  case (snoc x xs)
  obtain env rq where "x = (env, rq)" by (cases x)
  with snoc events_length_serve [of env rq "snd (run xs s)"] show ?case
    by (simp add: run_snoc)
qed

lemma wf_journal_unat:
  assumes "wf_journal s" and "length (sv_events s) < 2 ^ 64" and "i < length (sv_events s)"
  shows "unat (ev_sequence (sv_events s ! i)) = Suc i"
proof -
  have "ev_sequence (sv_events s ! i) = of_nat (Suc i)"
    using assms by (simp add: wf_journal_def)
  moreover have "Suc i < 2 ^ 64" using assms by simp
  ultimately show ?thesis by (simp add: unsigned_of_nat take_bit_nat_eq_self del: of_nat_Suc)
qed

subsection \<open>A bounded fault hits exactly the next requests\<close>

definition snapshot_of :: "fault_plan \<Rightarrow> fault_snapshot" where
  "snapshot_of p = \<lparr>fs_status = fp_status p, fs_delay_ms = fp_delay_ms p,
     fs_close_after_commit = fp_close_after_commit p, fs_malformed_json = fp_malformed_json p\<rparr>"

definition pending :: "string \<Rightarrow> server \<Rightarrow> nat" where
  "pending operation s = (case sv_faults s operation of None \<Rightarrow> 0 | Some p \<Rightarrow> nat (fp_times p))"

definition fault_queue :: "string \<Rightarrow> server \<Rightarrow> nat \<Rightarrow> fault_snapshot option list" where
  "fault_queue operation s k =
     take k (replicate (pending operation s) (map_option snapshot_of (sv_faults s operation)) @
       replicate k None)"

lemma take_fault_other:
  "other \<noteq> operation \<Longrightarrow> sv_faults (snd (take_fault operation s)) other = sv_faults s other"
  by (auto simp: take_fault_def Let_def split: option.splits)

lemma queue_pad:
  "take k (replicate n x @ replicate (Suc k) y) = take k (replicate n x @ replicate k y)"
proof -
  have "min (k - n) (Suc k) = min (k - n) k" by simp
  then show ?thesis by (simp only: take_append length_replicate take_replicate)
qed

lemma queue_step:
  "take (Suc k) (replicate (Suc n) x @ replicate (Suc k) y) = x # take k (replicate n x @ replicate k y)"
  using queue_pad [of k n x y] by simp

lemma fault_queue_step:
  "fault_queue operation s (Suc k) =
     fst (take_fault operation s) # fault_queue operation (snd (take_fault operation s)) k"
proof (cases "sv_faults s operation")
  case None
  then show ?thesis by (simp add: fault_queue_def pending_def take_fault_def)
next
  case (Some p)
  show ?thesis
  proof (cases "fp_times p \<le> 0")
    case True
    with Some show ?thesis by (simp add: fault_queue_def pending_def take_fault_def)
  next
    case False
    then obtain n where n: "nat (fp_times p) = Suc n" "nat (fp_times p - 1) = n"
      by (metis Suc_nat_eq_nat_zadd1 diff_add_cancel diff_ge_0_iff_ge int_one_le_iff_zero_less
          add.commute not_le)
    show ?thesis
    proof (cases "fp_times p = 1")
      case True
      with Some n False show ?thesis
        using queue_step [of k 0 "Some (snapshot_of p)" None]
        by (simp add: fault_queue_def pending_def take_fault_def Let_def snapshot_of_def)
    next
      case False
      with Some n \<open>\<not> fp_times p \<le> 0\<close> show ?thesis
        using queue_step [of k n "Some (snapshot_of p)" None]
        by (simp add: fault_queue_def pending_def take_fault_def Let_def snapshot_of_def)
    qed
  qed
qed

lemma fault_queue_cong:
  "sv_faults s operation = sv_faults t operation \<Longrightarrow> fault_queue operation s k = fault_queue operation t k"
  by (simp add: fault_queue_def pending_def)

definition requests_op :: "string \<Rightarrow> request \<Rightarrow> bool" where
  "requests_op operation rq \<longleftrightarrow> (case request_key rq of None \<Rightarrow> False | Some (p, iid) \<Rightarrow> p = operation)"

definition hits :: "string \<Rightarrow> event list \<Rightarrow> fault_snapshot option list" where
  "hits operation es = map ev_fault (filter (\<lambda>e. ev_operation e = operation) es)"

lemma hits_append [simp]: "hits operation (xs @ ys) = hits operation xs @ hits operation ys"
  by (simp add: hits_def)

lemma serve_hits:
  assumes "\<not> is_fault_control rq"
  shows "\<exists>new. sv_events (snd (serve env rq s)) = sv_events s @ new \<and>
     hits operation new @ fault_queue operation (snd (serve env rq s)) k =
     fault_queue operation s ((if requests_op operation rq then 1 else 0) + k)"
proof (cases "request_key rq")
  case None
  with assms have "sv_events (snd (serve env rq s)) = sv_events s @ []"
    and "sv_faults (snd (serve env rq s)) = sv_faults s"
    by (simp_all add: unlogged_serve)
  moreover from this(2) have "fault_queue operation (snd (serve env rq s)) k = fault_queue operation s k"
    by (intro fault_queue_cong) simp
  ultimately show ?thesis using None
    by (intro exI [of _ "[]"]) (simp add: requests_op_def hits_def)
next
  case (Some a)
  obtain p iid where a: "a = (p, iid)" by (cases a)
  with Some have l: "logged env rq p iid s (snd (serve env rq s))" by (simp add: logged_serve)
  then obtain e where e: "sv_events (snd (serve env rq s)) = sv_events s @ [e]"
    "ev_operation e = p" "ev_fault e = fst (take_fault p s)"
    by (auto simp: logged_def)
  from l have f: "sv_faults (snd (serve env rq s)) = sv_faults (snd (take_fault p s))"
    by (simp add: logged_def)
  show ?thesis
  proof (cases "p = operation")
    case True
    then have "fault_queue operation (snd (serve env rq s)) k =
        fault_queue operation (snd (take_fault operation s)) k"
      using f by (intro fault_queue_cong) simp
    with True e Some a show ?thesis
      by (intro exI [of _ "[e]"]) (simp add: requests_op_def hits_def fault_queue_step)
  next
    case False
    then have "fault_queue operation (snd (serve env rq s)) k = fault_queue operation s k"
      using f by (intro fault_queue_cong) (simp add: take_fault_other)
    with False e Some a show ?thesis
      by (intro exI [of _ "[e]"]) (simp add: requests_op_def hits_def)
  qed
qed

lemma run_hits:
  assumes "list_all (\<lambda>(env, rq). \<not> is_fault_control rq) xs"
  shows "\<exists>new. sv_events (snd (run xs s)) = sv_events s @ new \<and>
     hits operation new =
     fault_queue operation s (length (filter (\<lambda>(env, rq). requests_op operation rq) xs))"
  using assms
proof (induction xs arbitrary: s)
  case Nil
  then show ?case by (simp add: hits_def fault_queue_def)
next
  case (Cons x xs)
  obtain env rq where x: "x = (env, rq)" by (cases x)
  let ?s = "snd (serve env rq s)"
  let ?k = "length (filter (\<lambda>(env, rq). requests_op operation rq) xs)"
  from Cons x obtain rest where rest: "sv_events (snd (run xs ?s)) = sv_events ?s @ rest"
    "hits operation rest = fault_queue operation ?s ?k"
    by force
  from Cons.prems x serve_hits [of rq env s operation ?k] obtain new where
    "sv_events ?s = sv_events s @ new"
    "hits operation new @ fault_queue operation ?s ?k =
      fault_queue operation s ((if requests_op operation rq then 1 else 0) + ?k)"
    by auto
  with rest x show ?case
    by (intro exI [of _ "new @ rest"]) (simp add: snd_run_Cons del: run.simps)
qed

end
