(* ===== verification/Fixture_Requests.thy ===== *)
theory Fixture_Requests
  imports Fixture_Journal
begin

section \<open>Requests to the fixture by name\<close>

text \<open>
  Constructors for the requests the harness sends, the routes they take through the mux, and
  the handler each one reaches. The witnesses are built from them.
\<close>

definition quiet_env :: env where
  "quiet_env = \<lparr>en_outlasts = (\<lambda>_. True), en_connection = Hijackable, en_commit_time = 0,
     en_record_time = 0, en_order = []\<rparr>"

definition call :: "string \<Rightarrow> string list \<Rightarrow> string + jval \<Rightarrow> request" where
  "call m p b = \<lparr>rq_method = m, rq_path = p, rq_uri = concat (map (\<lambda>s. ''/'' @ s) p), rq_body = b\<rparr>"

definition no_body :: "string + jval" where
  "no_body = Inl ''EOF''"

definition state_body :: "string \<Rightarrow> string + jval" where
  "state_body st = Inr (JObj [(''state'', JStr st)])"

definition create_call :: "string \<Rightarrow> string + jval \<Rightarrow> request" where
  "create_call iid = call ''PUT'' [''dss'', ''v1'', ''operational_intent_references'', iid]"

definition update_call :: "string \<Rightarrow> string \<Rightarrow> string + jval \<Rightarrow> request" where
  "update_call iid ovn = call ''PUT'' [''dss'', ''v1'', ''operational_intent_references'', iid, ovn]"

definition delete_call :: "string \<Rightarrow> string \<Rightarrow> request" where
  "delete_call iid ovn =
     call ''DELETE'' [''dss'', ''v1'', ''operational_intent_references'', iid, ovn] no_body"

definition get_call :: "string \<Rightarrow> request" where
  "get_call iid = call ''GET'' [''dss'', ''v1'', ''operational_intent_references'', iid] no_body"

definition control_call :: "string \<Rightarrow> string + jval \<Rightarrow> request" where
  "control_call name = call ''POST'' [''control'', name]"

lemmas call_defs = call_def create_call_def update_call_def delete_call_def get_call_def
  control_call_def no_body_def

definition notify_call :: request where
  "notify_call = call ''POST'' [''uss'', ''v1'', ''operational_intents''] no_body"

definition rotate_call :: "string \<Rightarrow> request" where
  "rotate_call iid = call ''POST'' [''control'', ''intents'', iid, ''rotate-ovn''] no_body"

text \<open>A configuration for the witnesses.\<close>

definition example_config :: config where
  "example_config = \<lparr>cf_manager = [], cf_peer_base_url = ''http://fixture:8081/'',
     cf_subscriber_url = []\<rparr>"

lemma call_sel [simp]:
  "rq_body (create_call iid b) = b"
  "rq_body (update_call iid ovn b) = b"
  "rq_method (call m p b) = m" "rq_path (call m p b) = p" "rq_body (call m p b) = b"
  by (simp_all add: call_defs)

lemma route_dss:
  "iid \<noteq> [] \<Longrightarrow> mux_find routes ''PUT'' [''dss'', ''v1'', ''operational_intent_references'', iid] =
     Some (CreateReference, [iid])"
  "iid \<noteq> [] \<Longrightarrow> ovn \<noteq> [] \<Longrightarrow>
     mux_find routes ''PUT'' [''dss'', ''v1'', ''operational_intent_references'', iid, ovn] =
     Some (UpdateReference, [iid, ovn])"
  "iid \<noteq> [] \<Longrightarrow> ovn \<noteq> [] \<Longrightarrow>
     mux_find routes ''DELETE'' [''dss'', ''v1'', ''operational_intent_references'', iid, ovn] =
     Some (DeleteReference, [iid, ovn])"
  "iid \<noteq> [] \<Longrightarrow> mux_find routes ''GET'' [''dss'', ''v1'', ''operational_intent_references'', iid] =
     Some (GetReference, [iid])"
  by (simp_all add: routes_def match_method_def)

lemma ovn_of_nonempty [simp]: "ovn_of iid v \<noteq> []" "[] \<noteq> ovn_of iid v"
  by (simp_all add: ovn_of_def)

lemma serve_create:
  "iid \<noteq> [] \<Longrightarrow> serve env (create_call iid b) s =
     handle_put_reference env (create_call iid b) True iid [] s"
  by (simp add: serve_def dispatch_def call_defs route_dss handle_create_reference_def
      path_value_def split: prod.splits)

lemma serve_update:
  "iid \<noteq> [] \<Longrightarrow> ovn \<noteq> [] \<Longrightarrow> serve env (update_call iid ovn b) s =
     handle_put_reference env (update_call iid ovn b) False iid ovn s"
  by (simp add: serve_def dispatch_def call_defs route_dss handle_update_reference_def
      path_value_def split: prod.splits)

lemma serve_delete:
  "iid \<noteq> [] \<Longrightarrow> ovn \<noteq> [] \<Longrightarrow> serve env (delete_call iid ovn) s =
     handle_delete_reference env (delete_call iid ovn) iid ovn s"
  by (simp add: serve_def dispatch_def call_defs route_dss path_value_def split: prod.splits)

lemma serve_get:
  "iid \<noteq> [] \<Longrightarrow> serve env (get_call iid) s =
     handle_get_reference env (get_call iid) iid s"
  by (simp add: serve_def dispatch_def call_defs route_dss path_value_def split: prod.splits)

subsection \<open>Small facts on replies\<close>

lemma take_fault_none: "sv_faults s operation = None \<Longrightarrow> take_fault operation s = (None, s)"
  by (simp add: take_fault_def)

lemma pre_commit_no_fault [simp]: "pre_commit_fault env rq operation iid None s = (None, s)"
  by (simp add: pre_commit_fault_def)

lemma respond_no_fault:
  "respond env rq operation iid status payload None s =
   (write_json status (Some payload), record_event env rq operation iid status None s)"
  by (simp add: respond_def Let_def)

lemma write_json_plain:
  "200 \<le> status \<Longrightarrow> status \<le> 999 \<Longrightarrow> status \<noteq> 204 \<Longrightarrow> status \<noteq> 304 \<Longrightarrow>
   write_json status (Some v) = Reply status (BJson v)"
  by (simp add: write_json_def write_header_plain)

subsection \<open>The mux is unambiguous\<close>

text \<open>
  Two patterns are apart when they differ in length or have different literals at one
  position; no path matches both.
\<close>

fun apart :: "seg list \<Rightarrow> seg list \<Rightarrow> bool" where
  "apart [] [] = False"
| "apart (Lit a # ps) (Lit b # qs) = (a \<noteq> b \<or> apart ps qs)"
| "apart (p # ps) (q # qs) = apart ps qs"
| "apart _ _ = True"

lemma match_path_ends:
  "match_path ps [] = Some vs \<longleftrightarrow> ps = [] \<and> vs = []"
  "match_path [] p = Some vs \<longleftrightarrow> p = [] \<and> vs = []"
  by (cases ps; cases p; auto; metis match_path.simps option.distinct(1) seg.exhaust)+

lemma common_path_not_apart:
  "match_path ps p = Some vs \<Longrightarrow> match_path qs p = Some ws \<Longrightarrow> \<not> apart ps qs"
proof (induction p arbitrary: ps qs vs ws)
  case Nil
  then show ?case by (simp add: match_path_ends)
next
  case (Cons s p)
  from Cons.prems obtain x ps' y qs' where "ps = x # ps'" "qs = y # qs'"
    by (cases ps; cases qs) (auto simp: match_path_ends)
  with Cons show ?case by (cases x; cases y) (auto split: if_splits)
qed

lemma apart_sound: "apart ps qs \<Longrightarrow> match_path ps p \<noteq> None \<Longrightarrow> match_path qs p = None"
  using common_path_not_apart by (cases "match_path qs p") auto

fun routes_apart :: "(string \<times> seg list \<times> 'h) list \<Rightarrow> bool" where
  "routes_apart [] = True"
| "routes_apart ((m, ps, h) # rs) =
     (list_all (\<lambda>(m', ps', h'). m \<noteq> m' \<or> apart ps ps') rs \<and> routes_apart rs)"

lemma routes_are_apart: "routes_apart routes"
  by code_simp

definition matching :: "(string \<times> seg list \<times> 'h) list \<Rightarrow> string \<Rightarrow> string list \<Rightarrow> (string \<times> seg list \<times> 'h) list" where
  "matching rs m p = filter (\<lambda>(pm, ps, h). match_method pm m \<and> match_path ps p \<noteq> None) rs"

lemma matching_at_most_one:
  "routes_apart rs \<Longrightarrow> list_all (\<lambda>(pm, ps, h). pm \<noteq> ''HEAD'') rs \<Longrightarrow>
   length (matching rs m p) \<le> 1"
proof (induction rs)
  case Nil
  then show ?case by (simp add: matching_def)
next
  case (Cons r rs)
  obtain pm ps h where r: "r = (pm, ps, h)" by (cases r)
  show ?case
  proof (cases "match_method pm m \<and> match_path ps p \<noteq> None")
    case True
    have "matching rs m p = []"
    proof -
      have "\<not> (match_method m' m \<and> match_path ps' p \<noteq> None)" if "(m', ps', h') \<in> set rs" for m' ps' h'
        using that Cons.prems True apart_sound [of ps ps' p]
        by (fastforce simp: r list_all_iff match_method_def)
      then show ?thesis by (auto simp: matching_def filter_empty_conv)
    qed
    with r show ?thesis by (simp add: matching_def)
  next
    case False
    with Cons r show ?thesis by (auto simp: matching_def)
  qed
qed

text \<open>
  No two registered patterns match the same request, so the order of registration does
  not matter.
\<close>

theorem mux_unambiguous:
  "length (matching routes m p) \<le> 1"
proof (rule matching_at_most_one)
  show "routes_apart routes" by (rule routes_are_apart)
  show "list_all (\<lambda>(pm, ps, h). pm \<noteq> ''HEAD'') routes" by (simp add: routes_def)
qed

end
