(* ===== verification/Fixture_Store.thy ===== *)
theory Fixture_Store
  imports Fixture_Requests
begin

section \<open>The fixture as an optimistic-concurrency store\<close>

text \<open>
  The abstract contract of the DSS half of the fixture is a map from identifiers to versions
  with create, conditional update and conditional delete, where the condition is the OVN of the
  current version. \<open>serve_refines\<close> relates the handlers to it: a request either takes the one
  abstract step its route names, or, when an injected fault or an unreadable body stops it
  before the commit, none.
\<close>

subsection \<open>The abstract store\<close>

datatype store_op =
    CreateOp string
  | UpdateOp string string
  | DeleteOp string string
  | RotateOp string
  | ResetOp
  | NoOp

type_synonym store = "string \<rightharpoonup> int"

fun store_step :: "store_op \<Rightarrow> store \<Rightarrow> store" where
  "store_step (CreateOp iid) m = (case m iid of None \<Rightarrow> m(iid \<mapsto> 1) | Some v \<Rightarrow> m)"
| "store_step (UpdateOp iid ovn) m = (case m iid of None \<Rightarrow> m
     | Some v \<Rightarrow> if ovn = ovn_of iid v then m(iid \<mapsto> v + 1) else m)"
| "store_step (DeleteOp iid ovn) m = (case m iid of None \<Rightarrow> m
     | Some v \<Rightarrow> if ovn = ovn_of iid v then m(iid := None) else m)"
| "store_step (RotateOp iid) m = (case m iid of None \<Rightarrow> m | Some v \<Rightarrow> m(iid \<mapsto> v + 1))"
| "store_step ResetOp m = Map.empty"
| "store_step NoOp m = m"

definition store_of :: "server \<Rightarrow> store" where
  "store_of s = (\<lambda>iid. map_option rf_version (sv_references s iid))"

fun endpoint_op :: "endpoint \<Rightarrow> string list \<Rightarrow> store_op" where
  "endpoint_op CreateReference args = CreateOp (path_value 0 args)"
| "endpoint_op UpdateReference args = UpdateOp (path_value 0 args) (path_value 1 args)"
| "endpoint_op DeleteReference args = DeleteOp (path_value 0 args) (path_value 1 args)"
| "endpoint_op RotateOVN args = RotateOp (path_value 0 args)"
| "endpoint_op Reset args = ResetOp"
| "endpoint_op _ args = NoOp"

definition op_of :: "request \<Rightarrow> store_op" where
  "op_of rq = (case mux_find routes (rq_method rq) (rq_path rq) of
     None \<Rightarrow> NoOp | Some (ep, args) \<Rightarrow> endpoint_op ep args)"

text \<open>Whether the fault pending for an operation ends the request before the commit.\<close>

definition intercepted :: "env \<Rightarrow> string \<Rightarrow> server \<Rightarrow> bool" where
  "intercepted env operation s = (case fst (take_fault operation s) of
     None \<Rightarrow> False
   | Some f \<Rightarrow> 0 < fs_delay_ms f \<and> \<not> wait_millis env (fs_delay_ms f) \<or> fs_status f \<noteq> 0)"

definition body_readable :: "request \<Rightarrow> bool" where
  "body_readable rq = (case decode_stream decode_put (rq_body rq) of Inl e \<Rightarrow> False | Inr b \<Rightarrow> True)"

definition commits :: "env \<Rightarrow> request \<Rightarrow> server \<Rightarrow> bool" where
  "commits env rq s = (case op_of rq of
     CreateOp iid \<Rightarrow> \<not> intercepted env OperationCreateReference s \<and> body_readable rq
   | UpdateOp iid ovn \<Rightarrow> \<not> intercepted env OperationUpdateReference s \<and> body_readable rq
   | DeleteOp iid ovn \<Rightarrow> \<not> intercepted env OperationDeleteReference s
   | RotateOp iid \<Rightarrow> True
   | ResetOp \<Rightarrow> True
   | NoOp \<Rightarrow> True)"

subsection \<open>The commits, one at a time\<close>

definition refs_ok :: "server \<Rightarrow> bool" where
  "refs_ok s \<longleftrightarrow> (\<forall>iid r. sv_references s iid = Some r \<longrightarrow>
     rf_ovn r = ovn_of iid (rf_version r) \<and> 0 \<le> rf_version r \<and> rf_version r < 2 ^ 63 - 1)"

lemma refs_okD:
  "refs_ok s \<Longrightarrow> sv_references s iid = Some r \<Longrightarrow>
   rf_ovn r = ovn_of iid (rf_version r) \<and> wrap64 (rf_version r + 1) = rf_version r + 1"
  by (simp add: refs_ok_def wrap64_succ)

lemma refs_ok_cong: "sv_references s = sv_references t \<Longrightarrow> refs_ok s = refs_ok t"
  by (simp add: refs_ok_def)

lemma store_of_cong: "sv_references s = sv_references t \<Longrightarrow> store_of s = store_of t"
  by (simp add: store_of_def)

lemma rf_version_put_reference [simp]: "rf_version (put_reference env iid v body s) = v"
  by (simp add: put_reference_def Let_def)

lemma commit_put_refines:
  assumes "refs_ok s"
  shows "store_of (snd (commit_put env create iid ovn body s)) =
     store_step (if create then CreateOp iid else UpdateOp iid ovn) (store_of s)"
proof (cases "sv_references s iid")
  case None
  then show ?thesis
    by (auto simp: commit_put_def Let_def store_of_def wrap64_id in_int64_def)
next
  case (Some r)
  with refs_okD [OF assms] show ?thesis
    by (auto simp: commit_put_def Let_def store_of_def)
qed

lemma commit_delete_refines:
  assumes "refs_ok s"
  shows "store_of (snd (commit_delete iid ovn s)) = store_step (DeleteOp iid ovn) (store_of s)"
proof (cases "sv_references s iid")
  case None
  then show ?thesis by (simp add: commit_delete_def store_of_def)
next
  case (Some r)
  with refs_okD [OF assms] show ?thesis by (auto simp: commit_delete_def store_of_def)
qed

lemma rotate_refines:
  assumes "refs_ok s"
  shows "store_of (snd (handle_rotate_ovn iid s)) = store_step (RotateOp iid) (store_of s)"
proof (cases "sv_references s iid")
  case None
  then show ?thesis by (simp add: handle_rotate_ovn_def store_of_def)
next
  case (Some r)
  with refs_okD [OF assms] show ?thesis
    by (auto simp: handle_rotate_ovn_def bump_def Let_def store_of_def)
qed

text \<open>What a handler leaves in the store, fault or not.\<close>

lemma pre_commit_intercepts:
  assumes "take_fault operation s = (fault, s1)"
    and "pre_commit_fault env rq operation iid fault s1 = (x, s2)"
  shows "x = None \<longleftrightarrow> \<not> intercepted env operation s"
    and "sv_references s2 = sv_references s"
proof -
  show "x = None \<longleftrightarrow> \<not> intercepted env operation s"
    using assms by (auto simp: pre_commit_fault_def intercepted_def split: option.splits if_splits prod.splits)
  have "sv_references s1 = sv_references s"
    using take_fault_frame(1) [of operation s] assms(1) by simp
  moreover have "sv_references s2 = sv_references s1"
    using snd_pre_commit_fault [of env rq operation iid fault s1] assms(2)
    by (auto simp: record_event_frame)
  ultimately show "sv_references s2 = sv_references s" by simp
qed

lemma put_references:
  fixes env rq create iid ovn s
  defines "operation \<equiv> if create then OperationCreateReference else OperationUpdateReference"
  defines "s' \<equiv> snd (handle_put_reference env rq create iid ovn s)"
  shows "\<not> intercepted env operation s \<Longrightarrow> body_readable rq \<Longrightarrow>
     \<exists>body t. decode_stream decode_put (rq_body rq) = Inr body \<and>
       sv_references t = sv_references s \<and> sv_manager t = sv_manager s \<and>
       sv_peer_base_url t = sv_peer_base_url s \<and>
       sv_references s' = sv_references (snd (commit_put env create iid ovn body t))"
    and "intercepted env operation s \<or> \<not> body_readable rq \<Longrightarrow> sv_references s' = sv_references s"
proof -
  obtain fault s1 where t: "take_fault operation s = (fault, s1)" by fastforce
  obtain x s2 where p: "pre_commit_fault env rq operation iid fault s1 = (x, s2)" by fastforce
  note pc = pre_commit_intercepts [OF t p]
  have s2: "sv_references s2 = sv_references s" "x = None \<Longrightarrow> s2 = s1"
    using pc p pre_commit_fault_None by auto
  have cfg: "sv_manager s1 = sv_manager s" "sv_peer_base_url s1 = sv_peer_base_url s"
    using take_fault_frame(4,5) [of operation s] t by simp_all
  note unf = s'_def operation_def handle_put_reference_def Let_def
  show "\<exists>body t. decode_stream decode_put (rq_body rq) = Inr body \<and>
       sv_references t = sv_references s \<and> sv_manager t = sv_manager s \<and>
       sv_peer_base_url t = sv_peer_base_url s \<and>
       sv_references s' = sv_references (snd (commit_put env create iid ovn body t))"
    if "\<not> intercepted env operation s" and r: "body_readable rq"
  proof -
    from that pc have x: "x = None" by simp
    from r obtain body where body: "decode_stream decode_put (rq_body rq) = Inr body"
      by (auto simp: body_readable_def split: sum.splits)
    have "sv_references s' = sv_references (snd (commit_put env create iid ovn body s2))"
      using t p x body unfolding unf
      by (auto simp: snd_respond record_event_frame split: prod.splits put_result.splits)
    then show ?thesis using body s2 x cfg by auto
  qed
  show "sv_references s' = sv_references s"
    if "intercepted env operation s \<or> \<not> body_readable rq"
    using t p pc that unfolding unf
    by (cases x)
      (auto simp: snd_respond record_event_frame body_readable_def split: prod.splits sum.splits)
qed

lemma delete_references:
  shows "\<not> intercepted env OperationDeleteReference s \<Longrightarrow>
     \<exists>t. sv_references t = sv_references s \<and>
       sv_references (snd (handle_delete_reference env rq iid ovn s)) =
       sv_references (snd (commit_delete iid ovn t))"
    and "intercepted env OperationDeleteReference s \<Longrightarrow>
     sv_references (snd (handle_delete_reference env rq iid ovn s)) = sv_references s"
proof -
  obtain fault s1 where t: "take_fault OperationDeleteReference s = (fault, s1)" by fastforce
  obtain x s2 where p: "pre_commit_fault env rq OperationDeleteReference iid fault s1 = (x, s2)"
    by fastforce
  note pc = pre_commit_intercepts [OF t p]
  show "\<exists>t. sv_references t = sv_references s \<and>
       sv_references (snd (handle_delete_reference env rq iid ovn s)) =
       sv_references (snd (commit_delete iid ovn t))"
    if "\<not> intercepted env OperationDeleteReference s"
    using t p pc that unfolding handle_delete_reference_def
    by (intro exI [of _ s2])
      (auto simp: snd_respond record_event_frame split: prod.splits option.splits)
  show "sv_references (snd (handle_delete_reference env rq iid ovn s)) = sv_references s"
    if "intercepted env OperationDeleteReference s"
    using t p pc that unfolding handle_delete_reference_def
    by (auto split: prod.splits option.splits)
qed

lemma reads_references:
  "sv_references (snd (handle_query_references env rq s)) = sv_references s"
  "sv_references (snd (handle_subscriptions env rq s)) = sv_references s"
  "sv_references (snd (handle_get_reference env rq iid s)) = sv_references s"
  "sv_references (snd (handle_peer_details env rq iid s)) = sv_references s"
  "sv_references (snd (handle_peer_notification env rq s)) = sv_references s"
  unfolding handle_query_references_def handle_subscriptions_def handle_get_reference_def
    handle_peer_details_def handle_peer_notification_def
  by (auto simp: snd_respond record_event_frame split: prod.splits option.splits
      dest: pre_commit_intercepts(2))

subsection \<open>Refinement\<close>

fun endpoint_commits :: "env \<Rightarrow> request \<Rightarrow> endpoint \<Rightarrow> server \<Rightarrow> bool" where
  "endpoint_commits env rq CreateReference s =
     (\<not> intercepted env OperationCreateReference s \<and> body_readable rq)"
| "endpoint_commits env rq UpdateReference s =
     (\<not> intercepted env OperationUpdateReference s \<and> body_readable rq)"
| "endpoint_commits env rq DeleteReference s = (\<not> intercepted env OperationDeleteReference s)"
| "endpoint_commits env rq _ s = True"

lemma put_handler_refines:
  assumes "refs_ok s"
  shows "store_of (snd (handle_put_reference env rq create iid ovn s)) =
    (if \<not> intercepted env (if create then OperationCreateReference else OperationUpdateReference) s
        \<and> body_readable rq
     then store_step (if create then CreateOp iid else UpdateOp iid ovn) (store_of s)
     else store_of s)" (is "_ = (if ?c then _ else _)")
proof (cases ?c)
  case True
  then obtain body t where t: "sv_references t = sv_references s"
    "sv_references (snd (handle_put_reference env rq create iid ovn s)) =
     sv_references (snd (commit_put env create iid ovn body t))"
    using put_references(1) by blast
  have "refs_ok t" using refs_ok_cong [OF t(1)] assms by simp
  have "store_of (snd (handle_put_reference env rq create iid ovn s)) =
      store_of (snd (commit_put env create iid ovn body t))"
    by (rule store_of_cong) (rule t(2))
  also have "\<dots> = store_step (if create then CreateOp iid else UpdateOp iid ovn) (store_of t)"
    by (rule commit_put_refines) fact
  also have "store_of t = store_of s" by (rule store_of_cong) (rule t(1))
  finally show ?thesis by (simp only: if_P [OF True])
next
  case False
  then have "sv_references (snd (handle_put_reference env rq create iid ovn s)) = sv_references s"
    by (intro put_references(2)) blast
  then show ?thesis by (simp only: if_not_P [OF False]) (rule store_of_cong)
qed

lemma delete_handler_refines:
  assumes "refs_ok s"
  shows "store_of (snd (handle_delete_reference env rq iid ovn s)) =
    (if \<not> intercepted env OperationDeleteReference s
     then store_step (DeleteOp iid ovn) (store_of s) else store_of s)"
proof (cases "intercepted env OperationDeleteReference s")
  case True
  then have "store_of (snd (handle_delete_reference env rq iid ovn s)) = store_of s"
    by (intro store_of_cong delete_references(2))
  with True show ?thesis by simp
next
  case False
  then obtain t where t: "sv_references t = sv_references s"
    "sv_references (snd (handle_delete_reference env rq iid ovn s)) =
     sv_references (snd (commit_delete iid ovn t))"
    using delete_references(1) by blast
  have "refs_ok t" using refs_ok_cong [OF t(1)] assms by simp
  have "store_of (snd (handle_delete_reference env rq iid ovn s)) =
      store_of (snd (commit_delete iid ovn t))"
    by (rule store_of_cong) (rule t(2))
  also have "\<dots> = store_step (DeleteOp iid ovn) (store_of t)"
    by (rule commit_delete_refines) fact
  also have "store_of t = store_of s" by (rule store_of_cong) (rule t(1))
  finally show ?thesis by (simp only: if_P [OF False])
qed

lemma handle_refines:
  assumes "refs_ok s"
  shows "store_of (snd (handle env rq ep args s)) =
    (if endpoint_commits env rq ep s then store_step (endpoint_op ep args) (store_of s)
     else store_of s)"
proof (cases ep)
  case RotateOVN
  then show ?thesis using rotate_refines [OF assms] by simp
next
  case CreateReference
  then show ?thesis using put_handler_refines [OF assms, of env rq True]
    by (simp add: handle_create_reference_def)
next
  case UpdateReference
  then show ?thesis using put_handler_refines [OF assms, of env rq False]
    by (simp add: handle_update_reference_def)
next
  case DeleteReference
  then show ?thesis using delete_handler_refines [OF assms] by simp
qed (auto simp: reads_references handle_healthz_def handle_reset_def handle_fault_def
    handle_clear_faults_def handle_events_def handle_state_def store_of_def split: sum.splits)

lemma commits_endpoint:
  "mux_find routes (rq_method rq) (rq_path rq) = Some (ep, args) \<Longrightarrow>
   commits env rq s = endpoint_commits env rq ep s"
  by (cases ep) (simp_all add: commits_def op_of_def)

lemma serve_store_step:
  assumes "refs_ok s"
  shows "store_of (snd (serve env rq s)) =
    (if commits env rq s then store_step (op_of rq) (store_of s) else store_of s)"
proof (cases "mux_find routes (rq_method rq) (rq_path rq)")
  case None
  then show ?thesis by (simp add: snd_serve dispatch_def op_of_def)
next
  case (Some a)
  obtain ep args where "a = (ep, args)" by (cases a)
  with Some show ?thesis
    using handle_refines [OF assms, of env rq ep args] commits_endpoint [of rq ep args env s]
    by (simp add: snd_serve dispatch_def op_of_def)
qed

subsection \<open>Versions along a run\<close>

lemma run_append: "snd (run (xs @ ys) s) = snd (run ys (snd (run xs s)))"
  by (induction xs arbitrary: s) (auto simp: snd_run_Cons simp del: run.simps(2))

definition versions_upto :: "nat \<Rightarrow> store \<Rightarrow> bool" where
  "versions_upto n m \<longleftrightarrow> (\<forall>iid v. m iid = Some v \<longrightarrow> 1 \<le> v \<and> v \<le> int n)"

lemma versions_upto_mono: "versions_upto n m \<Longrightarrow> versions_upto (Suc n) m"
  by (force simp: versions_upto_def)

lemma store_step_versions: "versions_upto n m \<Longrightarrow> versions_upto (Suc n) (store_step c m)"
  by (cases c) (fastforce simp: versions_upto_def split: option.splits)+

lemma wf_refs_ok:
  assumes "wf_server s" and "versions_upto n (store_of s)" and "int n < 2 ^ 63 - 1"
  shows "refs_ok s"
  using assms by (fastforce simp: refs_ok_def wf_server_def wf_reference_def versions_upto_def store_of_def)

lemma run_versions:
  assumes "length xs < 2 ^ 63 - 1"
  shows "versions_upto (length xs) (store_of (snd (run xs (new_server c))))"
  using assms
proof (induction xs rule: rev_induct)
  case Nil
  then show ?case by (simp add: new_server_def store_of_def versions_upto_def)
next
  case (snoc x xs)
  obtain env rq where x: "x = (env, rq)" by (cases x)
  let ?s = "snd (run xs (new_server c))"
  have v: "versions_upto (length xs) (store_of ?s)" using snoc by simp
  have "int (length xs) < 2 ^ 63 - 1" using snoc.prems by simp
  with v have "refs_ok ?s" using wf_refs_ok wf_run wf_new_server by blast
  then have "store_of (snd (serve env rq ?s)) =
      (if commits env rq ?s then store_step (op_of rq) (store_of ?s) else store_of ?s)"
    by (rule serve_store_step)
  then have "versions_upto (Suc (length xs)) (store_of (snd (serve env rq ?s)))"
    using store_step_versions [OF v] versions_upto_mono [OF v] by simp
  then show ?case by (simp add: x run_snoc)
qed

lemma run_refs_ok:
  assumes "length xs < 2 ^ 63 - 1"
  shows "refs_ok (snd (run xs (new_server c)))"
  using run_versions [OF assms] wf_refs_ok [of _ "length xs"] wf_run wf_new_server assms by simp

fun committed_ops :: "(env \<times> request) list \<Rightarrow> server \<Rightarrow> store_op list" where
  "committed_ops [] s = []"
| "committed_ops ((env, rq) # xs) s =
     (if commits env rq s then [op_of rq] else []) @ committed_ops xs (snd (serve env rq s))"

lemma committed_ops_snoc:
  "committed_ops (xs @ [(env, rq)]) s =
   committed_ops xs s @ (if commits env rq (snd (run xs s)) then [op_of rq] else [])"
  by (induction xs arbitrary: s) (auto simp: snd_run_Cons simp del: run.simps(2))

subsection \<open>The life of one reference\<close>

text \<open>What one request can do to the reference of one identifier.\<close>

inductive ref_change :: "string \<Rightarrow> reference option \<Rightarrow> reference option \<Rightarrow> bool" for iid where
  unchanged: "ref_change iid x x"
| created: "rf_version r = 1 \<Longrightarrow> rf_ovn r = ovn_of iid 1 \<Longrightarrow> ref_change iid None (Some r)"
| advanced: "rf_version r' = rf_version r + 1 \<Longrightarrow> rf_ovn r' = ovn_of iid (rf_version r') \<Longrightarrow>
    ref_change iid (Some r) (Some r')"
| removed: "ref_change iid (Some r) None"

inductive_cases ref_change_live: "ref_change iid (Some r) (Some r')"
inductive_simps ref_change_to_some: "ref_change iid x (Some r)"

lemma rf_ovn_put_reference [simp]: "rf_ovn (put_reference env iid v body s) = ovn_of iid v"
  by (simp add: put_reference_def Let_def)

lemma commit_put_ref_change:
  assumes "refs_ok s"
  shows "ref_change j (sv_references s j) (sv_references (snd (commit_put env create iid ovn body s)) j)"
proof (cases "sv_references s iid")
  case None
  then show ?thesis
    by (auto simp: commit_put_def Let_def wrap64_id in_int64_def intro: ref_change.intros)
next
  case (Some r)
  with refs_okD [OF assms] show ?thesis
    by (auto simp: commit_put_def Let_def intro: ref_change.intros)
qed

lemma commit_delete_ref_change:
  "ref_change j (sv_references s j) (sv_references (snd (commit_delete iid ovn s)) j)"
  by (auto simp: commit_delete_def split: option.splits intro: ref_change.intros)

lemma rotate_ref_change:
  assumes "refs_ok s"
  shows "ref_change j (sv_references s j) (sv_references (snd (handle_rotate_ovn iid s)) j)"
proof (cases "sv_references s iid")
  case None
  then show ?thesis by (simp add: handle_rotate_ovn_def unchanged)
next
  case (Some r)
  with refs_okD [OF assms Some] show ?thesis
    by (auto simp: handle_rotate_ovn_def bump_def Let_def intro: ref_change.intros)
qed

lemma put_ref_change:
  assumes "refs_ok s"
  shows "ref_change j (sv_references s j)
    (sv_references (snd (handle_put_reference env rq create iid ovn s)) j)"
proof (cases "\<not> intercepted env (if create then OperationCreateReference else OperationUpdateReference) s
    \<and> body_readable rq")
  case True
  then obtain body t where t: "sv_references t = sv_references s"
    "sv_references (snd (handle_put_reference env rq create iid ovn s)) =
     sv_references (snd (commit_put env create iid ovn body t))"
    using put_references(1) by blast
  have "refs_ok t" using refs_ok_cong [OF t(1)] assms by simp
  from commit_put_ref_change [OF this] show ?thesis by (metis t)
next
  case False
  then have "sv_references (snd (handle_put_reference env rq create iid ovn s)) = sv_references s"
    by (intro put_references(2)) blast
  then show ?thesis by (simp add: unchanged)
qed

lemma delete_ref_change:
  "ref_change j (sv_references s j)
    (sv_references (snd (handle_delete_reference env rq iid ovn s)) j)"
  by (metis commit_delete_ref_change delete_references unchanged)

lemma serve_ref_change:
  assumes "refs_ok s"
  shows "ref_change iid (sv_references s iid) (sv_references (snd (serve env rq s)) iid)"
proof -
  have "ref_change iid (sv_references s iid) (sv_references (snd (handle env rq ep args s)) iid)"
    for ep args
  proof (cases ep)
    case Reset
    then show ?thesis by (cases "sv_references s iid") (auto simp: handle_reset_def intro: ref_change.intros)
  qed (use assms in \<open>auto simp: put_ref_change delete_ref_change rotate_ref_change reads_references
      handle_healthz_def handle_fault_def handle_clear_faults_def handle_events_def handle_state_def
      handle_create_reference_def handle_update_reference_def unchanged split: sum.splits\<close>)
  then show ?thesis
    by (auto simp: snd_serve dispatch_def unchanged split: option.splits)
qed

text \<open>While a reference stays live, its versions only grow, and a change shows in the version.\<close>

lemma live_run:
  assumes "\<And>k. k \<le> length xs \<Longrightarrow> refs_ok (snd (run (take k xs) s))"
    and "\<And>k. k \<le> length xs \<Longrightarrow> sv_references (snd (run (take k xs) s)) iid \<noteq> None"
    and "sv_references s iid = Some r"
  shows "\<exists>r'. sv_references (snd (run xs s)) iid = Some r' \<and>
     (r' = r \<or> rf_version r < rf_version r' \<and> rf_ovn r' = ovn_of iid (rf_version r'))"
  using assms
proof (induction xs rule: rev_induct)
  case Nil
  then show ?case by simp
next
  case (snoc x xs)
  obtain env rq where x: "x = (env, rq)" by (cases x)
  let ?s = "snd (run xs s)"
  have ok: "refs_ok ?s" using snoc.prems(1) [of "length xs"] by simp
  have "refs_ok (snd (run (take k xs) s))" if "k \<le> length xs" for k
    using snoc.prems(1) [of k] that by simp
  moreover have "sv_references (snd (run (take k xs) s)) iid \<noteq> None" if "k \<le> length xs" for k
    using snoc.prems(2) [of k] that by simp
  ultimately obtain r1 where r1: "sv_references ?s iid = Some r1"
    "r1 = r \<or> rf_version r < rf_version r1 \<and> rf_ovn r1 = ovn_of iid (rf_version r1)"
    using snoc.IH snoc.prems(3) by blast
  have "sv_references (snd (serve env rq ?s)) iid \<noteq> None"
    using snoc.prems(2) [of "length (xs @ [x])"] by (simp add: x run_snoc)
  then obtain r2 where r2: "sv_references (snd (serve env rq ?s)) iid = Some r2" by blast
  with serve_ref_change [OF ok, of iid env rq] r1 have "ref_change iid (Some r1) (Some r2)" by simp
  then have "r2 = r1 \<or> rf_version r2 = rf_version r1 + 1 \<and> rf_ovn r2 = ovn_of iid (rf_version r2)"
    by (auto elim: ref_change_live)
  with r1 r2 show ?case by (auto simp: x run_snoc)
qed

lemma ovn_of_inject [simp]: "ovn_of iid v = ovn_of iid w \<longleftrightarrow> v = w"
  by (simp add: ovn_of_def)

subsection \<open>Properties\<close>

text \<open>
  C1: every run of requests from a fresh fixture is a run of the abstract store. The store a
  run leaves behind is the one reached by applying, in order, the abstract operation of every
  request that was not stopped before its commit.
\<close>

theorem run_refines:
  assumes "length xs < 2 ^ 63 - 1"
  shows "store_of (snd (run xs (new_server c))) =
    fold store_step (committed_ops xs (new_server c)) Map.empty"
  using assms
proof (induction xs rule: rev_induct)
  case Nil
  then show ?case by (simp add: new_server_def store_of_def)
next
  case (snoc x xs)
  obtain env rq where x: "x = (env, rq)" by (cases x)
  have "refs_ok (snd (run xs (new_server c)))" using run_refs_ok snoc.prems by simp
  with snoc show ?case by (simp add: x run_snoc committed_ops_snoc serve_store_step)
qed

definition example_run :: "(env \<times> request) list" where
  "example_run = [(quiet_env, create_call ''a'' (state_body ''Accepted'')),
     (quiet_env, rotate_call ''a''), (quiet_env, delete_call ''a'' (ovn_of ''a'' 1))]"

theorem run_refines_witness:
  "committed_ops example_run (new_server example_config) =
     [CreateOp ''a'', RotateOp ''a'', DeleteOp ''a'' (ovn_of ''a'' 1)] \<and>
   store_of (snd (run example_run (new_server example_config))) =
     fold store_step (committed_ops example_run (new_server example_config)) Map.empty"
proof
  show "committed_ops example_run (new_server example_config) =
     [CreateOp ''a'', RotateOp ''a'', DeleteOp ''a'' (ovn_of ''a'' 1)]"
    by code_simp
  have "length example_run < 2 ^ 63 - 1" by (simp add: example_run_def)
  then show "store_of (snd (run example_run (new_server example_config))) =
     fold store_step (committed_ops example_run (new_server example_config)) Map.empty"
    by (rule run_refines)
qed

text \<open>
  C2: a PUT or DELETE that carries an OVN other than the current one leaves every reference
  as it was, whatever faults are pending.
\<close>

theorem stale_ovn_harmless:
  assumes "op_of rq = UpdateOp iid ovn \<or> op_of rq = DeleteOp iid ovn"
    and "sv_references s iid = Some r" and "ovn \<noteq> rf_ovn r"
  shows "sv_references (snd (serve env rq s)) = sv_references s"
proof -
  have put: "sv_references (snd (commit_put env False iid ovn body t)) = sv_references t"
    if "sv_references t = sv_references s" for body t
    using that assms by (simp add: commit_put_def)
  have del: "sv_references (snd (commit_delete iid ovn t)) = sv_references t"
    if "sv_references t = sv_references s" for t
    using that assms by (simp add: commit_delete_def)
  have "sv_references (snd (handle_put_reference env rq False iid ovn s)) = sv_references s"
    using put_references [of env False s rq iid ovn] put by metis
  moreover have "sv_references (snd (handle_delete_reference env rq iid ovn s)) = sv_references s"
    using delete_references [of env s rq iid ovn] del by metis
  moreover obtain ep args where
    "mux_find routes (rq_method rq) (rq_path rq) = Some (ep, args)"
    "endpoint_op ep args = UpdateOp iid ovn \<or> endpoint_op ep args = DeleteOp iid ovn"
    using assms(1) by (auto simp: op_of_def split: option.splits prod.splits)
  ultimately show ?thesis
    by (cases ep) (auto simp: snd_serve dispatch_def handle_update_reference_def)
qed

definition example_server :: server where
  "example_server = snd (run [(quiet_env, create_call ''a'' (state_body ''Accepted'')),
     (quiet_env, rotate_call ''a'')] (new_server example_config))"

theorem stale_ovn_harmless_witness:
  "op_of (delete_call ''a'' (ovn_of ''a'' 1)) = DeleteOp ''a'' (ovn_of ''a'' 1) \<and>
   sv_references (snd (serve quiet_env (delete_call ''a'' (ovn_of ''a'' 1)) example_server)) =
   sv_references example_server"
proof
  show op: "op_of (delete_call ''a'' (ovn_of ''a'' 1)) = DeleteOp ''a'' (ovn_of ''a'' 1)"
    by code_simp
  have "map_option rf_ovn (sv_references example_server ''a'') = Some (ovn_of ''a'' 2)"
    by code_simp
  then obtain r where "sv_references example_server ''a'' = Some r" "rf_ovn r = ovn_of ''a'' 2"
    by (cases "sv_references example_server ''a''") auto
  then show "sv_references (snd (serve quiet_env (delete_call ''a'' (ovn_of ''a'' 1)) example_server)) =
     sv_references example_server"
    using op by (intro stale_ovn_harmless) auto
qed

text \<open>
  C6: over a run in which a reference is never absent, its version never falls, and an
  unchanged OVN means an unchanged reference: the OVN identifies the content.
\<close>

theorem ovn_identifies_live_reference:
  assumes "length (pre @ xs) < 2 ^ 63 - 1"
    and "s = snd (run pre (new_server c))"
    and "\<forall>k \<le> length xs. sv_references (snd (run (take k xs) s)) iid \<noteq> None"
    and "sv_references s iid = Some r" and "sv_references (snd (run xs s)) iid = Some r'"
  shows "rf_version r \<le> rf_version r' \<and> (rf_ovn r' = rf_ovn r \<longrightarrow> r' = r)"
proof -
  have "refs_ok (snd (run (take k xs) s))" for k
  proof -
    have "snd (run (take k xs) s) = snd (run (pre @ take k xs) (new_server c))"
      by (simp add: assms(2) run_append)
    moreover have "length (pre @ take k xs) < 2 ^ 63 - 1" using assms(1) by simp
    ultimately show ?thesis using run_refs_ok by metis
  qed
  moreover from this [of 0] have "rf_ovn r = ovn_of iid (rf_version r)"
    using assms(4) by (simp add: refs_ok_def)
  ultimately show ?thesis using live_run [of xs s iid r] assms(3-5) by auto
qed

theorem ovn_identifies_live_reference_witness:
  "\<exists>r r'. sv_references (snd (run [(quiet_env, create_call ''a'' (state_body ''Accepted''))]
        (new_server example_config))) ''a'' = Some r \<and>
     sv_references (snd (run [(quiet_env, rotate_call ''a'')]
       (snd (run [(quiet_env, create_call ''a'' (state_body ''Accepted''))]
         (new_server example_config))))) ''a'' = Some r' \<and>
     rf_version r = 1 \<and> rf_version r' = 2 \<and>
     rf_version r \<le> rf_version r' \<and> (rf_ovn r' = rf_ovn r \<longrightarrow> r' = r)"
proof -
  let ?pre = "[(quiet_env, create_call ''a'' (state_body ''Accepted''))]"
  let ?xs = "[(quiet_env, rotate_call ''a'')]"
  let ?s = "snd (run ?pre (new_server example_config))"
  have v: "map_option rf_version (sv_references ?s ''a'') = Some 1"
    "map_option rf_version (sv_references (snd (run ?xs ?s)) ''a'') = Some 2"
    by code_simp+
  then obtain r r' where r: "sv_references ?s ''a'' = Some r" "rf_version r = 1"
    "sv_references (snd (run ?xs ?s)) ''a'' = Some r'" "rf_version r' = 2"
    by (auto simp: map_option_case split: option.splits)
  have "sv_references (snd (run (take k ?xs) ?s)) ''a'' \<noteq> None" if "k \<le> length ?xs" for k
    using that r by (cases k) auto
  then have "rf_version r \<le> rf_version r' \<and> (rf_ovn r' = rf_ovn r \<longrightarrow> r' = r)"
    using r by (intro ovn_identifies_live_reference [of ?pre ?xs ?s example_config]) auto
  with r show ?thesis by blast
qed

end
