(* ===== verification/Fixture_Faults.thy ===== *)
theory Fixture_Faults
  imports Fixture_Store
begin

section \<open>What armed faults do, and the fixture's corner cases\<close>

text \<open>
  The exact replies of the DSS half, and properties of the fixture on the branches a fault
  opens: the lost response after a commit, the injected status, the exact number of requests a
  bounded plan hits. Two properties record where the code falls short of what its
  documentation says.
\<close>

subsection \<open>Exact replies without a fault\<close>

lemma create_fresh:
  assumes "iid \<noteq> []" and "sv_faults s OperationCreateReference = None"
    and "sv_references s iid = None" and "decode_stream decode_put b = Inr body"
  shows "serve env (create_call iid b) s =
    (let r = put_reference env iid 1 body s in
     (Reply 201 (BJson (JObj [(''operational_intent_reference'', reference_json r),
        (''subscribers'', subscribers_json (sv_subscriber_url s))])),
      record_event env (create_call iid b) OperationCreateReference iid 201 None
        (s\<lparr>sv_references := (sv_references s)(iid \<mapsto> r)\<rparr>)))"
  using assms
  by (simp add: serve_create handle_put_reference_def take_fault_none commit_put_def Let_def
      respond_no_fault write_json_plain wrap64_id in_int64_def closes_after_commit_def frame)

lemma create_existing:
  assumes "iid \<noteq> []" and "sv_faults s OperationCreateReference = None"
    and "sv_references s iid = Some r" and "decode_stream decode_put b = Inr body"
  shows "serve env (create_call iid b) s =
    (Reply 409 (BJson (message_json ''reference exists'')),
     record_event env (create_call iid b) OperationCreateReference iid 409 None s)"
  using assms
  by (simp add: serve_create handle_put_reference_def take_fault_none commit_put_def Let_def
      respond_no_fault write_json_plain)

lemma get_present:
  assumes "iid \<noteq> []" and "sv_faults s OperationGetReference = None"
    and "sv_references s iid = Some r"
  shows "serve env (get_call iid) s =
    (Reply 200 (BJson (JObj [(''operational_intent_reference'', reference_json r)])),
     record_event env (get_call iid) OperationGetReference iid 200 None s)"
  using assms
  by (simp add: serve_get handle_get_reference_def take_fault_none respond_no_fault write_json_plain)

lemma delete_current:
  assumes "iid \<noteq> []" and "rf_ovn r \<noteq> []" and "sv_faults s OperationDeleteReference = None"
    and "sv_references s iid = Some r"
  shows "serve env (delete_call iid (rf_ovn r)) s =
    (Reply 200 (BJson (JObj [(''operational_intent_reference'', reference_json (bump iid r)),
       (''subscribers'', JArr [])])),
     record_event env (delete_call iid (rf_ovn r)) OperationDeleteReference iid 200 None
       (s\<lparr>sv_references := (sv_references s)(iid := None)\<rparr>))"
  using assms
  by (simp add: serve_delete handle_delete_reference_def take_fault_none commit_delete_def
      respond_no_fault write_json_plain closes_after_commit_def)

lemma stale_update_reply:
  assumes "iid \<noteq> []" and "ovn \<noteq> []" and "sv_faults s OperationUpdateReference = None"
    and "sv_references s iid = Some r" and "ovn \<noteq> rf_ovn r"
    and "decode_stream decode_put b = Inr body"
  shows "serve env (update_call iid ovn b) s =
    (Reply 409 (BJson (stale_json (rf_ovn r))),
     record_event env (update_call iid ovn b) OperationUpdateReference iid 409 None s)"
  using assms
  by (simp add: serve_update handle_put_reference_def take_fault_none commit_put_def Let_def
      respond_no_fault write_json_plain)

lemma stale_delete_reply:
  assumes "iid \<noteq> []" and "ovn \<noteq> []" and "sv_faults s OperationDeleteReference = None"
    and "sv_references s iid = Some r" and "ovn \<noteq> rf_ovn r"
  shows "serve env (delete_call iid ovn) s =
    (Reply 409 (BJson (stale_json (rf_ovn r))),
     record_event env (delete_call iid ovn) OperationDeleteReference iid 409 None s)"
  using assms
  by (simp add: serve_delete handle_delete_reference_def take_fault_none commit_delete_def
      respond_no_fault write_json_plain)

subsection \<open>Requests a fault stops\<close>

lemma handle_stopped:
  assumes "journal_key ep args = Some (operation, iid)"
    and "take_fault operation s = (fault, s1)"
    and "pre_commit_fault env rq operation iid fault s1 = (Some out, s2)"
  shows "handle env rq ep args s = (out, s2)"
  using assms
  by (cases ep) (auto simp: handle_query_references_def handle_subscriptions_def
      handle_get_reference_def handle_create_reference_def handle_update_reference_def
      handle_put_reference_def handle_delete_reference_def handle_peer_details_def
      handle_peer_notification_def Let_def)

lemma dispatch_stopped:
  assumes "request_key rq = Some (operation, iid)"
    and "take_fault operation s = (fault, s1)"
    and "pre_commit_fault env rq operation iid fault s1 = (Some out, s2)"
  shows "dispatch env rq s = (out, s2)"
  using assms handle_stopped
  by (fastforce simp: request_key_def dispatch_def split: option.splits)

lemma take_fault_armed:
  "sv_faults s operation = Some p \<Longrightarrow> 0 < fp_times p \<Longrightarrow>
   fst (take_fault operation s) = Some (snapshot_of p)"
  by (simp add: take_fault_def Let_def snapshot_of_def)

definition injected_outcome :: "int \<Rightarrow> bool \<Rightarrow> outcome" where
  "injected_outcome status malformed =
     (if malformed then write_header status (BRaw incomplete_json)
      else write_json status (Some injected_failure))"

lemma pre_commit_status:
  assumes "fs_status f \<noteq> 0" and "fs_delay_ms f \<le> 0 \<or> wait_millis env (fs_delay_ms f)"
  shows "pre_commit_fault env rq operation iid (Some f) s =
    (Some (injected_outcome (fs_status f) (fs_malformed_json f)),
     record_event env rq operation iid (fs_status f) (Some f) s)"
  using assms by (auto simp: pre_commit_fault_def respond_def injected_outcome_def Let_def)

subsection \<open>Properties\<close>

text \<open>
  C18: a pending status fault answers the next request to its operation with the injected
  status before anything is committed: the references stay as they were and the journal
  records that status with the fault.
\<close>

theorem status_fault_precedes_commit:
  assumes "request_key rq = Some (operation, iid)"
    and "sv_faults s operation = Some p" and "0 < fp_times p" and "fp_status p \<noteq> 0"
    and "fp_delay_ms p \<le> 0 \<or> wait_millis env (fp_delay_ms p)"
  shows "fst (dispatch env rq s) = injected_outcome (fp_status p) (fp_malformed_json p) \<and>
    sv_references (snd (dispatch env rq s)) = sv_references s \<and>
    ev_status (last (sv_events (snd (dispatch env rq s)))) = fp_status p \<and>
    ev_fault (last (sv_events (snd (dispatch env rq s)))) = Some (snapshot_of p)"
proof -
  obtain s1 where t: "take_fault operation s = (Some (snapshot_of p), s1)"
    using take_fault_armed [OF assms(2,3)] by (metis prod.collapse)
  have "dispatch env rq s = (injected_outcome (fp_status p) (fp_malformed_json p),
      record_event env rq operation iid (fp_status p) (Some (snapshot_of p)) s1)"
    using dispatch_stopped [OF assms(1) t pre_commit_status, of env] assms(4,5)
    by (simp add: snapshot_of_def)
  moreover have "sv_references s1 = sv_references s"
    using take_fault_frame(1) [of operation s] t by simp
  ultimately show ?thesis
    by (simp add: record_event_def Let_def)
qed

definition armed_server :: "string \<Rightarrow> fault_plan \<Rightarrow> server" where
  "armed_server operation p =
     (new_server example_config)\<lparr>sv_faults := [operation \<mapsto> p\<lparr>fp_operation := operation\<rparr>]\<rparr>"

definition status_plan :: "int \<Rightarrow> int \<Rightarrow> fault_plan" where
  "status_plan n status = plan_zero\<lparr>fp_times := n, fp_status := status\<rparr>"

theorem status_fault_precedes_commit_witness:
  "fst (dispatch quiet_env notify_call (armed_server OperationPeerNotify (status_plan 2 500))) =
     Reply 500 (BJson injected_failure)"
proof -
  let ?p = "(status_plan 2 500)\<lparr>fp_operation := OperationPeerNotify\<rparr>"
  have "request_key notify_call = Some (OperationPeerNotify, [])"
    by (simp add: request_key_def notify_call_def routes_def match_method_def)
  then have "fst (dispatch quiet_env notify_call (armed_server OperationPeerNotify (status_plan 2 500))) =
      injected_outcome (fp_status ?p) (fp_malformed_json ?p)"
    by (rule status_fault_precedes_commit [THEN conjunct1])
      (simp_all add: armed_server_def status_plan_def plan_zero_def)
  then show ?thesis
    by (simp add: injected_outcome_def status_plan_def plan_zero_def write_json_plain)
qed

text \<open>
  C17: a lost create response. The reference is committed and the connection is closed with
  status 0 in the journal; afterwards a GET returns exactly that reference, and a repeated
  create is refused without touching it.
\<close>

theorem lost_create_response_recoverable:
  fixes env iid b s
  defines "s1 \<equiv> snd (serve env (create_call iid b) s)"
  assumes "iid \<noteq> []" and "sv_references s iid = None" and "decode_stream decode_put b = Inr body"
    and "sv_faults s OperationCreateReference = Some p" and "fp_times p = 1"
    and "fp_close_after_commit p" and "fp_status p = 0" and "fp_delay_ms p = 0"
    and "sv_faults s OperationGetReference = None" and "en_connection env = Hijackable"
  shows "fst (serve env (create_call iid b) s) = Dropped \<and>
    sv_references s1 = (sv_references s)(iid \<mapsto> put_reference env iid 1 body s) \<and>
    ev_status (last (sv_events s1)) = 0 \<and>
    fst (serve env' (get_call iid) s1) = Reply 200 (BJson (JObj
      [(''operational_intent_reference'', reference_json (put_reference env iid 1 body s))])) \<and>
    fst (serve env' (create_call iid b) s1) = Reply 409 (BJson (message_json ''reference exists'')) \<and>
    sv_references (snd (serve env' (create_call iid b) s1)) = sv_references s1"
proof -
  let ?r = "put_reference env iid 1 body s"
  have same: "put_reference env iid 1 body (s\<lparr>sv_faults := m\<rparr>) = ?r" for m
    by (simp add: put_reference_def Let_def)
  have step: "serve env (create_call iid b) s = (Dropped,
      record_event env (create_call iid b) OperationCreateReference iid 0 (Some (snapshot_of p))
        (s\<lparr>sv_faults := (sv_faults s)(OperationCreateReference := None),
           sv_references := (sv_references s)(iid \<mapsto> ?r)\<rparr>))"
    using assms
    by (simp add: serve_create handle_put_reference_def take_fault_def Let_def
        pre_commit_fault_def snapshot_of_def commit_put_def closes_after_commit_def
        close_connection_def wrap64_id in_int64_def same)
  then have s1: "sv_references s1 iid = Some ?r" "sv_faults s1 OperationCreateReference = None"
      "sv_faults s1 OperationGetReference = None"
      "sv_references s1 = (sv_references s)(iid \<mapsto> ?r)"
      "ev_status (last (sv_events s1)) = 0"
    using assms(10) by (simp_all add: s1_def record_event_def Let_def operation_names)
  show ?thesis
    using step s1 get_present [OF assms(2) s1(3,1), of env']
      create_existing [OF assms(2) s1(2,1) assms(4), of env']
    by (simp add: record_event_frame)
qed

theorem lost_create_response_recoverable_witness:
  "fst (serve quiet_env (create_call ''a'' (state_body ''Accepted''))
     (armed_server OperationCreateReference
       (plan_zero\<lparr>fp_times := 1, fp_close_after_commit := True\<rparr>))) = Dropped"
  by (rule lost_create_response_recoverable [where p = "plan_zero\<lparr>fp_times := 1,
      fp_close_after_commit := True, fp_operation := OperationCreateReference\<rparr>", THEN conjunct1])
    (simp_all add: armed_server_def plan_zero_def quiet_env_def new_server_def state_body_def
      decode_stream_def decode_put_def put_field_def names_field_def operation_names)

text \<open>
  C20: deleting a reference and creating it again restarts its version, so the OVN of the first
  incarnation is the OVN of the second and still deletes it, although the contents differ.
\<close>

theorem recreated_reference_reuses_ovn:
  fixes iid s b1 b2 env1 env2 env3
  defines "s1 \<equiv> snd (serve env1 (create_call iid b1) s)"
  defines "s2 \<equiv> snd (serve env2 (delete_call iid (ovn_of iid 1)) s1)"
  defines "s3 \<equiv> snd (serve env3 (create_call iid b2) s2)"
  assumes "iid \<noteq> []" and "sv_references s iid = None" and "sv_faults s = Map.empty"
    and "decode_stream decode_put b1 = Inr body1" and "decode_stream decode_put b2 = Inr body2"
  shows "sv_references s1 iid = Some (put_reference env1 iid 1 body1 s) \<and>
    sv_references s3 iid = Some (put_reference env3 iid 1 body2 s) \<and>
    rf_ovn (put_reference env1 iid 1 body1 s) = rf_ovn (put_reference env3 iid 1 body2 s) \<and>
    sv_references (snd (serve env4 (delete_call iid (ovn_of iid 1)) s3)) iid = None"
proof -
  have same: "put_reference env iid 1 body t = put_reference env iid 1 body s"
    if "sv_manager t = sv_manager s" "sv_peer_base_url t = sv_peer_base_url s" for env body t
    using that by (simp add: put_reference_def Let_def)
  have s1: "sv_references s1 iid = Some (put_reference env1 iid 1 body1 s)"
    "sv_faults s1 = Map.empty" "sv_manager s1 = sv_manager s"
    "sv_peer_base_url s1 = sv_peer_base_url s"
    using create_fresh [of iid s b1 body1 env1] assms(4-8)
    by (simp_all add: s1_def Let_def record_event_frame)
  have s2: "sv_references s2 iid = None" "sv_faults s2 = Map.empty"
    "sv_manager s2 = sv_manager s" "sv_peer_base_url s2 = sv_peer_base_url s"
    using delete_current [of iid "put_reference env1 iid 1 body1 s" s1 env2] s1 assms(4)
    by (simp_all add: s2_def record_event_frame)
  have s3: "sv_references s3 iid = Some (put_reference env3 iid 1 body2 s)"
    "sv_faults s3 = Map.empty"
    using create_fresh [of iid s2 b2 body2 env3] s2 assms(4,8) same [OF s2(3,4)]
    by (simp_all add: s3_def Let_def record_event_frame)
  show ?thesis
    using delete_current [of iid "put_reference env3 iid 1 body2 s" s3 env4] s1 s3 assms(4)
    by (simp add: record_event_frame)
qed

theorem recreated_reference_reuses_ovn_witness:
  "let s0 = new_server example_config;
       s1 = snd (serve quiet_env (create_call ''a'' (state_body ''Accepted'')) s0);
       s2 = snd (serve quiet_env (delete_call ''a'' (ovn_of ''a'' 1)) s1);
       s3 = snd (serve quiet_env (create_call ''a'' (state_body ''Activated'')) s2)
   in sv_references (snd (serve quiet_env (delete_call ''a'' (ovn_of ''a'' 1)) s3)) ''a'' = None"
  unfolding Let_def
  by (rule recreated_reference_reuses_ovn [THEN conjunct2, THEN conjunct2, THEN conjunct2])
    (simp_all add: new_server_def state_body_def decode_stream_def decode_put_def put_field_def
      names_field_def)

text \<open>
  C21: the control plane accepts a fault status between 1 and 99, and the next request to that
  operation then panics in \<open>WriteHeader\<close> instead of answering, with the status already in the
  journal.
\<close>

theorem accepted_status_panics:
  assumes "1 \<le> status" and "status \<le> 99" and "iid \<noteq> []"
    and "arm = control_call ''faults'' (Inr (JObj [(''operation'', JStr OperationGetReference),
      (''times'', JInt 1), (''status'', JInt status)]))"
  shows "(\<exists>reply. fst (run [(env, arm), (env', get_call iid)] (new_server c)) =
      [Reply 201 reply, Panicked]) \<and>
    map ev_status (sv_events (snd (run [(env, arm), (env', get_call iid)] (new_server c)))) =
      [status]"
proof -
  let ?p = "\<lparr>fp_operation = OperationGetReference, fp_times = 1, fp_status = status,
    fp_delay_ms = 0, fp_close_after_commit = False, fp_malformed_json = False\<rparr>"
  have "decode_stream decode_plan (rq_body arm) = Inr ?p"
    using assms by (simp add: decode_stream_def decode_plan_def plan_field_def plan_zero_def
        names_field_def ascii_lower_def control_call_def call_def in_int64_def)
  moreover have "plan_valid ?p"
    using assms by (simp add: plan_valid_def operation_names)
  moreover have "mux_find routes (rq_method arm) (rq_path arm) = Some (ArmFault, [])"
    using assms(4) by (simp add: control_call_def call_def routes_def match_method_def)
  moreover have "rq_method arm \<noteq> ''HEAD''" using assms(4) by (simp add: control_call_def call_def)
  ultimately have armed: "serve env arm (new_server c) = (Reply 201 (BJson (plan_json ?p)),
      (new_server c)\<lparr>sv_faults := [OperationGetReference \<mapsto> ?p]\<rparr>)" (is "_ = (_, ?s)")
    by (simp add: serve_def dispatch_def handle_fault_def write_json_plain new_server_def)
  have t: "take_fault OperationGetReference ?s = (Some (snapshot_of ?p), new_server c)"
    by (simp add: take_fault_def Let_def snapshot_of_def new_server_def)
  have "serve env' (get_call iid) ?s = (Panicked,
      record_event env' (get_call iid) OperationGetReference iid status (Some (snapshot_of ?p))
        (new_server c))"
    using assms(1-3) t
    by (simp add: serve_get handle_get_reference_def pre_commit_status snapshot_of_def
        injected_outcome_def write_json_def write_header_def)
  with armed show ?thesis
    by (simp add: record_event_def Let_def new_server_def)
qed

theorem accepted_status_panics_witness:
  "map ev_status (sv_events (snd (run
     [(quiet_env, control_call ''faults'' (Inr (JObj [(''operation'', JStr OperationGetReference),
        (''times'', JInt 1), (''status'', JInt 42)]))), (quiet_env, get_call ''a'')]
     (new_server example_config)))) = [42]"
  by (rule accepted_status_panics [THEN conjunct2]) simp_all

text \<open>
  C10: a bounded plan hits exactly the next requests to its operation. Over any run that does
  not touch the control plane, the faults journaled for the operation are the plan's, as many
  times as it was armed for, and then none.
\<close>

theorem bounded_fault_hits_next_requests:
  assumes "sv_faults s operation = Some p"
    and "list_all (\<lambda>(env, rq). \<not> is_fault_control rq) xs"
    and "k = length (filter (\<lambda>(env, rq). requests_op operation rq) xs)"
  shows "hits operation (drop (length (sv_events s)) (sv_events (snd (run xs s)))) =
    take k (replicate (nat (fp_times p)) (Some (snapshot_of p)) @ replicate k None)"
  using run_hits [OF assms(2), of s operation] assms(1,3)
  by (auto simp: fault_queue_def pending_def)

theorem bounded_fault_hits_next_requests_witness:
  "hits OperationPeerNotify (sv_events (snd (run (replicate 3 (quiet_env, notify_call))
      (armed_server OperationPeerNotify (status_plan 2 500))))) =
    [Some (snapshot_of (status_plan 2 500)), Some (snapshot_of (status_plan 2 500)), None]"
proof -
  let ?s = "armed_server OperationPeerNotify (status_plan 2 500)"
  let ?p = "(status_plan 2 500)\<lparr>fp_operation := OperationPeerNotify\<rparr>"
  have key: "request_key notify_call = Some (OperationPeerNotify, [])" "\<not> is_fault_control notify_call"
    by (simp_all add: request_key_def is_fault_control_def notify_call_def routes_def match_method_def)
  have "hits OperationPeerNotify (drop (length (sv_events ?s))
      (sv_events (snd (run (replicate 3 (quiet_env, notify_call)) ?s)))) =
    take 3 (replicate (nat (fp_times ?p)) (Some (snapshot_of ?p)) @ replicate 3 None)"
    by (rule bounded_fault_hits_next_requests)
      (simp_all add: armed_server_def key requests_op_def numeral_3_eq_3)
  then show ?thesis
    by (simp add: armed_server_def new_server_def status_plan_def plan_zero_def snapshot_of_def
        numeral_2_eq_2 numeral_3_eq_3)
qed

interpretation config: atomic_steps_reset
  "\<lambda>s s'. sv_manager s' = sv_manager s \<and> sv_peer_base_url s' = sv_peer_base_url s \<and>
     sv_subscriber_url s' = sv_subscriber_url s"
  by unfold_locales
    (auto simp: frame handle_rotate_ovn_def handle_fault_def handle_clear_faults_def
      handle_reset_def Let_def split: option.splits sum.splits)

lemma serve_reset:
  assumes "rq_method rq = ''POST''" and "rq_path rq = [''control'', ''reset'']"
  shows "serve env rq (snd (run xs (new_server c))) = (Reply 204 BNone, new_server c)"
proof -
  have "mux_find routes ''POST'' [''control'', ''reset''] = Some (Reset, [])"
    by (simp add: routes_def match_method_def)
  then show ?thesis
    using config.R_run_any [of xs "new_server c"] assms
    by (simp add: serve_def dispatch_def handle_reset_def write_json_def
        write_header_def body_allowed_def new_server_def)
qed

text \<open>
  The reset brings back the fixture as it was started, after any history.
\<close>

theorem reset_restores_fresh:
  "serve env (control_call ''reset'' b) (snd (run xs (new_server c))) =
   (Reply 204 BNone, new_server c)"
  by (rule serve_reset) (simp_all add: control_call_def)

text \<open>
  C19: the journal of a run is numbered 1, 2, 3, \<dots> without gap or repetition, and holds no
  more entries than there were requests.
\<close>

theorem journal_numbered:
  assumes "length xs < 2 ^ 64"
  shows "map (\<lambda>e. unat (ev_sequence e)) (sv_events (snd (run xs (new_server c)))) =
      [1..<Suc (length (sv_events (snd (run xs (new_server c)))))] \<and>
    length (sv_events (snd (run xs (new_server c)))) \<le> length xs"
proof -
  let ?s = "snd (run xs (new_server c))"
  have "wf_journal ?s" using wf_run [OF wf_new_server] by (simp add: wf_server_def)
  moreover have len: "length (sv_events ?s) \<le> length xs"
    using events_length_run [of xs "new_server c"] by (simp add: new_server_def)
  ultimately have "unat (ev_sequence (sv_events ?s ! i)) = Suc i" if "i < length (sv_events ?s)" for i
    using wf_journal_unat that assms by simp
  with len show ?thesis by (auto intro!: nth_equalityI simp: nth_append simp del: upt_Suc)
qed

theorem journal_numbered_witness:
  "map (\<lambda>e. unat (ev_sequence e)) (sv_events (snd (run
     [(quiet_env, notify_call), (quiet_env, get_call ''a'')] (new_server example_config)))) =
   [1..<Suc (length (sv_events (snd (run
     [(quiet_env, notify_call), (quiet_env, get_call ''a'')] (new_server example_config)))))]"
  by (rule journal_numbered [THEN conjunct1]) simp

end
