(* ===== verification/Faults.thy ===== *)
theory Faults
  imports Prelude
begin

section \<open>Behavioural faults\<close>

text \<open>
  \<open>faults/fault.go\<close>: a fault names a behaviour, not a tool, and must be bounded. The
  interface \<open>Injector\<close> is the locale \<open>fault_injector\<close>; the two adapters interpret it.
\<close>

definition DropResponseAfterCommit :: string where "DropResponseAfterCommit = ''drop_response_after_commit''"
definition HTTPStatus :: string where "HTTPStatus = ''http_status''"
definition MalformedResponse :: string where "MalformedResponse = ''malformed_response''"
definition Latency :: string where "Latency = ''latency''"
definition Timeout :: string where "Timeout = ''timeout''"
definition ConnectionReset :: string where "ConnectionReset = ''connection_reset''"
definition ContainerKill :: string where "ContainerKill = ''container_kill''"

lemmas kind_names = DropResponseAfterCommit_def HTTPStatus_def MalformedResponse_def Latency_def
  Timeout_def ConnectionReset_def ContainerKill_def

text \<open>The dynamic types the adapters look for in an attribute; the rest they ignore.\<close>

datatype attribute = AInt int | AFloat rat | AOther

record fault =
  ft_name :: string
  ft_kind :: string
  ft_target :: string
  ft_operation :: string
  ft_count :: int
  ft_duration :: int
  ft_attributes :: "string \<rightharpoonup> attribute"

definition validate :: "fault \<Rightarrow> go_error option" where
  "validate f =
     (if ft_name f = [] \<or> ft_kind f = [] \<or> ft_target f = []
      then Some ''fault name, kind, and target are required''
      else if ft_count f < 0 \<or> ft_duration f < 0
      then Some ''fault count and duration cannot be negative''
      else if ft_count f = 0 \<and> ft_duration f = 0 \<and> ft_kind f \<noteq> ContainerKill
      then Some (''fault '' @ quoted (ft_name f) @ '' must be bounded by count or duration'')
      else None)"

record receipt =
  rc_fault :: fault
  rc_injector :: string
  rc_external_id :: string
  rc_enabled_at :: int

text \<open>
  A conversion of a float to \<open>int\<close> drops the fraction; outside the range of \<open>int\<close> amd64
  gives the least value.
\<close>

definition int_of_float :: "rat \<Rightarrow> int" where
  "int_of_float q = (let i = (if 0 \<le> q then floor q else ceiling q) in
     if in_int64 i then i else - (2 ^ 63))"

text \<open>\<open>Duration.Milliseconds\<close>; durations are nanoseconds.\<close>

definition milliseconds :: "int \<Rightarrow> int" where
  "milliseconds d = quot d 1000000"

lemma milliseconds_nonneg: "0 \<le> d \<Longrightarrow> milliseconds d = d div 1000000"
  by (simp add: milliseconds_def quot_nonneg)

definition bounded_fault :: "fault \<Rightarrow> bool" where
  "bounded_fault f \<longleftrightarrow> 0 \<le> ft_count f \<and> 0 \<le> ft_duration f \<and> (0 < ft_count f \<or> 0 < ft_duration f)"

lemma validate_ok:
  "validate f = None \<longleftrightarrow> ft_name f \<noteq> [] \<and> ft_kind f \<noteq> [] \<and> ft_target f \<noteq> [] \<and>
     0 \<le> ft_count f \<and> 0 \<le> ft_duration f \<and>
     (0 < ft_count f \<or> 0 < ft_duration f \<or> ft_kind f = ContainerKill)"
  by (auto simp: validate_def)

subsection \<open>The injector interface\<close>

text \<open>
  What a scenario relies on: an invalid or unsupported fault is refused before anything is
  touched, and a receipt names the fault it stands for and the mechanism that holds it.
\<close>

locale fault_injector =
  fixes enable :: "fault \<Rightarrow> 'w \<Rightarrow> (go_error + receipt) \<times> 'w"
    and disable :: "receipt \<Rightarrow> 'w \<Rightarrow> go_error option \<times> 'w"
    and kinds :: "string list"
    and mechanism :: string
  assumes refuses_invalid: "validate f = Some e \<Longrightarrow> enable f w = (Inl e, w)"
    and refuses_kind: "ft_kind f \<notin> set kinds \<Longrightarrow> \<exists>e. enable f w = (Inl e, w)"
    and receipt_names: "enable f w = (Inr r, w') \<Longrightarrow> rc_fault r = f \<and> rc_injector r = mechanism"
    and no_kill: "ContainerKill \<notin> set kinds"
begin

lemma enabled_valid: "enable f w = (Inr r, w') \<Longrightarrow> validate f = None"
  by (cases "validate f") (simp_all add: refuses_invalid)

lemma enabled_kind: "enable f w = (Inr r, w') \<Longrightarrow> ft_kind f \<in> set kinds"
proof (rule ccontr)
  assume e: "enable f w = (Inr r, w')" and "ft_kind f \<notin> set kinds"
  from refuses_kind [OF this(2), of w] e show False by auto
qed

text \<open>Every fault that is in force is bounded, and the receipt carries its bound.\<close>

lemma enabled_bounded: "enable f w = (Inr r, w') \<Longrightarrow> bounded_fault (rc_fault r)"
proof -
  assume e: "enable f w = (Inr r, w')"
  have "ft_kind f \<noteq> ContainerKill" using enabled_kind [OF e] no_kill by metis
  with enabled_valid [OF e] receipt_names [OF e] show ?thesis
    by (auto simp: validate_ok bounded_fault_def)
qed

end

end
