(* ===== verification/Fixture_Injector.thy ===== *)
theory Fixture_Injector
  imports Faults Fixture_Faults
begin

section \<open>The injector for the fixture\<close>

text \<open>
  \<open>faults/fixture/injector.go\<close>: protocol faults become fault plans posted to the fixture's
  control plane. The properties run it against the model of the fixture itself.
\<close>

record fixture_injector =
  fi_base_url :: string

definition new_injector :: "string \<Rightarrow> fixture_injector" where
  "new_injector base = \<lparr>fi_base_url = trim_right (CHR ''/'') base\<rparr>"

definition attribute_int :: "(string \<rightharpoonup> attribute) \<Rightarrow> string \<Rightarrow> int \<Rightarrow> int" where
  "attribute_int attrs key fallback = (case attrs key of
     Some (AInt i) \<Rightarrow> i | Some (AFloat q) \<Rightarrow> int_of_float q | _ \<Rightarrow> fallback)"

text \<open>The plan for a fault; \<open>Times\<close> is the count, or 1 for a fault bounded by duration only.\<close>

definition plan_for :: "fault \<Rightarrow> go_error + fault_plan" where
  "plan_for f =
     (let plan = plan_zero\<lparr>fp_operation := ft_operation f,
            fp_times := (if ft_count f = 0 then 1 else ft_count f)\<rparr> in
      if ft_kind f = DropResponseAfterCommit then Inr (plan\<lparr>fp_close_after_commit := True\<rparr>)
      else if ft_kind f = HTTPStatus then
        Inr (plan\<lparr>fp_status := attribute_int (ft_attributes f) ''status'' 500\<rparr>)
      else if ft_kind f = MalformedResponse then Inr (plan\<lparr>fp_malformed_json := True\<rparr>)
      else if ft_kind f = Latency then
        Inr (plan\<lparr>fp_delay_ms := milliseconds (ft_duration f)\<rparr>)
      else Inl (''fault kind '' @ quoted (ft_kind f) @ '' requires another injector''))"

definition enable ::
  "'w client \<Rightarrow> fixture_injector \<Rightarrow> int \<Rightarrow> fault \<Rightarrow> 'w \<Rightarrow> (go_error + receipt) \<times> 'w" where
  "enable cl fx now f w = (case validate f of
     Some e \<Rightarrow> (Inl e, w)
   | None \<Rightarrow>
       (if ft_operation f = []
        then (Inl (''fixture fault '' @ quoted (ft_name f) @ '' requires an operation''), w)
        else case plan_for f of
          Inl e \<Rightarrow> (Inl e, w)
        | Inr plan \<Rightarrow>
            (case new_request cl (fi_base_url fx) ''POST'' [''control'', ''faults'']
                    (Some (plan_json plan)) of
               Inl e \<Rightarrow> (Inl e, w)
             | Inr rq \<Rightarrow>
                 (case cl_do cl (fi_base_url fx) rq w of
                    (Inl e, w') \<Rightarrow> (Inl (''arm fixture fault: '' @ e), w')
                  | (Inr rs, w') \<Rightarrow>
                      (if rs_status rs \<noteq> 201
                       then (Inl (''arm fixture fault returned '' @ int_dec (rs_status rs)), w')
                       else (Inr \<lparr>rc_fault = f, rc_injector = ''fixture'',
                               rc_external_id = ft_operation f, rc_enabled_at = now\<rparr>, w'))))))"

text \<open>\<open>Disable\<close> ignores its receipt.\<close>

definition disable ::
  "'w client \<Rightarrow> fixture_injector \<Rightarrow> receipt \<Rightarrow> 'w \<Rightarrow> go_error option \<times> 'w" where
  "disable cl fx r w =
     (case new_request cl (fi_base_url fx) ''POST'' [''control'', ''faults'', ''clear''] None of
        Inl e \<Rightarrow> (Some e, w)
      | Inr rq \<Rightarrow>
          (case cl_do cl (fi_base_url fx) rq w of
             (Inl e, w') \<Rightarrow> (Some (''clear fixture faults: '' @ e), w')
           | (Inr rs, w') \<Rightarrow>
               (if rs_status rs \<noteq> 204
                then (Some (''clear fixture faults returned '' @ int_dec (rs_status rs)), w')
                else (None, w'))))"

interpretation fixture: fault_injector "enable cl fx now" "disable cl fx"
  "[DropResponseAfterCommit, HTTPStatus, MalformedResponse, Latency]" "''fixture''" for cl fx now
proof
  fix f :: fault and e w
  assume "validate f = Some e"
  then show "enable cl fx now f w = (Inl e, w)" by (simp add: enable_def)
next
  fix f :: fault and w
  assume "ft_kind f \<notin> set [DropResponseAfterCommit, HTTPStatus, MalformedResponse, Latency]"
  then show "\<exists>e. enable cl fx now f w = (Inl e, w)"
    by (auto simp: enable_def plan_for_def Let_def split: option.splits)
next
  fix f :: fault and w r w'
  assume "enable cl fx now f w = (Inr r, w')"
  then show "rc_fault r = f \<and> rc_injector r = ''fixture''"
    by (auto simp: enable_def split: option.splits sum.splits prod.splits if_splits)
qed (simp add: kind_names)

subsection \<open>Against the fixture\<close>

text \<open>The client whose network is the fixture's own handler.\<close>

definition fixture_client :: "env \<Rightarrow> server client" where
  "fixture_client env = \<lparr>cl_url_error = (\<lambda>_. None),
     cl_do = (\<lambda>base rq s. case serve env rq s of (out, s') \<Rightarrow> (client_view out, s'))\<rparr>"

definition plan_in_range :: "fault_plan \<Rightarrow> bool" where
  "plan_in_range p \<longleftrightarrow> in_int64 (fp_times p) \<and> in_int64 (fp_status p) \<and> in_int64 (fp_delay_ms p)"

lemma names_plan_fields [simp]:
  "names_field ''times'' ''operation'' = False" "names_field ''status'' ''operation'' = False"
  "names_field ''status'' ''times'' = False" "names_field ''delay_ms'' ''operation'' = False"
  "names_field ''delay_ms'' ''times'' = False" "names_field ''delay_ms'' ''status'' = False"
  "names_field ''close_after_commit'' ''operation'' = False"
  "names_field ''close_after_commit'' ''times'' = False"
  "names_field ''close_after_commit'' ''status'' = False"
  "names_field ''close_after_commit'' ''delay_ms'' = False"
  "names_field ''malformed_json'' ''operation'' = False"
  "names_field ''malformed_json'' ''times'' = False"
  "names_field ''malformed_json'' ''status'' = False"
  "names_field ''malformed_json'' ''delay_ms'' = False"
  "names_field ''malformed_json'' ''close_after_commit'' = False"
  by (simp_all add: names_field_def ascii_lower_def)

lemma decode_plan_json: "plan_in_range p \<Longrightarrow> decode_plan (plan_json p) = Inr p"
  by (cases p) (auto simp: decode_plan_def plan_json_def plan_in_range_def plan_zero_def
      plan_field_def omit_empty_def)

lemma route_control:
  "mux_find routes ''POST'' [''control'', ''faults''] = Some (ArmFault, [])"
  "mux_find routes ''POST'' [''control'', ''faults'', ''clear''] = Some (ClearFaults, [])"
  "mux_find routes ''GET'' [''control'', ''state''] = Some (State, [])"
  by (simp_all add: routes_def match_method_def)

lemma new_request_fixture:
  "new_request (fixture_client env) base meth segs body =
   Inr \<lparr>rq_method = meth, rq_path = segs, rq_uri = url_path segs,
     rq_body = (case body of None \<Rightarrow> Inl ''EOF'' | Some v \<Rightarrow> Inr v)\<rparr>"
  by (simp add: new_request_def fixture_client_def)

lemma arm_fixture:
  assumes "rq_method rq = ''POST''" and "rq_path rq = [''control'', ''faults'']"
    and "rq_body rq = Inr (plan_json p)" and "plan_in_range p"
  shows "serve env rq s =
    (if plan_valid p then (Reply 201 (BJson (plan_json p)), s\<lparr>sv_faults := (sv_faults s)(fp_operation p \<mapsto> p)\<rparr>)
     else (Reply 400 (BJson (error_json
       ''operation and positive times are required; delay/status must be valid'')), s))"
  using assms
  by (simp add: serve_def dispatch_def route_control handle_fault_def decode_stream_def
      decode_plan_json write_json_plain)

lemma enable_fixture:
  assumes "validate f = None" and "ft_operation f \<noteq> []" and "plan_for f = Inr p"
    and "plan_in_range p"
  shows "enable (fixture_client env) fx now f s =
    (if plan_valid p
     then (Inr \<lparr>rc_fault = f, rc_injector = ''fixture'', rc_external_id = ft_operation f,
             rc_enabled_at = now\<rparr>,
           s\<lparr>sv_faults := (sv_faults s)(ft_operation f \<mapsto> p)\<rparr>)
     else (Inl ''arm fixture fault returned 400'', s))"
proof -
  have "fp_operation p = ft_operation f"
    using assms(3) by (auto simp: plan_for_def Let_def split: if_splits)
  moreover have "int_dec 400 = ''400''" by code_simp
  moreover let ?rq = "\<lparr>rq_method = ''POST'', rq_path = [''control'', ''faults''],
    rq_uri = url_path [''control'', ''faults''], rq_body = Inr (plan_json p)\<rparr>"
  have "serve env ?rq s =
    (if plan_valid p then (Reply 201 (BJson (plan_json p)), s\<lparr>sv_faults := (sv_faults s)(fp_operation p \<mapsto> p)\<rparr>)
     else (Reply 400 (BJson (error_json
       ''operation and positive times are required; delay/status must be valid'')), s))"
    by (rule arm_fixture) (simp_all add: assms(4))
  ultimately show ?thesis
    using assms by (simp add: enable_def new_request_fixture) (simp add: fixture_client_def)
qed

text \<open>What Go's types give: every integer of the fault fits in 64 bits.\<close>

definition fault_in_range :: "fault \<Rightarrow> bool" where
  "fault_in_range f \<longleftrightarrow> in_int64 (ft_count f) \<and> in_int64 (ft_duration f) \<and>
     (\<forall>i. ft_attributes f ''status'' = Some (AInt i) \<longrightarrow> in_int64 i)"

lemma int_of_float_range: "in_int64 (int_of_float q)"
  by (simp add: int_of_float_def Let_def in_int64_def)

lemma milliseconds_range: "in_int64 d \<Longrightarrow> in_int64 (milliseconds d)"
proof -
  assume "in_int64 d"
  moreover have "0 \<le> \<bar>d\<bar> div 1000000" "\<bar>d\<bar> div 1000000 \<le> \<bar>d\<bar> div 2" by simp_all
  ultimately show ?thesis
    by (auto simp: milliseconds_def quot_def in_int64_def sgn_if)
qed

lemma plan_for_in_range: "fault_in_range f \<Longrightarrow> plan_for f = Inr p \<Longrightarrow> plan_in_range p"
  using milliseconds_range [of "ft_duration f"]
  by (auto simp: plan_for_def Let_def fault_in_range_def plan_in_range_def plan_zero_def
      attribute_int_def int_of_float_range in_int64_def [of 0] in_int64_def [of 1] in_int64_def [of 500]
      split: if_splits option.splits attribute.splits)

lemma plan_for_sane:
  "validate f = None \<Longrightarrow> plan_for f = Inr p \<Longrightarrow>
   fp_operation p = ft_operation f \<and> fp_times p = max 1 (ft_count f) \<and> 0 \<le> fp_delay_ms p"
  by (auto simp: plan_for_def Let_def validate_ok plan_zero_def milliseconds_nonneg split: if_splits)

definition example_fault :: fault where
  "example_fault = \<lparr>ft_name = ''notify-unavailable'', ft_kind = HTTPStatus, ft_target = ''peer'',
     ft_operation = OperationPeerNotify, ft_count = 2, ft_duration = 0,
     ft_attributes = [''status'' \<mapsto> AInt 503]\<rparr>"

definition example_plan :: fault_plan where
  "example_plan = plan_zero\<lparr>fp_operation := OperationPeerNotify, fp_times := 2, fp_status := 503\<rparr>"

subsection \<open>Properties\<close>

text \<open>
  What the control plane stores is what the injector encoded: decoding the JSON form of a
  plan gives the plan back.
\<close>

theorem plan_json_roundtrip:
  assumes "plan_in_range p"
  shows "decode_stream decode_plan (Inr (plan_json p)) = Inr p"
  using decode_plan_json [OF assms] by (simp add: decode_stream_def)

theorem plan_json_roundtrip_witness:
  "decode_stream decode_plan (Inr (plan_json (status_plan 3 503))) = Inr (status_plan 3 503)"
  by (rule plan_json_roundtrip) (simp add: plan_in_range_def status_plan_def plan_zero_def in_int64_def)

text \<open>
  A fault that is refused, by the validation, by the injector or by the fixture, leaves the
  fixture as it was; and it is refused exactly when it is unbounded or incomplete, names no
  operation, has a kind the fixture cannot produce, or gives a status outside 0..599.
\<close>

theorem enable_refuses_exactly:
  assumes "fault_in_range f"
  shows "(isl (fst (enable (fixture_client env) fx now f s)) \<longleftrightarrow>
      \<not> (validate f = None \<and> ft_operation f \<noteq> [] \<and>
         (case plan_for f of Inl e \<Rightarrow> False | Inr p \<Rightarrow> 0 \<le> fp_status p \<and> fp_status p \<le> 599))) \<and>
    (isl (fst (enable (fixture_client env) fx now f s)) \<longrightarrow>
       snd (enable (fixture_client env) fx now f s) = s)"
proof (cases "validate f = None \<and> ft_operation f \<noteq> []")
  case False
  then show ?thesis by (auto simp: enable_def split: option.split)
next
  case True
  show ?thesis
  proof (cases "plan_for f")
    case (Inl e)
    with True show ?thesis by (simp add: enable_def)
  next
    case (Inr p)
    with True have "plan_valid p \<longleftrightarrow> 0 \<le> fp_status p \<and> fp_status p \<le> 599"
      using plan_for_sane [of f p] by (auto simp: plan_valid_def)
    with True Inr enable_fixture [of f p env fx now s] plan_for_in_range [OF assms Inr]
    show ?thesis by simp
  qed
qed

theorem enable_refuses_exactly_witness:
  "isl (fst (enable (fixture_client quiet_env) (new_injector ''http://fixture'') 0
      (example_fault\<lparr>ft_attributes := [''status'' \<mapsto> AInt 600]\<rparr>) (new_server example_config)))"
  by (subst enable_refuses_exactly [THEN conjunct1])
    (auto simp: example_fault_def fault_in_range_def in_int64_def plan_for_def kind_names
      attribute_int_def plan_zero_def)

text \<open>
  C24: a fault the fixture accepted hits exactly the next requests to its operation: as many as
  its count says, one if it is bounded by duration only, and no later request.
\<close>

theorem injected_fault_hits_next_requests:
  assumes "fault_in_range f" and "plan_for f = Inr p"
    and "enable (fixture_client env) fx now f s = (Inr r, s1)"
    and "list_all (\<lambda>(env, rq). \<not> is_fault_control rq) xs"
    and "k = length (filter (\<lambda>(env, rq). requests_op (ft_operation f) rq) xs)"
  shows "hits (ft_operation f) (drop (length (sv_events s)) (sv_events (snd (run xs s1)))) =
    take k (replicate (nat (max 1 (ft_count f))) (Some (snapshot_of p)) @ replicate k None)"
proof -
  have v: "validate f = None" by (rule fixture.enabled_valid [OF assms(3)])
  have op: "ft_operation f \<noteq> []" using assms(3) v by (auto simp: enable_def)
  have s1: "s1 = s\<lparr>sv_faults := (sv_faults s)(ft_operation f \<mapsto> p)\<rparr>"
    using enable_fixture [OF v op assms(2) plan_for_in_range [OF assms(1,2)], of env fx now s] assms(3)
    by (auto split: if_splits)
  have n: "nat (fp_times p) = nat (max 1 (ft_count f))"
    using plan_for_sane [OF v assms(2)] by simp
  show ?thesis
    using run_hits [OF assms(4), of s1 "ft_operation f"] assms(5) plan_for_sane [OF v assms(2)] n
    by (auto simp: s1 fault_queue_def pending_def)
qed

theorem injected_fault_hits_next_requests_witness:
  "hits OperationPeerNotify (sv_events (snd (run (replicate 3 (quiet_env, notify_call))
      (snd (enable (fixture_client quiet_env) (new_injector ''http://fixture'') 0
         example_fault (new_server example_config)))))) =
    [Some (snapshot_of example_plan), Some (snapshot_of example_plan), None]"
proof -
  let ?s = "new_server example_config"
  have p: "plan_for example_fault = Inr example_plan"
    by (simp add: plan_for_def example_fault_def example_plan_def kind_names attribute_int_def)
  have range: "fault_in_range example_fault"
    by (simp add: fault_in_range_def example_fault_def in_int64_def)
  have valid: "validate example_fault = None" "ft_operation example_fault \<noteq> []" "plan_valid example_plan"
    by (simp_all add: validate_def example_fault_def kind_names example_plan_def plan_valid_def
        plan_zero_def operation_names)
  have ex: "ft_operation example_fault = OperationPeerNotify" "nat (max 1 (ft_count example_fault)) = 2"
    "sv_events ?s = []"
    by (simp_all add: example_fault_def new_server_def)
  obtain r s1 where e: "enable (fixture_client quiet_env) (new_injector ''http://fixture'') 0
      example_fault ?s = (Inr r, s1)"
    using enable_fixture [OF valid(1,2) p plan_for_in_range [OF range p], of quiet_env] valid(3) by simp
  have key: "request_key notify_call = Some (OperationPeerNotify, [])" "\<not> is_fault_control notify_call"
    by (simp_all add: request_key_def is_fault_control_def notify_call_def routes_def match_method_def)
  have "hits (ft_operation example_fault) (drop (length (sv_events ?s))
      (sv_events (snd (run (replicate 3 (quiet_env, notify_call)) s1)))) =
    take 3 (replicate (nat (max 1 (ft_count example_fault))) (Some (snapshot_of example_plan))
      @ replicate 3 None)"
    by (rule injected_fault_hits_next_requests [OF range p e])
      (simp_all add: key requests_op_def numeral_3_eq_3 ex(1))
  moreover have "replicate 3 None = [None, None, None]" "replicate 2 (Some (snapshot_of example_plan)) =
      [Some (snapshot_of example_plan), Some (snapshot_of example_plan)]"
    by (simp_all add: numeral_2_eq_2 numeral_3_eq_3)
  ultimately show ?thesis unfolding ex e by (simp del: run.simps)
qed

text \<open>
  Disabling one fault clears every pending fault of the fixture, those of other
  operations included, whatever the receipt says.
\<close>

theorem disable_clears_all:
  "disable (fixture_client env) fx r s = (None, s\<lparr>sv_faults := Map.empty\<rparr>)"
  by (simp add: disable_def new_request_fixture)
    (simp add: fixture_client_def serve_def dispatch_def route_control handle_clear_faults_def
      write_header_def body_allowed_def)

end
