(* ===== verification/Toxiproxy.thy ===== *)
theory Toxiproxy
  imports Faults Http
begin

section \<open>The Toxiproxy control client and its injector\<close>

text \<open>
  \<open>internal/toxiproxy/client.go\<close> and \<open>faults/toxiproxy/injector.go\<close>. The server is a
  third-party program: the client takes it through its \<open>client\<close> argument.
\<close>

record toxi_client =
  tc_base_url :: string

text \<open>
  \<open>NewClient\<close> parses its URL: the parser's answer is an argument, the scheme, the host and
  the normalised text, or an error.
\<close>

definition NewClient :: "(string \<Rightarrow> go_error + string \<times> string \<times> string) \<Rightarrow> string \<Rightarrow> go_error + toxi_client" where
  "NewClient parse base = (case parse (trim_right (CHR ''/'') base) of
     Inl e \<Rightarrow> Inl (''invalid Toxiproxy URL '' @ quoted base)
   | Inr (scheme, host, text) \<Rightarrow>
       (if scheme = [] \<or> host = [] then Inl (''invalid Toxiproxy URL '' @ quoted base)
        else Inr \<lparr>tc_base_url = text\<rparr>))"

record toxic =
  tx_name :: string
  tx_type :: string
  tx_stream :: string
  tx_toxicity :: rat
  tx_attributes :: "(string \<times> jval) list"

text \<open>The spelling of a toxicity other than 1 is left open; the harness only sends 1.\<close>

definition toxic_json :: "toxic \<Rightarrow> jval" where
  "toxic_json t = JObj [(''name'', JStr (tx_name t)), (''type'', JStr (tx_type t)),
     (''stream'', JStr (tx_stream t)),
     (''toxicity'', if tx_toxicity t = 1 then JInt 1 else JFrac [] (tx_toxicity t)),
     (''attributes'', JObj (tx_attributes t))]"

definition toxi_request ::
  "'w client \<Rightarrow> toxi_client \<Rightarrow> string \<Rightarrow> string list \<Rightarrow> jval option \<Rightarrow> int list \<Rightarrow> 'w \<Rightarrow> go_error option \<times> 'w" where
  "toxi_request cl tc meth segs body accepted w =
     (case new_request cl (tc_base_url tc) meth segs body of
        Inl e \<Rightarrow> (Some (''create Toxiproxy request: '' @ e), w)
      | Inr rq \<Rightarrow>
          (case cl_do cl (tc_base_url tc) rq w of
             (Inl e, w') \<Rightarrow>
               (Some (''Toxiproxy '' @ meth @ '' '' @ url_path segs @ '': '' @ e), w')
           | (Inr rs, w') \<Rightarrow>
               (if rs_status rs \<in> set accepted then (None, w')
                else (Some (''Toxiproxy '' @ meth @ '' '' @ url_path segs @ '' returned '' @
                        int_dec (rs_status rs) @ '': '' @ trim_space (take 4096 (rs_text rs))), w'))))"

definition DeleteProxy :: "'w client \<Rightarrow> toxi_client \<Rightarrow> string \<Rightarrow> 'w \<Rightarrow> go_error option \<times> 'w" where
  "DeleteProxy cl tc name w = toxi_request cl tc ''DELETE'' [''proxies'', name] None [204, 404] w"

definition CreateProxy :: "'w client \<Rightarrow> toxi_client \<Rightarrow> string \<Rightarrow> string \<Rightarrow> string \<Rightarrow> 'w \<Rightarrow> go_error option \<times> 'w" where
  "CreateProxy cl tc name listen upstream w =
     (if name = [] \<or> listen = [] \<or> upstream = []
      then (Some ''proxy name, listen, and upstream are required'', w)
      else case DeleteProxy cl tc name w of (ignored, w1) \<Rightarrow>
        toxi_request cl tc ''POST'' [''proxies'']
          (Some (JObj [(''enabled'', JBool True), (''listen'', JStr listen),
             (''name'', JStr name), (''upstream'', JStr upstream)])) [201, 200] w1)"

definition AddToxic :: "'w client \<Rightarrow> toxi_client \<Rightarrow> string \<Rightarrow> toxic \<Rightarrow> 'w \<Rightarrow> go_error option \<times> 'w" where
  "AddToxic cl tc proxy t w =
     (let t1 = (if tx_toxicity t = 0 then t\<lparr>tx_toxicity := 1\<rparr> else t);
          t2 = (if tx_stream t1 = [] then t1\<lparr>tx_stream := ''downstream''\<rparr> else t1)
      in toxi_request cl tc ''POST'' [''proxies'', proxy, ''toxics''] (Some (toxic_json t2)) [200, 201] w)"

definition RemoveToxic :: "'w client \<Rightarrow> toxi_client \<Rightarrow> string \<Rightarrow> string \<Rightarrow> 'w \<Rightarrow> go_error option \<times> 'w" where
  "RemoveToxic cl tc proxy name w =
     toxi_request cl tc ''DELETE'' [''proxies'', proxy, ''toxics'', name] None [204, 404] w"

subsection \<open>The injector\<close>

definition duration_millis :: "int \<Rightarrow> int" where
  "duration_millis d = (if d \<le> 0 then 1 else milliseconds d)"

definition int_attribute :: "(string \<rightharpoonup> attribute) \<Rightarrow> string \<Rightarrow> int" where
  "int_attribute attrs key = (case attrs key of
     None \<Rightarrow> 0 | Some (AInt i) \<Rightarrow> i | Some (AFloat q) \<Rightarrow> int_of_float q | Some AOther \<Rightarrow> 0)"

definition toxic_for :: "fault \<Rightarrow> go_error + toxic" where
  "toxic_for f =
     (let base = \<lparr>tx_name = ft_name f, tx_type = [], tx_stream = ''downstream'',
            tx_toxicity = 1, tx_attributes = []\<rparr> in
      if ft_kind f = Latency then
        Inr (base\<lparr>tx_type := ''latency'', tx_attributes :=
          [(''jitter'', JInt (int_attribute (ft_attributes f) ''jitter_ms'')),
           (''latency'', JInt (duration_millis (ft_duration f)))]\<rparr>)
      else if ft_kind f = Timeout then
        Inr (base\<lparr>tx_type := ''timeout'', tx_attributes :=
          [(''timeout'', JInt (duration_millis (ft_duration f)))]\<rparr>)
      else if ft_kind f = ConnectionReset then
        Inr (base\<lparr>tx_type := ''reset_peer'', tx_attributes :=
          [(''timeout'', JInt (duration_millis (ft_duration f)))]\<rparr>)
      else Inl (''fault kind '' @ quoted (ft_kind f) @ '' requires a non-Toxiproxy injector''))"

definition toxi_enable ::
  "'w client \<Rightarrow> toxi_client \<Rightarrow> string \<Rightarrow> int \<Rightarrow> fault \<Rightarrow> 'w \<Rightarrow> (go_error + receipt) \<times> 'w" where
  "toxi_enable cl tc proxy now f w = (case validate f of
     Some e \<Rightarrow> (Inl e, w)
   | None \<Rightarrow>
       (case toxic_for f of
          Inl e \<Rightarrow> (Inl e, w)
        | Inr t \<Rightarrow>
            (case AddToxic cl tc proxy t w of
               (Some e, w') \<Rightarrow> (Inl e, w')
             | (None, w') \<Rightarrow>
                 (Inr \<lparr>rc_fault = f, rc_injector = ''toxiproxy'', rc_external_id = tx_name t,
                       rc_enabled_at = now\<rparr>, w'))))"

definition toxi_disable :: "'w client \<Rightarrow> toxi_client \<Rightarrow> string \<Rightarrow> receipt \<Rightarrow> 'w \<Rightarrow> go_error option \<times> 'w" where
  "toxi_disable cl tc proxy r w = RemoveToxic cl tc proxy (rc_external_id r) w"

interpretation toxi: fault_injector "toxi_enable cl tc proxy now" "toxi_disable cl tc proxy"
  "[Latency, Timeout, ConnectionReset]" "''toxiproxy''" for cl tc proxy now
proof
  fix f :: fault and e w
  assume "validate f = Some e"
  then show "toxi_enable cl tc proxy now f w = (Inl e, w)" by (simp add: toxi_enable_def)
next
  fix f :: fault and w
  assume "ft_kind f \<notin> set [Latency, Timeout, ConnectionReset]"
  then show "\<exists>e. toxi_enable cl tc proxy now f w = (Inl e, w)"
    by (auto simp: toxi_enable_def toxic_for_def Let_def split: option.splits)
next
  fix f :: fault and w r w'
  assume "toxi_enable cl tc proxy now f w = (Inr r, w')"
  then show "rc_fault r = f \<and> rc_injector r = ''toxiproxy''"
    by (auto simp: toxi_enable_def split: option.splits sum.splits prod.splits)
qed (simp add: kind_names)

subsection \<open>Properties\<close>

text \<open>A client whose world is the list of requests it sent.\<close>

definition recorder :: "(request \<Rightarrow> response) \<Rightarrow> request list client" where
  "recorder answer = \<lparr>cl_url_error = (\<lambda>_. None), cl_do = (\<lambda>base rq w. (Inr (answer rq), w @ [rq]))\<rparr>"

definition toxi_call :: "string \<Rightarrow> string list \<Rightarrow> jval option \<Rightarrow> request" where
  "toxi_call meth segs body = \<lparr>rq_method = meth, rq_path = segs, rq_uri = url_path segs,
     rq_body = (case body of None \<Rightarrow> Inl ''EOF'' | Some v \<Rightarrow> Inr v)\<rparr>"

lemma toxi_request_recorder:
  "toxi_request (recorder answer) tc meth segs body accepted w =
     (let rs = answer (toxi_call meth segs body) in
      (if rs_status rs \<in> set accepted then None
       else Some (''Toxiproxy '' @ meth @ '' '' @ url_path segs @ '' returned '' @
              int_dec (rs_status rs) @ '': '' @ trim_space (take 4096 (rs_text rs))),
       w @ [toxi_call meth segs body]))"
  by (simp add: toxi_request_def new_request_def recorder_def toxi_call_def Let_def)

lemma toxic_for_fields:
  "toxic_for f = Inr t \<Longrightarrow> tx_name t = ft_name f \<and> tx_stream t = ''downstream'' \<and> tx_toxicity t = 1"
  by (auto simp: toxic_for_def Let_def split: if_splits)

text \<open>
  Enabling a network fault sends one POST with its toxic to the proxy's toxics, and
  disabling its receipt sends one DELETE for exactly that toxic: its URL is that of no other
  proxy or fault name, whatever bytes the names hold.
\<close>

theorem disable_addresses_enabled_toxic:
  assumes "toxi_enable (recorder answer) tc proxy now f w = (Inr r, w1)"
  shows "(case toxic_for f of Inl e \<Rightarrow> False
     | Inr t \<Rightarrow> tx_name t = ft_name f \<and>
         w1 = w @ [toxi_call ''POST'' [''proxies'', proxy, ''toxics''] (Some (toxic_json t))]) \<and>
    snd (toxi_disable (recorder answer) tc proxy r w1) =
      w1 @ [toxi_call ''DELETE'' [''proxies'', proxy, ''toxics'', ft_name f] None] \<and>
    (\<forall>proxy' name. url_path [''proxies'', proxy', ''toxics'', name] =
       rq_uri (last (snd (toxi_disable (recorder answer) tc proxy r w1))) \<longleftrightarrow>
       proxy' = proxy \<and> name = ft_name f)"
proof -
  obtain t where t: "toxic_for f = Inr t" and r: "rc_external_id r = tx_name t"
    and w1: "w1 = w @ [toxi_call ''POST'' [''proxies'', proxy, ''toxics''] (Some (toxic_json t))]"
    using assms
    by (auto simp: toxi_enable_def AddToxic_def toxi_request_recorder Let_def toxic_for_fields
        split: option.splits sum.splits prod.splits if_splits)
  have d: "snd (toxi_disable (recorder answer) tc proxy r w1) =
      w1 @ [toxi_call ''DELETE'' [''proxies'', proxy, ''toxics'', ft_name f] None]"
    using toxic_for_fields [OF t] r
    by (simp add: toxi_disable_def RemoveToxic_def toxi_request_recorder Let_def)
  show ?thesis
    unfolding d unfolding w1 using toxic_for_fields [OF t] t
    by (auto simp: toxi_call_def url_path_inject simp del: url_path_simps)
qed

definition slow_dss :: fault where
  "slow_dss = \<lparr>ft_name = ''slow dss'', ft_kind = Latency, ft_target = ''dss'', ft_operation = [],
     ft_count = 0, ft_duration = 2000000000, ft_attributes = Map.empty\<rparr>"

definition answers :: "int \<Rightarrow> request \<Rightarrow> response" where
  "answers status rq = \<lparr>rs_status = status, rs_body = Inl ''EOF'', rs_text = []\<rparr>"

theorem disable_addresses_enabled_toxic_witness:
  "\<exists>r w1. toxi_enable (recorder (answers 200)) \<lparr>tc_base_url = ''http://toxiproxy''\<rparr> ''dss'' 0 slow_dss [] =
      (Inr r, w1) \<and>
    snd (toxi_disable (recorder (answers 200)) \<lparr>tc_base_url = ''http://toxiproxy''\<rparr> ''dss'' r w1) =
      w1 @ [toxi_call ''DELETE'' [''proxies'', ''dss'', ''toxics'', ''slow dss''] None]"
proof -
  let ?tc = "\<lparr>tc_base_url = ''http://toxiproxy''\<rparr>"
  have "validate slow_dss = None" by (simp add: validate_def slow_dss_def kind_names)
  then obtain r w1 where e: "toxi_enable (recorder (answers 200)) ?tc ''dss'' 0 slow_dss [] = (Inr r, w1)"
    by (simp add: toxi_enable_def toxic_for_def slow_dss_def kind_names AddToxic_def
        toxi_request_recorder answers_def Let_def)
  show ?thesis
    using disable_addresses_enabled_toxic [OF e, THEN conjunct2, THEN conjunct1] e
    by (auto simp: slow_dss_def)
qed

text \<open>
  Creating a proxy replaces one of the same name: the client deletes first and then
  creates, and whatever the deletion answered only the creation decides about success.
\<close>

theorem create_proxy_replaces:
  assumes "name \<noteq> []" and "listen \<noteq> []" and "upstream \<noteq> []"
    and "create = toxi_call ''POST'' [''proxies''] (Some (JObj [(''enabled'', JBool True),
      (''listen'', JStr listen), (''name'', JStr name), (''upstream'', JStr upstream)]))"
  shows "snd (CreateProxy (recorder answer) tc name listen upstream w) =
      w @ [toxi_call ''DELETE'' [''proxies'', name] None, create] \<and>
    (fst (CreateProxy (recorder answer) tc name listen upstream w) = None \<longleftrightarrow>
      rs_status (answer create) \<in> {200, 201})"
  using assms by (auto simp: CreateProxy_def DeleteProxy_def toxi_request_recorder Let_def)

theorem create_proxy_replaces_witness:
  "fst (CreateProxy (recorder (answers 201)) \<lparr>tc_base_url = ''http://toxiproxy''\<rparr> ''dss''
     ''0.0.0.0:8000'' ''fixture:8090'' []) = None"
  by (rule create_proxy_replaces [THEN conjunct2, THEN iffD2]) (simp_all add: answers_def)

end
