(* ===== verification/Injectors.thy ===== *)
theory Injectors
  imports Fixture_Injector Toxiproxy
begin

section \<open>Both injectors\<close>

text \<open>
  What holds of every fault in force, whichever mechanism holds it, and what both mechanisms
  make of a delay below one millisecond.
\<close>

text \<open>
  C23: whatever fault an injector holds a receipt for is bounded by a count or a duration, and
  no injector accepts a container kill.
\<close>

theorem faults_in_force_are_bounded:
  assumes "enable cl fx now f w = (Inr r, w') \<or> toxi_enable cl tc proxy now f w = (Inr r, w')"
  shows "bounded_fault (rc_fault r) \<and> rc_fault r = f \<and> ft_kind f \<noteq> ContainerKill"
  using assms
proof
  assume e: "enable cl fx now f w = (Inr r, w')"
  show ?thesis
    using fixture.enabled_bounded [OF e] fixture.receipt_names [OF e] fixture.enabled_kind [OF e]
      fixture.no_kill by metis
next
  assume e: "toxi_enable cl tc proxy now f w = (Inr r, w')"
  show ?thesis
    using toxi.enabled_bounded [OF e] toxi.receipt_names [OF e] toxi.enabled_kind [OF e]
      toxi.no_kill by metis
qed

theorem faults_in_force_are_bounded_witness:
  "\<exists>r w'. toxi_enable (recorder (answers 200)) \<lparr>tc_base_url = ''http://toxiproxy''\<rparr> ''dss'' 0 slow_dss [] =
     (Inr r, w') \<and> bounded_fault (rc_fault r)"
proof -
  let ?tc = "\<lparr>tc_base_url = ''http://toxiproxy''\<rparr>"
  have "validate slow_dss = None" by (simp add: validate_def slow_dss_def kind_names)
  then obtain r w' where e: "toxi_enable (recorder (answers 200)) ?tc ''dss'' 0 slow_dss [] = (Inr r, w')"
    by (simp add: toxi_enable_def toxic_for_def slow_dss_def kind_names AddToxic_def
        toxi_request_recorder answers_def Let_def)
  show ?thesis
    using faults_in_force_are_bounded [OF disjI2 [OF e], THEN conjunct1] e by blast
qed

text \<open>
  A latency below one millisecond is accepted as a bounded fault and then lost: both
  mechanisms are told to delay by 0 milliseconds, while an unset duration gives the toxic
  1 millisecond.
\<close>

theorem submillisecond_latency_is_lost:
  assumes "validate f = None" and "ft_kind f = Latency" and "ft_duration f < 1000000"
  shows "(case plan_for f of Inl e \<Rightarrow> False | Inr p \<Rightarrow> fp_delay_ms p = 0 \<and> fp_status p = 0 \<and>
      \<not> fp_close_after_commit p \<and> \<not> fp_malformed_json p) \<and>
    (case toxic_for f of Inl e \<Rightarrow> False | Inr t \<Rightarrow>
      (''latency'', JInt (if ft_duration f = 0 then 1 else 0)) \<in> set (tx_attributes t))"
proof -
  have d: "0 \<le> ft_duration f" using assms(1) by (simp add: validate_ok)
  with assms(3) have "milliseconds (ft_duration f) = 0" by (simp add: milliseconds_nonneg)
  with assms(2) d show ?thesis
    by (simp add: plan_for_def toxic_for_def kind_names plan_zero_def duration_millis_def)
qed

theorem submillisecond_latency_is_lost_witness:
  "case toxic_for (slow_dss\<lparr>ft_duration := 500000\<rparr>) of Inl e \<Rightarrow> False
   | Inr t \<Rightarrow> (''latency'', JInt 0) \<in> set (tx_attributes t)"
  using submillisecond_latency_is_lost [of "slow_dss\<lparr>ft_duration := 500000\<rparr>", THEN conjunct2]
  by (simp add: slow_dss_def validate_def kind_names cong: sum.case_cong)

end
