(* ===== verification/Invariants.thy ===== *)
theory Invariants
  imports Fixture_Injector
begin

section \<open>Safety properties across authorities\<close>

text \<open>
  \<open>assertions/invariants.go\<close>: the two invariant checks over a snapshot, the probe that takes
  one, the observer of the fixture's references, and the loop that samples until all checks
  pass. PostgreSQL is outside the harness: the two queries are fields of the probe, with what
  \<open>Scan\<close> stored.
\<close>

subsection \<open>Snapshots and checks\<close>

record snapshot =
  sn_observed_at :: int
  sn_intent_id :: string
  sn_local_version :: int
  sn_local_status :: string
  sn_desired_version :: int
  sn_published_version :: int
  sn_desired_dss_state :: string
  sn_confirmed_dss_state :: string
  sn_publication_sync_status :: string
  sn_publication_ovn :: string
  sn_dss_reference_exists :: bool
  sn_dss_version :: int
  sn_dss_state :: string
  sn_dss_ovn :: string

text \<open>The observed values in key order; the empty list is Go's nil map.\<close>

record result =
  rt_name :: string
  rt_passed :: bool
  rt_message :: string
  rt_observed :: "(string \<times> jval) list"

definition ActiveRequiresDSSActivated :: "snapshot \<Rightarrow> result" where
  "ActiveRequiresDSSActivated s =
     (let result = \<lparr>rt_name = ''local_active_requires_same_version_dss_activated'',
            rt_passed = True, rt_message = ''local operation is not active'', rt_observed = []\<rparr> in
      if sn_local_status s \<noteq> ''active'' then result
      else
        (let result = result\<lparr>rt_observed := [
               (''confirmed_dss_state'', JStr (sn_confirmed_dss_state s)),
               (''dss_state'', JStr (sn_dss_state s)),
               (''local_version'', JInt (sn_local_version s)),
               (''published_version'', JInt (sn_published_version s))]\<rparr> in
         if sn_published_version s = sn_local_version s \<and>
            sn_confirmed_dss_state s = ''Activated'' \<and>
            sn_dss_reference_exists s \<and> sn_dss_state s = ''Activated''
         then result\<lparr>rt_message := ''local Active is backed by the same DSS-confirmed Activated version''\<rparr>
         else result\<lparr>rt_passed := False,
                rt_message := ''forbidden state: local intent v'' @ int_dec (sn_local_version s) @
                  '' is Active while publication v'' @ int_dec (sn_published_version s) @
                  '' is '' @ quoted (sn_confirmed_dss_state s) @ '' and DSS is '' @
                  quoted (sn_dss_state s)\<rparr>))"

definition BlockedVersionHasNoDSSReference :: "snapshot \<Rightarrow> result" where
  "BlockedVersionHasNoDSSReference s =
     (let result = \<lparr>rt_name = ''blocked_version_has_no_dss_reference'',
            rt_passed = True, rt_message = ''publication is not blocked'', rt_observed = []\<rparr> in
      if sn_publication_sync_status s \<noteq> ''blocked'' then result
      else
        (let result = result\<lparr>rt_observed := [
               (''desired_version'', JInt (sn_desired_version s)),
               (''dss_state'', JStr (sn_dss_state s)),
               (''dss_version'', JInt (sn_dss_version s))]\<rparr> in
         if \<not> sn_dss_reference_exists s \<or> sn_dss_version s < sn_desired_version s
         then result\<lparr>rt_message := ''blocked desired version is not published in the DSS''\<rparr>
         else result\<lparr>rt_passed := False,
                rt_message := ''blocked desired version '' @ int_dec (sn_desired_version s) @
                  '' is visible in DSS version '' @ int_dec (sn_dss_version s)\<rparr>))"

lemma active_passes:
  "rt_passed (ActiveRequiresDSSActivated s) \<longleftrightarrow> (sn_local_status s = ''active'' \<longrightarrow>
     sn_published_version s = sn_local_version s \<and> sn_confirmed_dss_state s = ''Activated'' \<and>
     sn_dss_reference_exists s \<and> sn_dss_state s = ''Activated'')"
  by (simp add: ActiveRequiresDSSActivated_def Let_def)

lemma blocked_passes:
  "rt_passed (BlockedVersionHasNoDSSReference s) \<longleftrightarrow> (sn_publication_sync_status s = ''blocked'' \<longrightarrow>
     sn_dss_reference_exists s \<longrightarrow> sn_dss_version s < sn_desired_version s)"
  by (auto simp: BlockedVersionHasNoDSSReference_def Let_def)

subsection \<open>The probe\<close>

record dss_reference =
  dr_exists :: bool
  dr_version :: int
  dr_state :: string
  dr_ovn :: string
  dr_manager :: string
  dr_uss_base_url :: string

definition dss_zero :: dss_reference where
  "dss_zero = \<lparr>dr_exists = False, dr_version = 0, dr_state = [], dr_ovn = [],
     dr_manager = [], dr_uss_base_url = []\<rparr>"

record publication =
  pu_desired_version :: int
  pu_published_version :: int
  pu_desired_state :: string
  pu_sync_status :: string
  pu_confirmed :: "string option"
  pu_ovn :: "string option"

text \<open>
  A scan that fails may have stored some columns already, so the second query gives its error
  and the columns as they are afterwards, zero where nothing was stored.
\<close>

record 'w probe =
  pb_local :: "string \<Rightarrow> 'w \<Rightarrow> (go_error + int \<times> string) \<times> 'w"
  pb_publication :: "string \<Rightarrow> 'w \<Rightarrow> (go_error option \<times> publication) \<times> 'w"
  pb_dss :: "string \<Rightarrow> 'w \<Rightarrow> (go_error + dss_reference) \<times> 'w"
  pb_now :: "'w \<Rightarrow> int"

text \<open>
  \<open>NewProbeWithObserver\<close>: the pool's constructor and its ping are arguments, as is the probe
  they lead to; closing the pool is an effect on the world.
\<close>

definition NewProbeWithObserver ::
  "('w \<Rightarrow> (go_error + 'pool) \<times> 'w) \<Rightarrow> ('pool \<Rightarrow> 'w \<Rightarrow> go_error option \<times> 'w) \<Rightarrow> ('pool \<Rightarrow> 'w \<Rightarrow> 'w) \<Rightarrow>
   'd option \<Rightarrow> 'w \<Rightarrow> (go_error + 'pool \<times> 'd) \<times> 'w" where
  "NewProbeWithObserver connect ping close dss w = (case dss of
     None \<Rightarrow> (Inl ''DSS reference observer is required'', w)
   | Some d \<Rightarrow>
       (case connect w of
          (Inl e, w1) \<Rightarrow> (Inl (''connect invariant probe database: '' @ e), w1)
        | (Inr pool, w1) \<Rightarrow>
            (case ping pool w1 of
               (Some e, w2) \<Rightarrow> (Inl (''ping invariant probe database: '' @ e), close pool w2)
             | (None, w2) \<Rightarrow> (Inr (pool, d), w2))))"

definition NewProbe ::
  "('w \<Rightarrow> (go_error + 'pool) \<times> 'w) \<Rightarrow> ('pool \<Rightarrow> 'w \<Rightarrow> go_error option \<times> 'w) \<Rightarrow> ('pool \<Rightarrow> 'w \<Rightarrow> 'w) \<Rightarrow>
   string \<Rightarrow> 'w \<Rightarrow> (go_error + 'pool \<times> string) \<times> 'w" where
  "NewProbe connect ping close dss_control_url w =
     NewProbeWithObserver connect ping close (Some (trim_right (CHR ''/'') dss_control_url)) w"

definition Snapshot :: "'w probe \<Rightarrow> string \<Rightarrow> 'w \<Rightarrow> (go_error + snapshot) \<times> 'w" where
  "Snapshot pb iid w =
     (case pb_local pb iid w of
        (Inl e, w1) \<Rightarrow> (Inl (''query local intent: '' @ e), w1)
      | (Inr (lversion, lstatus), w1) \<Rightarrow>
        (case pb_publication pb iid w1 of ((err, pub), w2) \<Rightarrow>
         (case pb_dss pb iid w2 of
            (Inl e, w3) \<Rightarrow> (Inl (''query DSS reference: '' @ e), w3)
          | (Inr r, w3) \<Rightarrow>
              (Inr \<lparr>sn_observed_at = pb_now pb w, sn_intent_id = iid,
                 sn_local_version = lversion, sn_local_status = lstatus,
                 sn_desired_version = pu_desired_version pub,
                 sn_published_version = pu_published_version pub,
                 sn_desired_dss_state = pu_desired_state pub,
                 sn_confirmed_dss_state =
                   (if err = None then case_option [] (\<lambda>x. x) (pu_confirmed pub) else []),
                 sn_publication_sync_status = pu_sync_status pub,
                 sn_publication_ovn =
                   (if err = None then case_option [] (\<lambda>x. x) (pu_ovn pub) else []),
                 sn_dss_reference_exists = dr_exists r, sn_dss_version = dr_version r,
                 sn_dss_state = dr_state r, sn_dss_ovn = dr_ovn r\<rparr>, w3))))"

text \<open>The world in which a snapshot asks the DSS.\<close>

definition dss_world :: "'w probe \<Rightarrow> string \<Rightarrow> 'w \<Rightarrow> 'w" where
  "dss_world pb iid w = snd (pb_publication pb iid (snd (pb_local pb iid w)))"

subsection \<open>The observer interface\<close>

text \<open>
  What the probe relies on: an observation agrees with the authority's store. \<open>ready\<close> says
  which states of the authority the law speaks about.
\<close>

locale dss_observer =
  fixes observe :: "string \<Rightarrow> 'w \<Rightarrow> (go_error + dss_reference) \<times> 'w"
    and truth :: "'w \<Rightarrow> string \<Rightarrow> dss_reference option"
    and ready :: "'w \<Rightarrow> bool"
  assumes observes_truth: "ready w \<Longrightarrow> observe iid w = (Inr r, w') \<Longrightarrow>
      r = (case truth w iid of None \<Rightarrow> dss_zero | Some d \<Rightarrow> d)"
    and truth_exists: "truth w iid = Some d \<Longrightarrow> dr_exists d"
begin

lemma observed_exists:
  "ready w \<Longrightarrow> observe iid w = (Inr r, w') \<Longrightarrow> dr_exists r \<longleftrightarrow> truth w iid = Some r"
  using observes_truth truth_exists by (fastforce simp: dss_zero_def split: option.splits)

text \<open>What a snapshot says of the DSS is what the authority held when it was asked.\<close>

lemma snapshot_dss:
  assumes "Snapshot pb iid w = (Inr s, w')" and "pb_dss pb = observe" and "ready (dss_world pb iid w)"
  shows "case truth (dss_world pb iid w) iid of None \<Rightarrow> \<not> sn_dss_reference_exists s
    | Some d \<Rightarrow> sn_dss_reference_exists s \<and> sn_dss_state s = dr_state d \<and>
        sn_dss_version s = dr_version d \<and> sn_dss_ovn s = dr_ovn d"
proof -
  obtain r where "observe iid (dss_world pb iid w) = (Inr r, w')"
    and r: "sn_dss_reference_exists s = dr_exists r" "sn_dss_state s = dr_state r"
      "sn_dss_version s = dr_version r" "sn_dss_ovn s = dr_ovn r"
    using assms(1,2) by (auto simp: Snapshot_def dss_world_def split: prod.splits sum.splits)
  from observes_truth [OF assms(3) this(1)] r truth_exists show ?thesis
    by (auto simp: dss_zero_def split: option.splits)
qed

end

subsection \<open>The fixture's observer\<close>

definition reference_field :: "string \<Rightarrow> jval \<Rightarrow> string \<times> dss_reference \<Rightarrow> decode_error + string \<times> dss_reference" where
  "reference_field k v p =
     (let path = ''.operational_intent_references.''; iid = fst p; r = snd p in
      if names_field k ''id'' then assign (dec_string (path @ ''id'') iid v) (\<lambda>x. (x, r))
      else if names_field k ''version'' then
        assign (dec_int (path @ ''version'') (dr_version r) v) (\<lambda>x. (iid, r\<lparr>dr_version := x\<rparr>))
      else if names_field k ''state'' then
        assign (dec_string (path @ ''state'') (dr_state r) v) (\<lambda>x. (iid, r\<lparr>dr_state := x\<rparr>))
      else if names_field k ''ovn'' then
        assign (dec_string (path @ ''ovn'') (dr_ovn r) v) (\<lambda>x. (iid, r\<lparr>dr_ovn := x\<rparr>))
      else if names_field k ''manager'' then
        assign (dec_string (path @ ''manager'') (dr_manager r) v) (\<lambda>x. (iid, r\<lparr>dr_manager := x\<rparr>))
      else if names_field k ''uss_base_url'' then
        assign (dec_string (path @ ''uss_base_url'') (dr_uss_base_url r) v)
          (\<lambda>x. (iid, r\<lparr>dr_uss_base_url := x\<rparr>))
      else Inr p)"

definition decode_reference :: "jval \<Rightarrow> decode_error + string \<times> dss_reference" where
  "decode_reference = dec_struct ''.operational_intent_references'' ''struct'' reference_field
     ([], dss_zero\<lparr>dr_exists := True\<rparr>)"

definition state_field ::
  "string \<Rightarrow> jval \<Rightarrow> (string \<times> dss_reference) list \<Rightarrow> decode_error + (string \<times> dss_reference) list" where
  "state_field k v refs =
     (if names_field k ''operational_intent_references'' then
        dec_slice ''.operational_intent_references'' ''[]struct'' decode_reference v
      else Inr refs)"

definition decode_state :: "jval \<Rightarrow> decode_error + (string \<times> dss_reference) list" where
  "decode_state = dec_struct [] ''struct'' state_field []"

definition ObserveDSSReference ::
  "'w client \<Rightarrow> string \<Rightarrow> string \<Rightarrow> 'w \<Rightarrow> (go_error + dss_reference) \<times> 'w" where
  "ObserveDSSReference cl base iid w =
     (case new_request cl base ''GET'' [''control'', ''state''] None of
        Inl e \<Rightarrow> (Inl e, w)
      | Inr rq \<Rightarrow>
          (case cl_do cl base rq w of
             (Inl e, w') \<Rightarrow> (Inl (''query fixture state: '' @ e), w')
           | (Inr rs, w') \<Rightarrow>
               (if rs_status rs \<noteq> 200
                then (Inl (''query fixture state returned '' @ int_dec (rs_status rs)), w')
                else case decode_stream decode_state (rs_body rs) of
                  Inl e \<Rightarrow> (Inl (''decode fixture state: '' @ decode_error_text e), w')
                | Inr refs \<Rightarrow>
                    (Inr (case find (\<lambda>p. fst p = iid) refs of
                       None \<Rightarrow> dss_zero | Some p \<Rightarrow> snd p), w'))))"

text \<open>What the fixture holds, as the probe shows it.\<close>

definition reference_view :: "reference \<Rightarrow> dss_reference" where
  "reference_view r = \<lparr>dr_exists = True, dr_version = rf_version r, dr_state = rf_state r,
     dr_ovn = rf_ovn r, dr_manager = rf_manager r, dr_uss_base_url = rf_uss_base_url r\<rparr>"

lemma decode_reference_json:
  "in_int64 (rf_version r) \<Longrightarrow> decode_reference (reference_json r) = Inr (rf_id r, reference_view r)"
  by (simp add: decode_reference_def reference_json_def reference_field_def dss_zero_def
      reference_view_def names_field_def ascii_lower_def Let_def)

lemma decode_references_json:
  assumes "\<And>r. r \<in> set rs \<Longrightarrow> in_int64 (rf_version r)"
  shows "decode_state (references_json rs) = Inr (map (\<lambda>r. (rf_id r, reference_view r)) rs)"
proof -
  have "dec_each decode_reference (map reference_json rs) =
      Inr (map (\<lambda>r. (rf_id r, reference_view r)) rs)"
    by (rule dec_each_map) (simp add: decode_reference_json assms)
  then show ?thesis by (simp add: decode_state_def references_json_def state_field_def)
qed

lemma find_reference:
  "(\<And>k r. m k = Some r \<Longrightarrow> rf_id r = k) \<Longrightarrow>
   find (\<lambda>p. fst p = iid) (map (\<lambda>r. (rf_id r, reference_view r)) (range_vals order m)) =
     (if iid \<in> set order then map_option (\<lambda>r. (iid, reference_view r)) (m iid) else None)"
  by (induction order) (auto split: option.splits)

definition fixture_ready :: "env \<Rightarrow> server \<Rightarrow> bool" where
  "fixture_ready env s \<longleftrightarrow> wf_server s \<and> enumerates (en_order env) (sv_references s)"

lemma state_reply:
  "serve env \<lparr>rq_method = ''GET'', rq_path = [''control'', ''state''],
     rq_uri = url_path [''control'', ''state''], rq_body = b\<rparr> s =
   (Reply 200 (BJson (references_json (range_vals (en_order env) (sv_references s)))), s)"
  by (simp add: serve_def dispatch_def route_control handle_state_def write_json_plain)

lemma observe_fixture:
  assumes "fixture_ready env s"
  shows "ObserveDSSReference (fixture_client env) base iid s =
    (Inr (case sv_references s iid of None \<Rightarrow> dss_zero | Some r \<Rightarrow> reference_view r), s)"
proof -
  have refs: "wf_reference s k r" if "sv_references s k = Some r" for k r
    using assms that by (simp add: fixture_ready_def wf_server_def)
  let ?rs = "range_vals (en_order env) (sv_references s)"
  have "decode_state (references_json ?rs) = Inr (map (\<lambda>r. (rf_id r, reference_view r)) ?rs)"
    by (rule decode_references_json) (use refs in \<open>auto simp: set_range_vals wf_reference_def\<close>)
  moreover have "find (\<lambda>p. fst p = iid) (map (\<lambda>r. (rf_id r, reference_view r)) ?rs) =
      map_option (\<lambda>r. (iid, reference_view r)) (sv_references s iid)"
    using find_reference [of "sv_references s" iid "en_order env"] refs assms
    by (auto simp: wf_reference_def fixture_ready_def enumerates_def)
  moreover have "cl_do (fixture_client env) base \<lparr>rq_method = ''GET'', rq_path = [''control'', ''state''],
      rq_uri = url_path [''control'', ''state''], rq_body = Inl ''EOF''\<rparr> s =
    (client_view (Reply 200 (BJson (references_json ?rs))), s)"
    by (simp add: fixture_client_def state_reply del: url_path_simps)
  ultimately show ?thesis
    by (simp add: ObserveDSSReference_def new_request_fixture decode_stream_def option.case_eq_if
        option.map_sel del: url_path_simps)
qed

interpretation fixture_dss: dss_observer "ObserveDSSReference (fixture_client env) base"
  "\<lambda>s iid. map_option reference_view (sv_references s iid)" "fixture_ready env" for env base
  by unfold_locales
    (auto simp: observe_fixture reference_view_def split: option.splits)

subsection \<open>Sampling until the checks pass\<close>

text \<open>
  \<open>Eventually\<close>: the pause between samples is the world's, \<open>None\<close> when the timer fired and the
  context's error when it was done first. Fuel bounds the number of samples; running out of it
  is \<open>None\<close>.
\<close>

type_synonym 'w pause = "int \<Rightarrow> 'w \<Rightarrow> go_error option \<times> 'w"

definition next_delay :: "int \<Rightarrow> int" where
  "next_delay d = (if d < 1000000000 then (if 1000000000 < d * 2 then 1000000000 else d * 2) else d)"

fun eventually_loop ::
  "nat \<Rightarrow> 'w probe \<Rightarrow> 'w pause \<Rightarrow> string \<Rightarrow> (snapshot \<Rightarrow> result) list \<Rightarrow> int \<Rightarrow>
   snapshot list \<Rightarrow> result list \<Rightarrow> 'w \<Rightarrow> ((snapshot list \<times> result list \<times> go_error option) \<times> 'w) option" where
  "eventually_loop 0 pb pause iid checks delay samples results w = None"
| "eventually_loop (Suc n) pb pause iid checks delay samples results w =
     (case Snapshot pb iid w of (r, w1) \<Rightarrow>
      let samples' = (case r of Inl e \<Rightarrow> samples | Inr s \<Rightarrow> samples @ [s]);
          results' = (case r of Inl e \<Rightarrow> results | Inr s \<Rightarrow> map (\<lambda>check. check s) checks);
          passed = (case r of Inl e \<Rightarrow> False | Inr s \<Rightarrow> list_all (\<lambda>check. rt_passed (check s)) checks) in
      if passed then Some ((samples', results', None), w1)
      else (case pause delay w1 of
          (Some e, w2) \<Rightarrow> Some ((samples', results', Some (''invariants did not converge: '' @ e)), w2)
        | (None, w2) \<Rightarrow>
            eventually_loop n pb pause iid checks (next_delay delay) samples' results' w2))"

definition Eventually ::
  "nat \<Rightarrow> 'w probe \<Rightarrow> 'w pause \<Rightarrow> string \<Rightarrow> int \<Rightarrow> (snapshot \<Rightarrow> result) list \<Rightarrow> 'w \<Rightarrow>
   ((snapshot list \<times> result list \<times> go_error option) \<times> 'w) option" where
  "Eventually n pb pause iid interval checks w =
     eventually_loop n pb pause iid checks (if interval \<le> 0 then 100000000 else interval) [] [] w"





text \<open>
  A context with a deadline: no observation turns the clock back, and a timer that fires
  before the context is done was started before the deadline and has run its time.
\<close>

definition deadline_kept :: "('w \<Rightarrow> int) \<Rightarrow> int \<Rightarrow> 'w probe \<Rightarrow> 'w pause \<Rightarrow> bool" where
  "deadline_kept clock deadline pb pause \<longleftrightarrow>
     (\<forall>iid w. clock w \<le> clock (snd (Snapshot pb iid w))) \<and>
     (\<forall>d w w'. pause d w = (None, w') \<longrightarrow> clock w < deadline \<and> clock w + d \<le> clock w')"

lemma next_delay_grows: "0 < d \<Longrightarrow> d \<le> next_delay d"
  by (auto simp: next_delay_def)

lemma eventually_loop_returns:
  assumes "deadline_kept clock deadline pb pause"
  shows "0 < n \<Longrightarrow> 0 < delay \<Longrightarrow> deadline - clock w \<le> (int n - 1) * delay \<Longrightarrow>
    eventually_loop n pb pause iid checks delay samples results w \<noteq> None"
proof (induction n arbitrary: delay samples results w)
  case (Suc n)
  obtain r w1 where snap: "Snapshot pb iid w = (r, w1)" by fastforce
  with assms have c1: "clock w \<le> clock w1" by (metis deadline_kept_def snd_conv)
  have "eventually_loop n pb pause iid checks (next_delay delay) samples' results' w2 \<noteq> None"
    if "pause delay w1 = (None, w2)" for w2 samples' results'
  proof (rule Suc.IH)
    have c2: "clock w1 < deadline" "clock w1 + delay \<le> clock w2"
      using assms that by (auto simp: deadline_kept_def)
    with c1 Suc.prems show n: "0 < n" by (cases n) auto
    show "0 < next_delay delay" using next_delay_grows Suc.prems by force
    have "deadline - clock w2 \<le> (int n - 1) * delay"
      using c1 c2 Suc.prems by (simp add: algebra_simps)
    also have "\<dots> \<le> (int n - 1) * next_delay delay"
      using n next_delay_grows Suc.prems by (intro mult_left_mono) auto
    finally show "deadline - clock w2 \<le> (int n - 1) * next_delay delay" .
  qed
  then show ?case
    by (auto simp: snap Let_def split: prod.splits option.splits)
qed simp

subsection \<open>Properties\<close>

text \<open>A probe whose world is the fixture's state: the database answers are constants.\<close>

definition fixture_probe :: "env \<Rightarrow> int \<times> string \<Rightarrow> go_error option \<times> publication \<Rightarrow> server probe" where
  "fixture_probe env local pub = \<lparr>pb_local = (\<lambda>iid s. (Inr local, s)),
     pb_publication = (\<lambda>iid s. (pub, s)),
     pb_dss = ObserveDSSReference (fixture_client env) ''http://fixture'', pb_now = (\<lambda>s. 0)\<rparr>"

definition publication_zero :: publication where
  "publication_zero = \<lparr>pu_desired_version = 0, pu_published_version = 0, pu_desired_state = [],
     pu_sync_status = [], pu_confirmed = None, pu_ovn = None\<rparr>"

lemma new_server_sel:
  "sv_references (new_server c) = Map.empty" "sv_faults (new_server c) = Map.empty"
  "sv_events (new_server c) = []"
  by (simp_all add: new_server_def)

lemma new_server_ready: "fixture_ready quiet_env (new_server c)"
  by (simp add: fixture_ready_def wf_new_server quiet_env_def enumerates_def new_server_sel)

text \<open>
  Observing the fixture through its control plane gives exactly the reference it holds, or
  says that there is none, and changes nothing.
\<close>

theorem fixture_observation_exact:
  assumes "wf_server s" and "enumerates (en_order env) (sv_references s)"
  shows "ObserveDSSReference (fixture_client env) base iid s =
    (Inr (case sv_references s iid of None \<Rightarrow> dss_zero | Some r \<Rightarrow> reference_view r), s)"
  by (rule observe_fixture) (simp add: fixture_ready_def assms)

theorem fixture_observation_exact_witness:
  "ObserveDSSReference (fixture_client quiet_env) ''http://fixture'' ''a'' (new_server example_config) =
   (Inr dss_zero, new_server example_config)"
  by (subst fixture_observation_exact)
    (simp_all add: wf_new_server quiet_env_def new_server_sel enumerates_def)

text \<open>
  C4: the takeoff-authority boundary, against the fixture as the DSS. A snapshot with an
  active local operation passes the check only if at the moment the DSS was asked it held the
  intent's reference in state Activated, and the publication confirmed that state for the
  local version; a reference that is missing or in another state always fails it.
\<close>

theorem active_is_backed_by_dss:
  assumes "Snapshot pb iid w = (Inr s, w')" and "pb_dss pb = ObserveDSSReference (fixture_client env) base"
    and "fixture_ready env (dss_world pb iid w)" and "sn_local_status s = ''active''"
  shows "rt_passed (ActiveRequiresDSSActivated s) \<longleftrightarrow>
    (\<exists>r. sv_references (dss_world pb iid w) iid = Some r \<and> rf_state r = ''Activated'') \<and>
    sn_published_version s = sn_local_version s \<and> sn_confirmed_dss_state s = ''Activated''"
  using fixture_dss.snapshot_dss [OF assms(1-3)] assms(4)
  by (auto simp: active_passes reference_view_def split: option.splits)

theorem active_is_backed_by_dss_witness:
  "\<exists>s. fst (Snapshot (fixture_probe quiet_env (1, ''active'')
        (None, publication_zero\<lparr>pu_published_version := 1, pu_confirmed := Some ''Activated''\<rparr>))
      ''a'' (new_server example_config)) = Inr s \<and> \<not> rt_passed (ActiveRequiresDSSActivated s)"
proof -
  let ?pb = "fixture_probe quiet_env (1, ''active'')
    (None, publication_zero\<lparr>pu_published_version := 1, pu_confirmed := Some ''Activated''\<rparr>)"
  let ?w = "new_server example_config"
  have ready: "fixture_ready quiet_env ?w" by (rule new_server_ready)
  obtain s where s: "Snapshot ?pb ''a'' ?w = (Inr s, ?w)" "sn_local_status s = ''active''"
    by (simp add: Snapshot_def fixture_probe_def observe_fixture [OF ready])
  have "dss_world ?pb ''a'' ?w = ?w" by (simp add: dss_world_def fixture_probe_def)
  then have "\<not> rt_passed (ActiveRequiresDSSActivated s)"
    using active_is_backed_by_dss [OF s(1) _ _ s(2), of quiet_env "''http://fixture''"] ready
    by (simp add: fixture_probe_def new_server_sel)
  with s(1) show ?thesis by force
qed



text \<open>
  C31: a failed publication query is not reported. The snapshot is returned without an error,
  the blocked check passes whatever the database holds, and only the active check can notice.
\<close>

theorem failed_publication_query_is_silent:
  assumes "pb_local pb iid w = (Inr local, w1)"
    and "pb_publication pb iid w1 = ((Some e, publication_zero), w2)"
    and "pb_dss pb iid w2 = (Inr r, w3)"
  shows "\<exists>s. Snapshot pb iid w = (Inr s, w3) \<and> rt_passed (BlockedVersionHasNoDSSReference s) \<and>
    (rt_passed (ActiveRequiresDSSActivated s) \<longleftrightarrow> snd local \<noteq> ''active'')"
  using assms
  by (cases "local") (simp add: Snapshot_def publication_zero_def active_passes blocked_passes)

theorem failed_publication_query_is_silent_witness:
  "\<exists>s. Snapshot (fixture_probe quiet_env (2, ''pending'') (Some ''connection reset'', publication_zero))
      ''a'' (new_server example_config) = (Inr s, new_server example_config) \<and>
    rt_passed (BlockedVersionHasNoDSSReference s) \<and> rt_passed (ActiveRequiresDSSActivated s)"
proof -
  have ready: "fixture_ready quiet_env (new_server example_config)" by (rule new_server_ready)
  show ?thesis
    using failed_publication_query_is_silent [of
        "fixture_probe quiet_env (2, ''pending'') (Some ''connection reset'', publication_zero)"
        "''a''" "new_server example_config" "(2, ''pending'')" "new_server example_config"
        "''connection reset''" "new_server example_config"]
    by (auto simp: fixture_probe_def observe_fixture [OF ready])
qed



text \<open>
  C26: under a context with a deadline the loop returns, after at most one sample more than
  whole intervals fit before the deadline.
\<close>

theorem eventually_returns_by_deadline:
  assumes "deadline_kept clock deadline pb pause" and "0 < interval" and "clock w \<le> deadline"
  shows "\<exists>out w'. Eventually (nat ((deadline - clock w + interval - 1) div interval) + 1)
    pb pause iid interval checks w = Some (out, w')"
proof -
  let ?k = "(deadline - clock w + interval - 1) div interval"
  have k: "0 \<le> ?k" using assms(2,3) by (simp add: pos_imp_zdiv_nonneg_iff)
  have "deadline - clock w + interval - 1 = interval * ?k + (deadline - clock w + interval - 1) mod interval"
    by simp
  moreover have "(deadline - clock w + interval - 1) mod interval \<le> interval - 1"
    using pos_mod_bound [OF assms(2)] by (simp add: zle_diff1_eq)
  ultimately have "deadline - clock w \<le> ?k * interval" by (simp only: mult.commute)
  with k have "eventually_loop (nat ?k + 1) pb pause iid checks interval [] [] w \<noteq> None"
    by (intro eventually_loop_returns [OF assms(1)]) (use assms(2) in auto)
  then show ?thesis using assms(2) by (auto simp: Eventually_def)
qed

text \<open>A world that is only a clock, and a DSS that never answers.\<close>

definition clock_probe :: "int probe" where
  "clock_probe = \<lparr>pb_local = (\<lambda>iid w. (Inr (1, ''active''), w)),
     pb_publication = (\<lambda>iid w. ((None, publication_zero), w)),
     pb_dss = (\<lambda>iid w. (Inl ''unreachable'', w)), pb_now = (\<lambda>w. w)\<rparr>"

definition clock_pause :: "int \<Rightarrow> int pause" where
  "clock_pause deadline d w =
     (if w < deadline then (None, w + d) else (Some ''context deadline exceeded'', w))"

theorem eventually_returns_by_deadline_witness:
  "\<exists>out w'. Eventually (nat ((1000 - 0 + 10 - 1) div 10) + 1) clock_probe (clock_pause 1000) ''a'' 10
     [ActiveRequiresDSSActivated] 0 = Some (out, w')"
  using eventually_returns_by_deadline [of "\<lambda>w. w" 1000 clock_probe "clock_pause 1000" 10 0]
  by (simp add: deadline_kept_def clock_probe_def clock_pause_def Snapshot_def)

end
