(* ===== verification/Timeline.thy ===== *)
theory Timeline
  imports Json
begin

section \<open>The evidence timeline\<close>

text \<open>
  \<open>reports/timeline.go\<close>: checkpoints appended as one JSON line each. The file is behind the
  fields of \<open>timeline\<close>: the clock, one write of a line, the flush and the close. The mutex
  makes one \<open>Record\<close> one step.
\<close>

text \<open>The zero \<open>time.Time\<close>, the first instant of year 1.\<close>

definition zero_time :: int where
  "zero_time = - 62135596800 * nanos_per_second"

text \<open>The details in key order, as the encoder writes a map.\<close>

record timeline_event =
  te_at :: int
  te_scenario :: string
  te_phase :: string
  te_name :: string
  te_status :: string
  te_details :: "(string \<times> jval) list"

definition timeline_event_json :: "timeline_event \<Rightarrow> jval" where
  "timeline_event_json e = JObj ([(''at'', JStr (rfc3339_nano (te_at e))),
     (''scenario'', JStr (te_scenario e)), (''phase'', JStr (te_phase e)),
     (''name'', JStr (te_name e)), (''status'', JStr (te_status e))] @
     omit_empty (te_details e = []) ''details'' (JObj (te_details e)))"

record 'w timeline =
  tl_now :: "'w \<Rightarrow> int"
  tl_write :: "jval \<Rightarrow> 'w \<Rightarrow> go_error option \<times> 'w"
  tl_sync :: "'w \<Rightarrow> go_error option \<times> 'w"
  tl_close :: "'w \<Rightarrow> go_error option \<times> 'w"

definition OpenTimeline :: "(string \<Rightarrow> 'w \<Rightarrow> (go_error + 'f) \<times> 'w) \<Rightarrow> ('f \<Rightarrow> 'w timeline) \<Rightarrow>
    string \<Rightarrow> 'w \<Rightarrow> (go_error + 'w timeline) \<times> 'w" where
  "OpenTimeline open_append encoder path w = (case open_append path w of
     (Inl e, w') \<Rightarrow> (Inl (''open timeline: '' @ e), w')
   | (Inr f, w') \<Rightarrow> (Inr (encoder f), w'))"

definition Record :: "'w timeline \<Rightarrow> timeline_event \<Rightarrow> 'w \<Rightarrow> go_error option \<times> 'w" where
  "Record tline e w =
     (let e' = (if te_at e = zero_time then e\<lparr>te_at := tl_now tline w\<rparr> else e) in
      case tl_write tline (timeline_event_json e') w of
        (Some err, w') \<Rightarrow> (Some (''write timeline event: '' @ err), w')
      | (None, w') \<Rightarrow> tl_sync tline w')"

definition Close :: "'w timeline \<Rightarrow> 'w \<Rightarrow> go_error option \<times> 'w" where
  "Close tline w = tl_close tline w"

end
