(* ===== verification/Runner.thy ===== *)
theory Runner
  imports Timeline Invariants
begin

section \<open>The scenario runner\<close>

text \<open>
  \<open>scenarios/runner.go\<close>. An action takes its context and the world and returns its cleanup,
  if any, and its error. Contexts come from the package \<open>context\<close>: a background context, a
  derived one with a timeout, and its cancel function, which changes only the world's
  timers.
\<close>

type_synonym ('c, 'w) cleanup = "'c \<Rightarrow> 'w \<Rightarrow> go_error option \<times> 'w"
type_synonym ('c, 'w) action = "'c \<Rightarrow> 'w \<Rightarrow> (('c, 'w) cleanup option \<times> go_error option) \<times> 'w"
type_synonym ('c, 'w) check = "'c \<Rightarrow> 'w \<Rightarrow> (result \<times> go_error option) \<times> 'w"

record ('c, 'w) contexts =
  cx_background :: 'c
  cx_with_timeout :: "'c \<Rightarrow> int \<Rightarrow> 'w \<Rightarrow> 'c \<times> 'w"
  cx_cancel :: "'c \<Rightarrow> 'w \<Rightarrow> 'w"

record ('c, 'w) step =
  sp_name :: string
  sp_action :: "('c, 'w) action"

record ('c, 'w) assertion =
  as_name :: string
  as_check :: "('c, 'w) check"

record ('c, 'w) scenario =
  sc_name :: string
  sc_timeout :: int
  sc_given :: "('c, 'w) step list"
  sc_when :: "('c, 'w) step list"
  sc_then :: "('c, 'w) assertion list"

definition error_string :: "go_error option \<Rightarrow> string" where
  "error_string e = (case e of None \<Rightarrow> [] | Some t \<Rightarrow> t)"

definition result_json :: "result \<Rightarrow> jval" where
  "result_json r = JObj ([(''name'', JStr (rt_name r)), (''passed'', JBool (rt_passed r)),
     (''message'', JStr (rt_message r))] @
     omit_empty (rt_observed r = []) ''observed'' (JObj (rt_observed r)))"

definition step_event :: "string \<Rightarrow> string \<Rightarrow> string \<Rightarrow> go_error option \<Rightarrow> timeline_event" where
  "step_event scenario phase name err = \<lparr>te_at = zero_time, te_scenario = scenario,
     te_phase = phase, te_name = name, te_status = (if err \<noteq> None then ''fail'' else ''pass''),
     te_details = [(''error'', JStr (error_string err))]\<rparr>"

definition check_event :: "string \<Rightarrow> string \<Rightarrow> result \<Rightarrow> go_error option \<Rightarrow> timeline_event" where
  "check_event scenario name r err = \<lparr>te_at = zero_time, te_scenario = scenario,
     te_phase = ''then'', te_name = name,
     te_status = (if err \<noteq> None \<or> \<not> rt_passed r then ''fail'' else ''pass''),
     te_details = [(''error'', JStr (error_string err)), (''result'', result_json r)]\<rparr>"

text \<open>\<open>runSteps\<close>; the cleanups are returned as the slice it appends to.\<close>

fun run_steps ::
  "'w timeline \<Rightarrow> 'c \<Rightarrow> string \<Rightarrow> string \<Rightarrow> ('c, 'w) step list \<Rightarrow> ('c, 'w) cleanup list \<Rightarrow> 'w \<Rightarrow>
   (go_error option \<times> ('c, 'w) cleanup list) \<times> 'w" where
  "run_steps tline ctx scenario phase [] cleanups w = ((None, cleanups), w)"
| "run_steps tline ctx scenario phase (step # steps) cleanups w =
     (case sp_action step ctx w of ((cleanup, err), w1) \<Rightarrow>
      case Record tline (step_event scenario phase (sp_name step) err) w1 of (ignored, w2) \<Rightarrow>
      let cleanups' = (case cleanup of None \<Rightarrow> cleanups | Some c \<Rightarrow> cleanups @ [c]) in
      (case err of
         Some e \<Rightarrow> ((Some (phase @ '' '' @ sp_name step @ '': '' @ e), cleanups'), w2)
       | None \<Rightarrow> run_steps tline ctx scenario phase steps cleanups' w2))"

fun run_checks ::
  "'w timeline \<Rightarrow> 'c \<Rightarrow> string \<Rightarrow> ('c, 'w) assertion list \<Rightarrow> 'w \<Rightarrow> go_error option \<times> 'w" where
  "run_checks tline ctx scenario [] w = (None, w)"
| "run_checks tline ctx scenario (a # as) w =
     (case as_check a ctx w of ((r, err), w1) \<Rightarrow>
      case Record tline (check_event scenario (as_name a) r err) w1 of (ignored, w2) \<Rightarrow>
      (case err of
         Some e \<Rightarrow> (Some (''assert '' @ as_name a @ '': '' @ e), w2)
       | None \<Rightarrow>
           (if \<not> rt_passed r then (Some (''assert '' @ as_name a @ '': '' @ rt_message r), w2)
            else run_checks tline ctx scenario as w2)))"

text \<open>\<open>errors.Join\<close> of two errors: nil is dropped, the texts are lines.\<close>

definition join_errors :: "go_error option \<Rightarrow> go_error \<Rightarrow> go_error" where
  "join_errors err e = (case err of None \<Rightarrow> e | Some t \<Rightarrow> t @ [CHR 0x0A] @ e)"

text \<open>The deferred loop, over the cleanups from the last to the first.\<close>

fun run_cleanups :: "'c \<Rightarrow> ('c, 'w) cleanup list \<Rightarrow> go_error option \<Rightarrow> 'w \<Rightarrow> go_error option \<times> 'w" where
  "run_cleanups ctx [] err w = (err, w)"
| "run_cleanups ctx (c # cs) err w = (case c ctx w of
     (None, w') \<Rightarrow> run_cleanups ctx cs err w'
   | (Some e, w') \<Rightarrow> run_cleanups ctx cs (Some (join_errors err (''scenario cleanup: '' @ e))) w')"

definition run_body ::
  "'w timeline \<Rightarrow> 'c \<Rightarrow> ('c, 'w) scenario \<Rightarrow> 'w \<Rightarrow> (go_error option \<times> ('c, 'w) cleanup list) \<times> 'w" where
  "run_body tline ctx sc w =
     (case run_steps tline ctx (sc_name sc) ''given'' (sc_given sc) [] w of
        ((Some e, cs), w1) \<Rightarrow> ((Some e, cs), w1)
      | ((None, cs), w1) \<Rightarrow>
          (case run_steps tline ctx (sc_name sc) ''when'' (sc_when sc) cs w1 of
             ((Some e, cs'), w2) \<Rightarrow> ((Some e, cs'), w2)
           | ((None, cs'), w2) \<Rightarrow>
               (case run_checks tline ctx (sc_name sc) (sc_then sc) w2 of
                  (err, w3) \<Rightarrow> ((err, cs'), w3))))"

text \<open>\<open>Run\<close>: the body, then the deferred functions, the last registered first.\<close>

definition Run ::
  "('c, 'w) contexts \<Rightarrow> 'w timeline option \<Rightarrow> 'c \<Rightarrow> ('c, 'w) scenario \<Rightarrow> 'w \<Rightarrow> go_error option \<times> 'w" where
  "Run cx timeline parent sc w =
     (if sc_name sc = [] \<or> timeline = None
      then (Some ''scenario name and timeline are required'', w)
      else
        (let timeout = (if sc_timeout sc \<le> 0 then 45000000000 else sc_timeout sc) in
         case cx_with_timeout cx parent timeout w of (ctx, w1) \<Rightarrow>
         case run_body (the timeline) ctx sc w1 of ((err, cleanups), w2) \<Rightarrow>
         case cx_with_timeout cx (cx_background cx) 15000000000 w2 of (cleanup_ctx, w3) \<Rightarrow>
         case run_cleanups cleanup_ctx (rev cleanups) err w3 of (err', w4) \<Rightarrow>
         (err', cx_cancel cx ctx (cx_cancel cx cleanup_ctx w4))))"

subsection \<open>What was acquired is released\<close>

text \<open>
  \<open>held\<close> reads from the world the stack of what the actions hold. An action acts as the
  interface \<open>Action\<close> asks when it pushes one thing for the cleanup it returns, also when it
  fails, and nothing when it returns none; a cleanup pops its thing when it is on top.
\<close>

definition releases :: "('w \<Rightarrow> 'r list) \<Rightarrow> ('c, 'w) cleanup \<Rightarrow> 'r \<Rightarrow> bool" where
  "releases held c r \<longleftrightarrow> (\<forall>ctx v rest. held v = r # rest \<longrightarrow> held (snd (c ctx v)) = rest)"

definition acquires :: "('w \<Rightarrow> 'r list) \<Rightarrow> ('c, 'w) action \<Rightarrow> bool" where
  "acquires held act \<longleftrightarrow> (\<forall>ctx w. case act ctx w of
     ((None, err), w') \<Rightarrow> held w' = held w
   | ((Some c, err), w') \<Rightarrow> \<exists>r. held w' = r # held w \<and> releases held c r)"

definition apart_from :: "('w \<Rightarrow> 'r list) \<Rightarrow> ('c, 'w) contexts \<Rightarrow> 'w timeline \<Rightarrow> ('c, 'w) scenario \<Rightarrow> bool" where
  "apart_from held cx tline sc \<longleftrightarrow>
     (\<forall>e w. held (snd (Record tline e w)) = held w) \<and>
     (\<forall>c t w. held (snd (cx_with_timeout cx c t w)) = held w) \<and>
     (\<forall>c w. held (cx_cancel cx c w) = held w) \<and>
     (\<forall>a\<in>set (sc_then sc). \<forall>ctx w. held (snd (as_check a ctx w)) = held w)"

lemma run_steps_holds:
  assumes "\<And>e w. held (snd (Record tline e w)) = held w"
  shows "\<forall>step\<in>set steps. acquires held (sp_action step) \<Longrightarrow>
    list_all2 (releases held) (rev cs) rs \<Longrightarrow> held w = rs @ base \<Longrightarrow>
    run_steps tline ctx scenario phase steps cs w = ((err, cs'), w') \<Longrightarrow>
    \<exists>rs'. list_all2 (releases held) (rev cs') rs' \<and> held w' = rs' @ base"
proof (induction steps arbitrary: cs rs w)
  case (Cons step steps)
  obtain c e w1 where act: "sp_action step ctx w = ((c, e), w1)"
    by (metis prod.collapse)
  obtain ig w2 where rec: "Record tline (step_event scenario phase (sp_name step) e) w1 = (ig, w2)"
    by fastforce
  let ?cs = "case c of None \<Rightarrow> cs | Some k \<Rightarrow> cs @ [k]"
  from Cons.prems(1) have "acquires held (sp_action step)" by simp
  then have "case c of None \<Rightarrow> held w1 = held w | Some k \<Rightarrow> \<exists>r. held w1 = r # held w \<and> releases held k r"
    using act unfolding acquires_def by (metis (mono_tags, lifting) case_prod_conv)
  moreover have "held w2 = held w1" using assms rec by (metis snd_conv)
  ultimately obtain rs1 where rs1: "list_all2 (releases held) (rev ?cs) rs1" "held w2 = rs1 @ base"
    using Cons.prems(2,3) by (cases c) force+
  show ?case
  proof (cases e)
    case None
    with act rec Cons.prems(4) have "run_steps tline ctx scenario phase steps ?cs w2 = ((err, cs'), w')"
      by simp
    with Cons.IH [OF _ rs1] Cons.prems(1) show ?thesis by simp
  next
    case (Some t)
    with act rec Cons.prems(4) rs1 show ?thesis by auto
  qed
qed auto

lemma run_checks_holds:
  assumes "\<And>e w. held (snd (Record tline e w)) = held w"
  shows "\<forall>a\<in>set as. \<forall>ctx w. held (snd (as_check a ctx w)) = held w \<Longrightarrow>
    held (snd (run_checks tline ctx scenario as w)) = held w"
proof (induction "as" arbitrary: w)
  case (Cons a as)
  obtain r e w1 where c: "as_check a ctx w = ((r, e), w1)" by (metis prod.collapse)
  obtain ig w2 where rec: "Record tline (check_event scenario (as_name a) r e) w1 = (ig, w2)" by fastforce
  have "held w1 = held w" using Cons.prems c by (metis list.set_intros(1) snd_conv)
  moreover have "held w2 = held w1" using assms rec by (metis snd_conv)
  ultimately show ?case using Cons c rec by (simp split: option.splits)
qed simp

lemma run_cleanups_holds:
  "list_all2 (releases held) cs rs \<Longrightarrow> held w = rs @ base \<Longrightarrow>
   held (snd (run_cleanups ctx cs err w)) = base"
proof (induction cs arbitrary: rs err w)
  case (Cons c cs)
  then obtain r rest where rs: "rs = r # rest" "releases held c r" "list_all2 (releases held) cs rest"
    by (auto simp: list_all2_Cons1)
  obtain e w' where c: "c ctx w = (e, w')" by fastforce
  have "held w' = rest @ base"
    using rs Cons.prems(2) c unfolding releases_def by (metis append_Cons snd_conv)
  with Cons.IH rs(3) c show ?case by (simp split: option.splits)
qed auto

lemma run_body_holds:
  assumes "apart_from held cx tline sc" and "\<forall>step\<in>set (sc_given sc @ sc_when sc). acquires held (sp_action step)"
    and "run_body tline ctx sc w = ((err, cs), w')"
  shows "\<exists>rs. list_all2 (releases held) (rev cs) rs \<and> held w' = rs @ held w"
proof -
  have tline: "\<And>e w. held (snd (Record tline e w)) = held w"
    and checks: "\<forall>a\<in>set (sc_then sc). \<forall>ctx w. held (snd (as_check a ctx w)) = held w"
    using assms(1) by (auto simp: apart_from_def)
  have given: "\<forall>step\<in>set (sc_given sc). acquires held (sp_action step)"
    and "when": "\<forall>step\<in>set (sc_when sc). acquires held (sp_action step)"
    using assms(2) by auto
  obtain e1 cs1 w1 where s1: "run_steps tline ctx (sc_name sc) ''given'' (sc_given sc) [] w = ((e1, cs1), w1)"
    by (metis prod.collapse)
  from run_steps_holds [OF tline given _ _ s1, of "[]" "held w"] obtain rs1
    where rs1: "list_all2 (releases held) (rev cs1) rs1" "held w1 = rs1 @ held w" by auto
  show ?thesis
  proof (cases e1)
    case None
    obtain e2 cs2 w2 where s2: "run_steps tline ctx (sc_name sc) ''when'' (sc_when sc) cs1 w1 = ((e2, cs2), w2)"
      by (metis prod.collapse)
    from run_steps_holds [OF tline "when" rs1 s2] obtain rs2
      where rs2: "list_all2 (releases held) (rev cs2) rs2" "held w2 = rs2 @ held w" by auto
    with assms(3) s1 s2 None run_checks_holds [OF tline checks, of ctx "sc_name sc" w2] show ?thesis
      by (cases e2) (auto simp: run_body_def split: prod.splits)
  next
    case (Some t)
    with assms(3) s1 rs1 show ?thesis by (auto simp: run_body_def)
  qed
qed

text \<open>
  C8: whatever a scenario does, everything its actions acquired is released when \<open>Run\<close>
  returns, in reverse order of acquisition: on success, after a failing action (whose own
  cleanup runs too), a failing check, or a cleanup that reports an error.
\<close>

theorem run_releases_everything:
  assumes "apart_from held cx tline sc"
    and "\<forall>step\<in>set (sc_given sc @ sc_when sc). acquires held (sp_action step)"
  shows "held (snd (Run cx (Some tline) parent sc w)) = held w"
proof (cases "sc_name sc = []")
  case True
  then show ?thesis by (simp add: Run_def)
next
  case False
  have frame: "held (snd (cx_with_timeout cx c t v)) = held v" "held (cx_cancel cx c v) = held v" for c t v
    using assms(1) by (auto simp: apart_from_def)
  obtain ctx w1 where c1: "cx_with_timeout cx parent
      (if sc_timeout sc \<le> 0 then 45000000000 else sc_timeout sc) w = (ctx, w1)" by fastforce
  obtain err cs w2 where body: "run_body tline ctx sc w1 = ((err, cs), w2)" by (metis prod.collapse)
  obtain cctx w3 where c2: "cx_with_timeout cx (cx_background cx) 15000000000 w2 = (cctx, w3)" by fastforce
  have held: "held w1 = held w" "held w3 = held w2" using frame(1) c1 c2 by (metis snd_conv)+
  from run_body_holds [OF assms body] obtain rs
    where "list_all2 (releases held) (rev cs) rs" "held w2 = rs @ held w1" by auto
  with held have "held (snd (run_cleanups cctx (rev cs) err w3)) = held w"
    by (simp add: run_cleanups_holds)
  with False c1 body c2 show ?thesis
    by (simp add: Run_def frame split: prod.splits) (metis snd_conv)
qed

text \<open>A world that counts what is held, with one action that takes and gives back.\<close>

definition counting_contexts :: "(unit, nat) contexts" where
  "counting_contexts = \<lparr>cx_background = (), cx_with_timeout = (\<lambda>c t w. ((), w)), cx_cancel = (\<lambda>c w. w)\<rparr>"

definition idle_timeline :: "'w timeline" where
  "idle_timeline = \<lparr>tl_now = (\<lambda>w. 0), tl_write = (\<lambda>v w. (None, w)), tl_sync = (\<lambda>w. (None, w)),
     tl_close = (\<lambda>w. (None, w))\<rparr>"

definition take_one :: "(unit, nat) step" where
  "take_one = \<lparr>sp_name = ''take'', sp_action = (\<lambda>ctx w. ((Some (\<lambda>ctx w. (None, w - 1)), Some ''lost''), w + 1))\<rparr>"

definition counting_scenario :: "(unit, nat) scenario" where
  "counting_scenario = \<lparr>sc_name = ''count'', sc_timeout = 0, sc_given = [take_one], sc_when = [take_one],
     sc_then = []\<rparr>"

theorem run_releases_everything_witness:
  "snd (Run counting_contexts (Some idle_timeline) () counting_scenario 5) = 5"
proof -
  have "replicate (snd (Run counting_contexts (Some idle_timeline) () counting_scenario 5)) () =
      replicate 5 ()"
  proof (rule run_releases_everything [where held = "\<lambda>n. replicate n ()"])
    show "apart_from (\<lambda>n. replicate n ()) counting_contexts idle_timeline counting_scenario"
      by (simp add: apart_from_def counting_contexts_def idle_timeline_def Record_def counting_scenario_def)
    show "\<forall>step\<in>set (sc_given counting_scenario @ sc_when counting_scenario).
        acquires (\<lambda>n. replicate n ()) (sp_action step)"
      by (auto simp: counting_scenario_def take_one_def acquires_def releases_def)
        (metis Suc_pred' diff_Suc_1' length_replicate list.distinct(1) list.inject neq0_conv
          replicate_Suc replicate_empty)
  qed
  then show ?thesis by (metis length_replicate)
qed

end
