(* ===== verification/Scripted_Runs.thy ===== *)
theory Scripted_Runs
  imports Runner
begin

section \<open>The order of a run\<close>

text \<open>
  \<open>Run\<close> on scenarios whose actions, checks and cleanups do nothing but leave a mark with their
  name and context and return a scripted result. Control flow depends on those results only,
  so the marks show the order of every run.
\<close>

datatype script_ctx = Parent | Background | Limited script_ctx int

datatype mark = Acted string script_ctx | Checked string script_ctx | Wrote jval
  | Cleaned string script_ctx | Cancelled script_ctx

record script_step =
  ss_name :: string
  ss_err :: "go_error option"
  ss_undo :: "go_error option option"

record script_check =
  sk_name :: string
  sk_result :: result
  sk_err :: "go_error option"

definition scripted_cleanup :: "string \<Rightarrow> go_error option \<Rightarrow> (script_ctx, mark list) cleanup" where
  "scripted_cleanup name e = (\<lambda>ctx w. (e, w @ [Cleaned name ctx]))"

definition scripted_step :: "script_step \<Rightarrow> (script_ctx, mark list) step" where
  "scripted_step s = \<lparr>sp_name = ss_name s, sp_action = (\<lambda>ctx w.
     ((map_option (scripted_cleanup (ss_name s)) (ss_undo s), ss_err s), w @ [Acted (ss_name s) ctx]))\<rparr>"

definition scripted_check :: "script_check \<Rightarrow> (script_ctx, mark list) assertion" where
  "scripted_check c = \<lparr>as_name = sk_name c, as_check = (\<lambda>ctx w.
     ((sk_result c, sk_err c), w @ [Checked (sk_name c) ctx]))\<rparr>"

definition script_contexts :: "(script_ctx, mark list) contexts" where
  "script_contexts = \<lparr>cx_background = Background,
     cx_with_timeout = (\<lambda>c t w. (Limited c t, w)), cx_cancel = (\<lambda>c w. w @ [Cancelled c])\<rparr>"

lemma script_contexts_sel:
  "cx_background script_contexts = Background"
  "cx_with_timeout script_contexts c t w = (Limited c t, w)"
  "cx_cancel script_contexts c w = w @ [Cancelled c]"
  by (simp_all add: script_contexts_def)

text \<open>Every write and flush of this timeline answers the same, an error or none.\<close>

definition script_timeline :: "go_error option \<Rightarrow> mark list timeline" where
  "script_timeline answer = \<lparr>tl_now = (\<lambda>w. 0), tl_write = (\<lambda>v w. (answer, w @ [Wrote v])),
     tl_sync = (\<lambda>w. (answer, w)), tl_close = (\<lambda>w. (answer, w))\<rparr>"

definition wrote :: "timeline_event \<Rightarrow> mark" where
  "wrote e = Wrote (timeline_event_json (e\<lparr>te_at := 0\<rparr>))"

lemma record_script:
  "te_at e = zero_time \<Longrightarrow> snd (Record (script_timeline answer) e w) = w @ [wrote e]"
  by (cases answer) (simp_all add: Record_def script_timeline_def wrote_def Let_def)

fun upto_first :: "('a \<Rightarrow> bool) \<Rightarrow> 'a list \<Rightarrow> 'a list" where
  "upto_first P [] = []"
| "upto_first P (x # xs) = x # (if P x then [] else upto_first P xs)"

lemma upto_first_all: "list_all (\<lambda>x. \<not> P x) xs \<Longrightarrow> upto_first P xs = xs"
  by (induction xs) auto

lemma upto_first_clean: "list_all (\<lambda>x. \<not> P x) (upto_first P xs) \<longleftrightarrow> list_all (\<lambda>x. \<not> P x) xs"
  by (induction xs) auto

lemma upto_first_append:
  "upto_first P (xs @ ys) = upto_first P xs @ (if list_all (\<lambda>x. \<not> P x) xs then upto_first P ys else [])"
  by (induction xs) auto

definition step_marks :: "script_ctx \<Rightarrow> string \<Rightarrow> string \<times> script_step \<Rightarrow> mark list" where
  "step_marks ctx scenario = (\<lambda>(phase, s).
     [Acted (ss_name s) ctx, wrote (step_event scenario phase (ss_name s) (ss_err s))])"

definition check_marks :: "script_ctx \<Rightarrow> string \<Rightarrow> script_check \<Rightarrow> mark list" where
  "check_marks ctx scenario c =
     [Checked (sk_name c) ctx, wrote (check_event scenario (sk_name c) (sk_result c) (sk_err c))]"

definition step_fails :: "string \<times> script_step \<Rightarrow> bool" where
  "step_fails s \<longleftrightarrow> ss_err (snd s) \<noteq> None"

definition check_fails :: "script_check \<Rightarrow> bool" where
  "check_fails c \<longleftrightarrow> sk_err c \<noteq> None \<or> \<not> rt_passed (sk_result c)"

definition undos :: "(string \<times> script_step) list \<Rightarrow> (string \<times> go_error option) list" where
  "undos steps = List.map_filter (\<lambda>(phase, s). map_option (Pair (ss_name s)) (ss_undo s)) steps"

lemma undos_simps [simp]:
  "undos [] = []"
  "undos ((phase, s) # xs) = (case ss_undo s of None \<Rightarrow> undos xs | Some e \<Rightarrow> (ss_name s, e) # undos xs)"
  by (simp_all add: undos_def map_filter_simps split: option.splits)

lemma undos_append [simp]: "undos (xs @ ys) = undos xs @ undos ys"
  by (simp add: undos_def map_filter_def)

definition cleanup_of :: "string \<times> go_error option \<Rightarrow> (script_ctx, mark list) cleanup" where
  "cleanup_of = (\<lambda>(name, e). scripted_cleanup name e)"

lemma script_steps:
  defines "phased phase \<equiv> map (Pair phase)"
  shows "\<exists>err. run_steps (script_timeline answer) ctx scenario phase (map scripted_step steps) cs w =
    ((err, cs @ map cleanup_of (undos (upto_first step_fails (phased phase steps)))),
     w @ concat (map (step_marks ctx scenario) (upto_first step_fails (phased phase steps)))) \<and>
    (err = None \<longleftrightarrow> list_all (\<lambda>s. \<not> step_fails s) (phased phase steps))"
proof (induction steps arbitrary: cs w)
  case (Cons s steps)
  let ?cs = "case ss_undo s of None \<Rightarrow> cs | Some e \<Rightarrow> cs @ [scripted_cleanup (ss_name s) e]"
  let ?e = "step_event scenario phase (ss_name s) (ss_err s)"
  obtain ig where rec: "Record (script_timeline answer) ?e (w @ [Acted (ss_name s) ctx]) =
      (ig, w @ [Acted (ss_name s) ctx, wrote ?e])"
    using record_script [of ?e answer] by (metis (no_types, lifting) append.assoc append_Cons append_Nil
        prod.collapse step_event_def timeline_event.select_convs(1))
  show ?case
  proof (cases "ss_err s")
    case None
    with rec Cons.IH [of ?cs "w @ [Acted (ss_name s) ctx, wrote ?e]"] show ?thesis
      by (auto simp: scripted_step_def phased_def step_fails_def step_marks_def cleanup_of_def
          split: option.splits)
  next
    case (Some e)
    with rec show ?thesis
      by (auto simp: scripted_step_def phased_def step_fails_def step_marks_def cleanup_of_def
          split: option.splits)
  qed
qed (simp add: phased_def)

lemma script_checks:
  "\<exists>err. run_checks (script_timeline answer) ctx scenario (map scripted_check cks) w =
    (err, w @ concat (map (check_marks ctx scenario) (upto_first check_fails cks))) \<and>
    (err = None \<longleftrightarrow> list_all (\<lambda>c. \<not> check_fails c) cks)"
proof (induction cks arbitrary: w)
  case (Cons c cks)
  let ?e = "check_event scenario (sk_name c) (sk_result c) (sk_err c)"
  obtain ig where rec: "Record (script_timeline answer) ?e (w @ [Checked (sk_name c) ctx]) =
      (ig, w @ [Checked (sk_name c) ctx, wrote ?e])"
    using record_script [of ?e answer] by (metis (no_types, lifting) append.assoc append_Cons append_Nil
        prod.collapse check_event_def timeline_event.select_convs(1))
  with Cons.IH [of "w @ [Checked (sk_name c) ctx, wrote ?e]"] show ?case
    by (auto simp: scripted_check_def check_fails_def check_marks_def split: option.splits)
qed simp

lemma script_cleanups:
  "\<exists>err'. run_cleanups ctx (map cleanup_of us) err w =
    (err', w @ map (\<lambda>u. Cleaned (fst u) ctx) us) \<and>
    (err' = None \<longleftrightarrow> err = None \<and> list_all (\<lambda>u. snd u = None) us)"
proof (induction us arbitrary: err w)
  case (Cons u us)
  obtain name e where u: "u = (name, e)" by fastforce
  show ?case
    using Cons.IH [of "case e of None \<Rightarrow> err | Some t \<Rightarrow> Some (join_errors err (''scenario cleanup: '' @ t))"
        "w @ [Cleaned name ctx]"]
    by (cases e) (auto simp: u cleanup_of_def scripted_cleanup_def)
qed simp

text \<open>The steps and checks a scripted scenario gets to.\<close>

record script =
  st_name :: string
  st_timeout :: int
  st_given :: "script_step list"
  st_when :: "script_step list"
  st_then :: "script_check list"

definition script_scenario :: "script \<Rightarrow> (script_ctx, mark list) scenario" where
  "script_scenario s = \<lparr>sc_name = st_name s, sc_timeout = st_timeout s,
     sc_given = map scripted_step (st_given s), sc_when = map scripted_step (st_when s),
     sc_then = map scripted_check (st_then s)\<rparr>"

lemma script_scenario_sel:
  "sc_name (script_scenario s) = st_name s" "sc_timeout (script_scenario s) = st_timeout s"
  by (simp_all add: script_scenario_def)

definition all_steps :: "script \<Rightarrow> (string \<times> script_step) list" where
  "all_steps s = map (Pair ''given'') (st_given s) @ map (Pair ''when'') (st_when s)"

definition steps_reached :: "script \<Rightarrow> (string \<times> script_step) list" where
  "steps_reached s = upto_first step_fails (all_steps s)"

definition checks_reached :: "script \<Rightarrow> script_check list" where
  "checks_reached s = (if list_all (\<lambda>x. \<not> step_fails x) (all_steps s)
     then upto_first check_fails (st_then s) else [])"

lemma script_body:
  "\<exists>err. run_body (script_timeline answer) ctx (script_scenario s) w =
    ((err, map cleanup_of (undos (steps_reached s))),
     w @ concat (map (step_marks ctx (st_name s)) (steps_reached s)) @
       concat (map (check_marks ctx (st_name s)) (checks_reached s))) \<and>
    (err = None \<longleftrightarrow> list_all (\<lambda>x. \<not> step_fails x) (all_steps s) \<and>
       list_all (\<lambda>c. \<not> check_fails c) (st_then s))"
proof -
  let ?g = "upto_first step_fails (map (Pair ''given'') (st_given s))"
  let ?w = "upto_first step_fails (map (Pair ''when'') (st_when s))"
  obtain e1 where s1: "run_steps (script_timeline answer) ctx (st_name s) ''given''
      (map scripted_step (st_given s)) [] w =
      ((e1, map cleanup_of (undos ?g)), w @ concat (map (step_marks ctx (st_name s)) ?g))"
    "e1 = None \<longleftrightarrow> list_all (\<lambda>s. \<not> step_fails s) (map (Pair ''given'') (st_given s))"
    using script_steps [of answer ctx "st_name s" "''given''" "st_given s" "[]" w] by auto
  show ?thesis
  proof (cases e1)
    case None
    obtain e2 where s2: "run_steps (script_timeline answer) ctx (st_name s) ''when''
        (map scripted_step (st_when s)) (map cleanup_of (undos ?g))
        (w @ concat (map (step_marks ctx (st_name s)) ?g)) =
        ((e2, map cleanup_of (undos ?g) @ map cleanup_of (undos ?w)),
         (w @ concat (map (step_marks ctx (st_name s)) ?g)) @ concat (map (step_marks ctx (st_name s)) ?w))"
      "e2 = None \<longleftrightarrow> list_all (\<lambda>s. \<not> step_fails s) (map (Pair ''when'') (st_when s))"
      using script_steps by blast
    obtain e3 where s3: "run_checks (script_timeline answer) ctx (st_name s) (map scripted_check (st_then s))
        ((w @ concat (map (step_marks ctx (st_name s)) ?g)) @ concat (map (step_marks ctx (st_name s)) ?w)) =
        (e3, ((w @ concat (map (step_marks ctx (st_name s)) ?g)) @ concat (map (step_marks ctx (st_name s)) ?w)) @
           concat (map (check_marks ctx (st_name s)) (upto_first check_fails (st_then s))))"
      "e3 = None \<longleftrightarrow> list_all (\<lambda>c. \<not> check_fails c) (st_then s)"
      using script_checks by blast
    from None s1(2) have given: "list_all (\<lambda>s. \<not> step_fails s) (map (Pair ''given'') (st_given s))"
      by simp
    then have reached: "steps_reached s = ?g @ ?w"
      by (simp only: steps_reached_def all_steps_def upto_first_append if_True)
    have all: "list_all (\<lambda>s. \<not> step_fails s) (all_steps s) \<longleftrightarrow> e2 = None"
      unfolding all_steps_def list_all_append s2(2) using given by blast
    show ?thesis
    proof (cases e2)
      case None
      then have checks: "checks_reached s = upto_first check_fails (st_then s)"
        using all by (simp add: checks_reached_def)
      have "run_body (script_timeline answer) ctx (script_scenario s) w =
          ((e3, map cleanup_of (undos (steps_reached s))),
           w @ concat (map (step_marks ctx (st_name s)) (steps_reached s)) @
           concat (map (check_marks ctx (st_name s)) (checks_reached s)))"
        unfolding run_body_def script_scenario_def reached checks scenario.simps s1(1) \<open>e1 = None\<close>
          prod.case option.case s2(1) None s3(1)
        by (simp only: map_append concat_append undos_append append_assoc)
      with all None s3(2) show ?thesis by blast
    next
      case (Some e)
      then have checks: "checks_reached s = []"
        using all by (simp add: checks_reached_def)
      have "run_body (script_timeline answer) ctx (script_scenario s) w =
          ((Some e, map cleanup_of (undos (steps_reached s))),
           w @ concat (map (step_marks ctx (st_name s)) (steps_reached s)) @
           concat (map (check_marks ctx (st_name s)) (checks_reached s)))"
        unfolding run_body_def script_scenario_def reached checks scenario.simps s1(1) \<open>e1 = None\<close>
          prod.case option.case s2(1) Some
        by (simp only: map_append concat_append undos_append append_assoc list.map concat.simps append_Nil2)
      with all Some show ?thesis by blast
    qed
  next
    case (Some e)
    with s1(2) have given: "\<not> list_all (\<lambda>s. \<not> step_fails s) (map (Pair ''given'') (st_given s))"
      by simp
    then have reached: "steps_reached s = ?g" "\<not> list_all (\<lambda>s. \<not> step_fails s) (all_steps s)"
      by (simp_all only: steps_reached_def all_steps_def upto_first_append list_all_append if_False
          append_Nil2 simp_thms)
    then have checks: "checks_reached s = []" by (simp add: checks_reached_def)
    have "run_body (script_timeline answer) ctx (script_scenario s) w =
        ((Some e, map cleanup_of (undos (steps_reached s))),
         w @ concat (map (step_marks ctx (st_name s)) (steps_reached s)) @
         concat (map (check_marks ctx (st_name s)) (checks_reached s)))"
      unfolding run_body_def script_scenario_def reached(1) checks scenario.simps s1(1) Some
        prod.case option.case
      by (simp only: list.map concat.simps append_Nil2)
    with reached(2) show ?thesis by blast
  qed
qed

text \<open>
  C7: the order of a run. Given and When steps run in order up to the first that fails, Then
  checks only if none did and again up to the first that fails, each followed by its timeline
  event; the cleanups of the steps that ran, the failing one included, come in reverse order
  under a fresh context with 15 seconds; both contexts are cancelled last. The run succeeds
  exactly when no step, no check and no cleanup failed, and whether the timeline could be
  written makes no difference.
\<close>

theorem run_order:
  fixes s answer
  defines "ctx \<equiv> Limited Parent (if st_timeout s \<le> 0 then 45000000000 else st_timeout s)"
  assumes "st_name s \<noteq> []"
  shows "snd (Run script_contexts (Some (script_timeline answer)) Parent (script_scenario s) []) =
      concat (map (step_marks ctx (st_name s)) (steps_reached s)) @
      concat (map (check_marks ctx (st_name s)) (checks_reached s)) @
      map (\<lambda>u. Cleaned (fst u) (Limited Background 15000000000)) (rev (undos (steps_reached s))) @
      [Cancelled (Limited Background 15000000000), Cancelled ctx] \<and>
    (fst (Run script_contexts (Some (script_timeline answer)) Parent (script_scenario s) []) = None \<longleftrightarrow>
      list_all (\<lambda>x. \<not> step_fails x) (all_steps s) \<and> list_all (\<lambda>c. \<not> check_fails c) (st_then s) \<and>
      list_all (\<lambda>u. snd u = None) (undos (steps_reached s)))"
proof -
  obtain err where body: "run_body (script_timeline answer) ctx (script_scenario s) [] =
      ((err, map cleanup_of (undos (steps_reached s))),
       concat (map (step_marks ctx (st_name s)) (steps_reached s)) @
       concat (map (check_marks ctx (st_name s)) (checks_reached s)))"
    "err = None \<longleftrightarrow> list_all (\<lambda>x. \<not> step_fails x) (all_steps s) \<and>
       list_all (\<lambda>c. \<not> check_fails c) (st_then s)"
    using script_body [of answer ctx s "[]"] by auto
  let ?marks = "concat (map (step_marks ctx (st_name s)) (steps_reached s)) @
      concat (map (check_marks ctx (st_name s)) (checks_reached s))"
  let ?cleaned = "map (\<lambda>u. Cleaned (fst u) (Limited Background 15000000000)) (rev (undos (steps_reached s)))"
  obtain err' where cleanups: "run_cleanups (Limited Background 15000000000)
      (map cleanup_of (rev (undos (steps_reached s)))) err ?marks = (err', ?marks @ ?cleaned)"
    "err' = None \<longleftrightarrow> err = None \<and> list_all (\<lambda>u. snd u = None) (rev (undos (steps_reached s)))"
    using script_cleanups by blast
  have "Run script_contexts (Some (script_timeline answer)) Parent (script_scenario s) [] =
      (err', ?marks @ ?cleaned @ [Cancelled (Limited Background 15000000000), Cancelled ctx])"
    using assms(2) body(1) cleanups(1)
    by (simp add: Run_def script_contexts_sel script_scenario_sel ctx_def [symmetric] rev_map
        Let_def cong: if_cong split del: if_split)
  moreover have "list_all (\<lambda>u. snd u = None) (rev (undos (steps_reached s))) \<longleftrightarrow>
      list_all (\<lambda>u. snd u = None) (undos (steps_reached s))"
    by simp
  ultimately show ?thesis using body(2) cleanups(2) by (simp only: fst_conv snd_conv append_assoc) blast
qed

definition example_script :: script where
  "example_script = \<lparr>st_name = ''outage'', st_timeout = 0,
     st_given = [\<lparr>ss_name = ''start'', ss_err = None, ss_undo = Some None\<rparr>],
     st_when = [\<lparr>ss_name = ''kill'', ss_err = Some ''denied'', ss_undo = Some None\<rparr>,
       \<lparr>ss_name = ''restart'', ss_err = None, ss_undo = None\<rparr>],
     st_then = []\<rparr>"

theorem run_order_witness:
  "filter (\<lambda>m. case m of Wrote v \<Rightarrow> False | Cancelled c \<Rightarrow> False | _ \<Rightarrow> True)
     (snd (Run script_contexts (Some (script_timeline None)) Parent (script_scenario example_script) [])) =
   [Acted ''start'' (Limited Parent 45000000000), Acted ''kill'' (Limited Parent 45000000000),
    Cleaned ''kill'' (Limited Background 15000000000), Cleaned ''start'' (Limited Background 15000000000)]"
  by (subst run_order [THEN conjunct1])
    (simp_all add: example_script_def steps_reached_def all_steps_def checks_reached_def
      step_fails_def step_marks_def wrote_def)

end
