(* ===== verification/Timestamps.thy ===== *)
theory Timestamps
  imports Json
begin

section \<open>Decoding timestamps\<close>

text \<open>
  \<open>Time.UnmarshalJSON\<close>, which the report reader applies to the time of every event: the
  strict form of RFC 3339, with an optional fraction of which nine digits count, and \<open>Z\<close> or a
  numeric offset. The result is the instant in nanoseconds. The text of a parse error is not
  modelled beyond its first words.
\<close>

definition digit_value :: "char \<Rightarrow> int option" where
  "digit_value c = (let n = (of_char c :: nat) in
     if 48 \<le> n \<and> n \<le> 57 then Some (int n - 48) else None)"

fun number :: "string \<Rightarrow> int \<Rightarrow> int option" where
  "number [] acc = Some acc"
| "number (c # cs) acc = (case digit_value c of None \<Rightarrow> None | Some d \<Rightarrow> number cs (10 * acc + d))"

text \<open>The field of \<open>len\<close> digits at \<open>pos\<close>, between the given bounds.\<close>

definition field_at :: "string \<Rightarrow> nat \<Rightarrow> nat \<Rightarrow> int \<Rightarrow> int \<Rightarrow> int option" where
  "field_at s pos len lo hi = (case number (take len (drop pos s)) 0 of
     None \<Rightarrow> None | Some v \<Rightarrow> (if lo \<le> v \<and> v \<le> hi then Some v else None))"

definition leap_year :: "int \<Rightarrow> bool" where
  "leap_year y \<longleftrightarrow> y mod 4 = 0 \<and> (y mod 100 \<noteq> 0 \<or> y mod 400 = 0)"

definition days_in :: "int \<Rightarrow> int \<Rightarrow> int" where
  "days_in y m = (if m = 2 then (if leap_year y then 29 else 28)
     else if m \<in> {4, 6, 9, 11} then 30 else 31)"

definition days_of_civil :: "int \<Rightarrow> int \<Rightarrow> int \<Rightarrow> int" where
  "days_of_civil y m d =
     (let y' = (if m \<le> 2 then y - 1 else y);
          era = y' div 400; yoe = y' mod 400;
          doy = (153 * (if 2 < m then m - 3 else m + 9) + 2) div 5 + d - 1;
          doe = yoe * 365 + yoe div 4 - yoe div 100 + doy
      in era * 146097 + doe - 719468)"

text \<open>What follows the seconds: the fraction in nanoseconds and the offset in seconds.\<close>

definition parse_zone :: "string \<Rightarrow> int option" where
  "parse_zone z =
     (if z = ''Z'' then Some 0
      else if length z = 6 \<and> (z ! 0 = CHR ''+'' \<or> z ! 0 = CHR ''-'') \<and> z ! 3 = CHR '':'' then
        (case (field_at z 1 2 0 23, field_at z 4 2 0 59) of
           (Some h, Some m) \<Rightarrow> Some ((if z ! 0 = CHR ''-'' then -1 else 1) * (h * 3600 + m * 60))
         | _ \<Rightarrow> None)
      else None)"

definition parse_fraction :: "string \<Rightarrow> (int \<times> string) option" where
  "parse_fraction rest = (case rest of
     c # ds \<Rightarrow>
       (if c = CHR ''.'' \<and> ds \<noteq> [] \<and> digit_value (hd ds) \<noteq> None then
          (let frac = takeWhile (\<lambda>d. digit_value d \<noteq> None) ds;
               nine = take 9 (frac @ replicate 9 (CHR ''0'')) in
           map_option (\<lambda>ns. (ns, drop (length frac) ds)) (number nine 0))
        else Some (0, rest))
   | [] \<Rightarrow> Some (0, []))"

definition parse_time :: "string \<Rightarrow> int option" where
  "parse_time s =
     (if length s < 20 \<or> s ! 4 \<noteq> CHR ''-'' \<or> s ! 7 \<noteq> CHR ''-'' \<or> s ! 10 \<noteq> CHR ''T'' \<or>
         s ! 13 \<noteq> CHR '':'' \<or> s ! 16 \<noteq> CHR '':'' then None
      else
        (case (field_at s 0 4 0 9999, field_at s 5 2 1 12) of
           (Some y, Some m) \<Rightarrow>
             (case (field_at s 8 2 1 (days_in y m), field_at s 11 2 0 23, field_at s 14 2 0 59,
                    field_at s 17 2 0 59) of
                (Some d, Some hh, Some mm, Some ss) \<Rightarrow>
                  (case parse_fraction (drop 19 s) of
                     Some (ns, zone) \<Rightarrow>
                       (case parse_zone zone of
                          Some off \<Rightarrow> Some ((days_of_civil y m d * 86400 + hh * 3600 + mm * 60 + ss - off) *
                            nanos_per_second + ns)
                        | None \<Rightarrow> None)
                   | None \<Rightarrow> None)
              | _ \<Rightarrow> None)
         | _ \<Rightarrow> None))"

lemma parse_time_examples:
  "parse_time ''1970-01-01T00:00:00Z'' = Some 0"
  "parse_time ''2024-02-29T12:34:56.25+01:00'' = Some 1709206496250000000"
  "parse_time ''2023-02-29T12:34:56Z'' = None"
  by code_simp+

lemma parse_time_inverts_example: "parse_time (rfc3339_nano 1709210096000000007) = Some 1709210096000000007"
  by code_simp

fun dec_time :: "int \<Rightarrow> jval \<Rightarrow> decode_error + int" where
  "dec_time cur JNull = Inr cur"
| "dec_time cur (JStr s) = (case parse_time s of
     Some t \<Rightarrow> Inr t | None \<Rightarrow> Inl (Unreadable (''parsing time '' @ quoted s)))"
| "dec_time cur v = Inl (Unreadable ''Time.UnmarshalJSON: input is not a JSON string'')"

end
