(* ===== verification/Reports.thy ===== *)
theory Reports
  imports Timeline Timestamps
begin

section \<open>Evidence reports\<close>

text \<open>
  \<open>reports/report.go\<close>: the reader of \<open>go test -json\<close> streams, the summary it builds, and the
  documents written from it. A stream is its list of lines and the error the reader ended
  with, if any; a line is its length and the JSON value it holds, or the decoder's complaint.
\<close>

subsection \<open>Data\<close>

record test_result =
  tr_package :: string
  tr_name :: string
  tr_status :: string
  tr_elapsed :: rat
  tr_output :: string

record summary =
  sm_run_id :: string
  sm_generated_at :: int
  sm_passed :: int
  sm_failed :: int
  sm_skipped :: int
  sm_duration :: rat
  sm_tests :: "test_result list"
  sm_checkpoints :: "timeline_event list"

record go_test_event =
  ge_time :: int
  ge_action :: string
  ge_package :: string
  ge_test :: string
  ge_elapsed :: rat
  ge_output :: string

definition event_field :: "string \<Rightarrow> jval \<Rightarrow> go_test_event \<Rightarrow> decode_error + go_test_event" where
  "event_field k v e =
     (if names_field k ''Time'' then assign (dec_time (ge_time e) v) (\<lambda>x. e\<lparr>ge_time := x\<rparr>)
      else if names_field k ''Action'' then
        assign (dec_string ''goTestEvent.Action'' (ge_action e) v) (\<lambda>x. e\<lparr>ge_action := x\<rparr>)
      else if names_field k ''Package'' then
        assign (dec_string ''goTestEvent.Package'' (ge_package e) v) (\<lambda>x. e\<lparr>ge_package := x\<rparr>)
      else if names_field k ''Test'' then
        assign (dec_string ''goTestEvent.Test'' (ge_test e) v) (\<lambda>x. e\<lparr>ge_test := x\<rparr>)
      else if names_field k ''Elapsed'' then
        assign (dec_float ''goTestEvent.Elapsed'' (ge_elapsed e) v) (\<lambda>x. e\<lparr>ge_elapsed := x\<rparr>)
      else if names_field k ''Output'' then
        assign (dec_string ''goTestEvent.Output'' (ge_output e) v) (\<lambda>x. e\<lparr>ge_output := x\<rparr>)
      else Inr e)"

definition decode_event :: "jval \<Rightarrow> decode_error + go_test_event" where
  "decode_event = dec_struct [] ''reports.goTestEvent'' event_field
     \<lparr>ge_time = zero_time, ge_action = [], ge_package = [], ge_test = [], ge_elapsed = 0, ge_output = []\<rparr>"

subsection \<open>Scanning lines\<close>

record line =
  ln_size :: nat
  ln_value :: "string + jval"

text \<open>A line that does not fit the scanner's buffer with its newline ends the scan.\<close>

definition max_token :: nat where
  "max_token = 4 * 1024 * 1024"

fun scan :: "line list \<Rightarrow> go_error option \<Rightarrow> line list \<times> go_error option" where
  "scan [] err = ([], err)"
| "scan (l # ls) err =
     (if max_token \<le> ln_size l then ([], Some ''bufio.Scanner: token too long'')
      else case scan ls err of (ts, e) \<Rightarrow> (l # ts, e))"

subsection \<open>Parse\<close>

type_synonym results = "string \<rightharpoonup> test_result"

definition result_key :: "string \<Rightarrow> string \<Rightarrow> string" where
  "result_key package test = package @ CHR 0x00 # test"

definition is_terminal :: "string \<Rightarrow> bool" where
  "is_terminal action \<longleftrightarrow> action = ''pass'' \<or> action = ''fail'' \<or> action = ''skip''"

definition apply_event :: "go_test_event \<Rightarrow> results \<Rightarrow> results" where
  "apply_event e results =
     (let key = result_key (ge_package e) (ge_test e);
          result = (case results key of
            None \<Rightarrow> \<lparr>tr_package = ge_package e, tr_name = ge_test e, tr_status = ''running'',
                     tr_elapsed = 0, tr_output = []\<rparr>
          | Some r \<Rightarrow> r);
          result = (if ge_output e \<noteq> [] then result\<lparr>tr_output := tr_output result @ ge_output e\<rparr> else result);
          result = (if is_terminal (ge_action e)
            then result\<lparr>tr_status := ge_action e, tr_elapsed := ge_elapsed e\<rparr> else result)
      in results(key \<mapsto> result))"

fun parse_lines :: "line list \<Rightarrow> rat \<Rightarrow> results \<Rightarrow> go_error + rat \<times> results" where
  "parse_lines [] duration results = Inr (duration, results)"
| "parse_lines (l # ls) duration results = (case decode_stream decode_event (ln_value l) of
     Inl e \<Rightarrow> Inl (''decode go test event: '' @ decode_error_text e)
   | Inr event \<Rightarrow>
       (if ge_test event = []
        then parse_lines ls (if duration < ge_elapsed event then ge_elapsed event else duration) results
        else parse_lines ls duration (apply_event event results)))"

text \<open>
  Both passes over the results range over a map: \<open>order\<close> is the order they see. A test is a
  parent when another test of its package has its name and a slash as prefix.
\<close>

definition is_parent :: "string list \<Rightarrow> results \<Rightarrow> string \<Rightarrow> bool" where
  "is_parent order results key = (case results key of
     None \<Rightarrow> False
   | Some candidate \<Rightarrow> list_ex (\<lambda>other_key. key \<noteq> other_key \<and> (case results other_key of
        None \<Rightarrow> False
      | Some other \<Rightarrow> tr_package candidate = tr_package other \<and>
          has_prefix (tr_name other) (tr_name candidate @ ''/''))) order)"

definition finish_result :: "test_result \<Rightarrow> test_result" where
  "finish_result r = (if tr_status r = ''running''
     then r\<lparr>tr_status := ''fail'',
            tr_output := tr_output r @ ''test stream ended without a terminal event'' @ [CHR 0x0A]\<rparr>
     else r)"

definition count_result :: "test_result \<Rightarrow> summary \<Rightarrow> summary" where
  "count_result r s =
     (let s = s\<lparr>sm_tests := sm_tests s @ [r]\<rparr> in
      if tr_status r = ''pass'' then s\<lparr>sm_passed := sm_passed s + 1\<rparr>
      else if tr_status r = ''skip'' then s\<lparr>sm_skipped := sm_skipped s + 1\<rparr>
      else s\<lparr>sm_failed := sm_failed s + 1\<rparr>)"

fun collect :: "(string \<Rightarrow> bool) \<Rightarrow> results \<Rightarrow> string list \<Rightarrow> summary \<Rightarrow> summary" where
  "collect parents results [] s = s"
| "collect parents results (key # keys) s = (case results key of
     None \<Rightarrow> collect parents results keys s
   | Some r \<Rightarrow>
       (if parents key then collect parents results keys s
        else collect parents results keys (count_result (finish_result r) s)))"

text \<open>\<open>sort.Slice\<close> by package, then name.\<close>

definition test_key :: "test_result \<Rightarrow> string \<times> string" where
  "test_key r = (tr_package r, tr_name r)"

definition sort_tests :: "test_result list \<Rightarrow> test_result list" where
  "sort_tests = sort_key test_key"

definition Parse :: "int \<Rightarrow> (results \<Rightarrow> string list) \<Rightarrow> line list \<Rightarrow> go_error option \<Rightarrow> string \<Rightarrow> go_error + summary" where
  "Parse now order lines err run_id =
     (case scan lines err of (tokens, scan_err) \<Rightarrow>
      case parse_lines tokens 0 Map.empty of
        Inl e \<Rightarrow> Inl e
      | Inr (duration, results) \<Rightarrow>
          (case scan_err of
             Some e \<Rightarrow> Inl (''read go test events: '' @ e)
           | None \<Rightarrow>
               (let s = collect (is_parent (order results) results) results (order results)
                      \<lparr>sm_run_id = run_id, sm_generated_at = now, sm_passed = 0, sm_failed = 0,
                       sm_skipped = 0, sm_duration = duration, sm_tests = [], sm_checkpoints = []\<rparr>
                in Inr (s\<lparr>sm_tests := sort_tests (sm_tests s)\<rparr>))))"

interpretation tests: slice_sorter test_key sort_tests
  by unfold_locales (simp_all add: sort_tests_def)

subsection \<open>LoadTimeline\<close>

definition timeline_field :: "string \<Rightarrow> jval \<Rightarrow> timeline_event \<Rightarrow> decode_error + timeline_event" where
  "timeline_field k v e =
     (if names_field k ''at'' then assign (dec_time (te_at e) v) (\<lambda>x. e\<lparr>te_at := x\<rparr>)
      else if names_field k ''scenario'' then
        assign (dec_string ''TimelineEvent.scenario'' (te_scenario e) v) (\<lambda>x. e\<lparr>te_scenario := x\<rparr>)
      else if names_field k ''phase'' then
        assign (dec_string ''TimelineEvent.phase'' (te_phase e) v) (\<lambda>x. e\<lparr>te_phase := x\<rparr>)
      else if names_field k ''name'' then
        assign (dec_string ''TimelineEvent.name'' (te_name e) v) (\<lambda>x. e\<lparr>te_name := x\<rparr>)
      else if names_field k ''status'' then
        assign (dec_string ''TimelineEvent.status'' (te_status e) v) (\<lambda>x. e\<lparr>te_status := x\<rparr>)
      else if names_field k ''details'' then
        (case v of
           JNull \<Rightarrow> Inr (e\<lparr>te_details := []\<rparr>)
         | JObj ms \<Rightarrow> Inr (e\<lparr>te_details := foldl (\<lambda>d (k, v). put_member k v d) (te_details e) ms\<rparr>)
         | _ \<Rightarrow> Inl (Mismatch (kind_text v) ''TimelineEvent.details'' ''map[string]interface {}''))
      else Inr e)"

definition decode_timeline_event :: "jval \<Rightarrow> decode_error + timeline_event" where
  "decode_timeline_event = dec_struct [] ''reports.TimelineEvent'' timeline_field
     \<lparr>te_at = zero_time, te_scenario = [], te_phase = [], te_name = [], te_status = [], te_details = []\<rparr>"

fun load_lines :: "line list \<Rightarrow> timeline_event list \<Rightarrow> go_error + timeline_event list" where
  "load_lines [] events = Inr events"
| "load_lines (l # ls) events = (case decode_stream decode_timeline_event (ln_value l) of
     Inl e \<Rightarrow> Inl (''decode timeline event: '' @ decode_error_text e)
   | Inr event \<Rightarrow> load_lines ls (events @ [event]))"

definition LoadTimeline :: "line list \<Rightarrow> go_error option \<Rightarrow> go_error + timeline_event list" where
  "LoadTimeline lines err =
     (case scan lines err of (tokens, scan_err) \<Rightarrow>
      case load_lines tokens [] of
        Inl e \<Rightarrow> Inl e
      | Inr events \<Rightarrow> (case scan_err of
          Some e \<Rightarrow> Inl (''read timeline: '' @ e)
        | None \<Rightarrow> Inr events))"

end
