(* ===== verification/Report_Parsing.thy ===== *)
theory Report_Parsing
  imports Reports
begin

section \<open>What the report reader reports\<close>

text \<open>
  The reader's two passes over a Go map in closed form, the results map as a function of the
  events, and the properties of \<open>Parse\<close>.
\<close>

subsection \<open>Collecting\<close>

definition leaves :: "(string \<Rightarrow> bool) \<Rightarrow> results \<Rightarrow> string list \<Rightarrow> test_result list" where
  "leaves parents results order =
     map finish_result (List.map_filter (\<lambda>k. if parents k then None else results k) order)"

definition with_status :: "string \<Rightarrow> test_result list \<Rightarrow> int" where
  "with_status st rs = int (length (filter (\<lambda>r. tr_status r = st) rs))"

lemma with_status_simps [simp]:
  "with_status st [] = 0"
  "with_status st (r # rs) = (if tr_status r = st then 1 else 0) + with_status st rs"
  by (simp_all add: with_status_def)

lemma leaves_simps [simp]:
  "leaves p results [] = []"
  "leaves p results (k # ks) = (case results k of None \<Rightarrow> leaves p results ks
     | Some r \<Rightarrow> if p k then leaves p results ks else finish_result r # leaves p results ks)"
  by (simp_all add: leaves_def map_filter_simps split: option.splits)

lemma collect_leaves:
  "collect p results order s =
     (let T = leaves p results order in
      s\<lparr>sm_tests := sm_tests s @ T, sm_passed := sm_passed s + with_status ''pass'' T,
        sm_skipped := sm_skipped s + with_status ''skip'' T,
        sm_failed := sm_failed s + int (length T) - with_status ''pass'' T - with_status ''skip'' T\<rparr>)"
proof (induction order arbitrary: s)
  case (Cons k ks)
  show ?case
    by (cases "results k") (auto simp: Cons.IH count_result_def Let_def)
qed simp

text \<open>The map's entries are filed under their own keys.\<close>

definition filed :: "results \<Rightarrow> bool" where
  "filed results \<longleftrightarrow> (\<forall>k r. results k = Some r \<longrightarrow> k = result_key (tr_package r) (tr_name r) \<and>
     (tr_status r = ''running'' \<or> is_terminal (tr_status r)))"

lemma apply_event_filed: "filed results \<Longrightarrow> filed (apply_event e results)"
proof -
  assume f: "filed results"
  define key where "key = result_key (ge_package e) (ge_test e)"
  obtain r where r: "apply_event e results = results(key \<mapsto> r)"
    "result_key (tr_package r) (tr_name r) = key" "tr_status r = ''running'' \<or> is_terminal (tr_status r)"
    using f by (cases "results key") (auto simp: apply_event_def Let_def filed_def key_def)
  with f show ?thesis by (auto simp: filed_def)
qed

lemma parse_lines_filed:
  "parse_lines ls d results = Inr (d', results') \<Longrightarrow> filed results \<Longrightarrow> filed results'"
  by (induction ls d results rule: parse_lines.induct) (auto split: sum.splits if_splits simp: apply_event_filed)

lemma finish_result_sel [simp]:
  "tr_package (finish_result r) = tr_package r" "tr_name (finish_result r) = tr_name r"
  by (simp_all add: finish_result_def)

lemma set_leaves:
  "set (leaves p results order) =
     finish_result ` {r. \<exists>k\<in>set order. \<not> p k \<and> results k = Some r}"
  by (induction order) (auto split: option.splits)

lemma leaves_keys_distinct:
  "filed results \<Longrightarrow> distinct order \<Longrightarrow> distinct (map test_key (leaves p results order))"
proof (induction order)
  case (Cons k ks)
  have "test_key (finish_result r) \<notin> test_key ` set (leaves p results ks)"
    if "results k = Some r" for r
  proof
    assume "test_key (finish_result r) \<in> test_key ` set (leaves p results ks)"
    then obtain k' r' where "k' \<in> set ks" "results k' = Some r'" "test_key r = test_key r'"
      by (auto simp: set_leaves test_key_def)
    moreover from this(3) have "tr_package r = tr_package r'" "tr_name r = tr_name r'"
      by (simp_all add: test_key_def)
    ultimately have "k = k'" using Cons.prems(1) that unfolding filed_def by metis
    with \<open>k' \<in> set ks\<close> Cons.prems(2) show False by simp
  qed
  with Cons show ?case by (auto split: option.splits)
qed simp

lemma leaves_mset:
  assumes "mset o1 = mset o2" and "\<And>k. k \<in> set o1 \<Longrightarrow> p1 k = p2 k"
  shows "mset (leaves p1 results o1) = mset (leaves p2 results o2)"
proof -
  have form: "mset (leaves p results ks) = image_mset (finish_result \<circ> the \<circ> results)
      (filter_mset (\<lambda>k. \<not> p k \<and> results k \<noteq> None) (mset ks))" for p ks
    by (induction ks) (auto split: option.splits)
  show ?thesis
    unfolding form assms(1) [symmetric]
    by (rule arg_cong [where f = "image_mset _"], rule filter_mset_cong) (use assms(2) in auto)
qed

lemma is_parent_cong: "set o1 = set o2 \<Longrightarrow> is_parent o1 = is_parent o2"
  by (intro ext) (simp add: is_parent_def list_ex_iff split: option.splits)

lemma leaves_inj:
  "filed results \<Longrightarrow> distinct order \<Longrightarrow> inj_on test_key (set (leaves p results order))"
  using leaves_keys_distinct distinct_map by blast

lemma with_status_mset: "mset xs = mset ys \<Longrightarrow> with_status st xs = with_status st ys"
  unfolding with_status_def by (metis mset_filter size_mset)

subsection \<open>The results of a stream\<close>

text \<open>
  The reference: of the events of one test, the first names it, the outputs are joined, and
  the last terminal event gives status and time.
\<close>

definition event_key :: "go_test_event \<Rightarrow> string" where
  "event_key e = result_key (ge_package e) (ge_test e)"

definition terminal_events :: "go_test_event list \<Rightarrow> go_test_event list" where
  "terminal_events es = filter (\<lambda>e. is_terminal (ge_action e)) es"

definition result_of :: "go_test_event list \<Rightarrow> test_result option" where
  "result_of es = (case es of [] \<Rightarrow> None
     | e # _ \<Rightarrow> Some \<lparr>tr_package = ge_package e, tr_name = ge_test e,
         tr_status = (if terminal_events es = [] then ''running'' else ge_action (last (terminal_events es))),
         tr_elapsed = (if terminal_events es = [] then 0 else ge_elapsed (last (terminal_events es))),
         tr_output = concat (map ge_output es)\<rparr>)"

definition results_of :: "go_test_event list \<Rightarrow> results" where
  "results_of es = (\<lambda>k. result_of (filter (\<lambda>e. event_key e = k \<and> ge_test e \<noteq> []) es))"

lemma result_of_snoc:
  "result_of (es @ [e]) = Some (
     let r = (case result_of es of None \<Rightarrow> \<lparr>tr_package = ge_package e, tr_name = ge_test e,
                tr_status = ''running'', tr_elapsed = 0, tr_output = []\<rparr> | Some r \<Rightarrow> r);
         r = r\<lparr>tr_output := tr_output r @ ge_output e\<rparr>
     in if is_terminal (ge_action e) then r\<lparr>tr_status := ge_action e, tr_elapsed := ge_elapsed e\<rparr> else r)"
  by (cases es) (simp_all add: result_of_def terminal_events_def Let_def)

lemma results_of_snoc:
  "ge_test e \<noteq> [] \<Longrightarrow> results_of (es @ [e]) = apply_event e (results_of es)"
  by (rule ext) (auto simp: results_of_def apply_event_def event_key_def result_of_snoc Let_def)

lemma results_of_skip: "ge_test e = [] \<Longrightarrow> results_of (es @ [e]) = results_of es"
  by (simp add: results_of_def)

definition duration_of :: "go_test_event list \<Rightarrow> rat" where
  "duration_of es = Max (insert 0 (ge_elapsed ` set (filter (\<lambda>e. ge_test e = []) es)))"

lemma duration_of_snoc:
  "duration_of (es @ [e]) = (if ge_test e = [] then max (duration_of es) (ge_elapsed e) else duration_of es)"
proof (cases "ge_test e = []")
  case True
  let ?A = "insert 0 (ge_elapsed ` set (filter (\<lambda>e. ge_test e = []) es))"
  have "Max (insert (ge_elapsed e) ?A) = max (ge_elapsed e) (Max ?A)"
    by (rule Max_insert) auto
  with True show ?thesis
    by (simp add: duration_of_def insert_commute max.commute)
qed (simp add: duration_of_def)

text \<open>The events of a stream, when every line decodes.\<close>

definition decoded :: "line list \<Rightarrow> go_test_event list \<Rightarrow> bool" where
  "decoded ls es \<longleftrightarrow> list_all2 (\<lambda>l e. decode_stream decode_event (ln_value l) = Inr e) ls es"

lemma parse_lines_events:
  "decoded ls es \<Longrightarrow> parse_lines ls (duration_of pre) (results_of pre) =
     Inr (duration_of (pre @ es), results_of (pre @ es))"
proof (induction ls arbitrary: es pre)
  case (Cons l ls)
  then obtain e rest where es: "es = e # rest" "decode_stream decode_event (ln_value l) = Inr e"
    "decoded ls rest"
    by (auto simp: decoded_def list_all2_Cons1)
  show ?case
  proof (cases "ge_test e = []")
    case True
    then have "(if duration_of pre < ge_elapsed e then ge_elapsed e else duration_of pre) =
        duration_of (pre @ [e])" "results_of pre = results_of (pre @ [e])"
      by (auto simp: duration_of_snoc results_of_skip)
    with True es Cons.IH [OF es(3), of "pre @ [e]"] show ?thesis by simp
  next
    case False
    then have "apply_event e (results_of pre) = results_of (pre @ [e])"
      "duration_of pre = duration_of (pre @ [e])"
      by (simp_all add: results_of_snoc duration_of_snoc)
    with False es Cons.IH [OF es(3), of "pre @ [e]"] show ?thesis by simp
  qed
qed (simp add: decoded_def)

lemma parse_stream:
  assumes "decoded ls es"
  shows "parse_lines ls 0 Map.empty = Inr (duration_of es, results_of es)"
proof -
  have "duration_of [] = 0" "results_of [] = Map.empty"
    by (simp_all add: duration_of_def results_of_def result_of_def fun_eq_iff)
  with parse_lines_events [OF assms, of "[]"] show ?thesis by simp
qed

lemma parse_lines_decoded:
  "parse_lines ls d results = Inr x \<Longrightarrow> \<exists>es. decoded ls es"
proof (induction ls d results rule: parse_lines.induct)
  case (2 l ls d results)
  then show ?case
    by (auto simp: decoded_def list_all2_Cons1 split: sum.splits if_splits)
next
  case (1 d results)
  have "decoded [] []" by (simp add: decoded_def)
  then show ?case by blast
qed

lemma results_of_filed: "filed (results_of es)"
proof (induction es rule: rev_induct)
  case Nil
  show ?case by (simp add: filed_def results_of_def result_of_def)
next
  case (snoc e es)
  then show ?case
    by (cases "ge_test e = []") (simp_all add: results_of_skip results_of_snoc apply_event_filed)
qed

text \<open>The summary of a stream that was read to its end, and that no other stream has one.\<close>

definition summary_of :: "int \<Rightarrow> (results \<Rightarrow> string list) \<Rightarrow> string \<Rightarrow> go_test_event list \<Rightarrow> summary" where
  "summary_of now order run_id es =
     (let m = results_of es; T = leaves (is_parent (order m) m) m (order m) in
      \<lparr>sm_run_id = run_id, sm_generated_at = now, sm_passed = with_status ''pass'' T,
       sm_failed = int (length T) - with_status ''pass'' T - with_status ''skip'' T,
       sm_skipped = with_status ''skip'' T, sm_duration = duration_of es,
       sm_tests = sort_tests T, sm_checkpoints = []\<rparr>)"

lemma scan_complete: "scan ls err = (ts, None) \<Longrightarrow> ts = ls"
  by (induction ls arbitrary: ts) (auto split: if_splits prod.splits)

lemma Parse_decoded:
  "scan lines err = (lines, None) \<Longrightarrow> decoded lines es \<Longrightarrow>
   Parse now order lines err run_id = Inr (summary_of now order run_id es)"
  by (simp add: Parse_def parse_stream collect_leaves summary_of_def Let_def)

lemma Parse_Inr:
  assumes "Parse now order lines err run_id = Inr s"
  obtains es where "decoded lines es" "s = summary_of now order run_id es"
proof -
  obtain tokens scan_err where scan: "scan lines err = (tokens, scan_err)" by fastforce
  obtain x where x: "parse_lines tokens 0 Map.empty = Inr x" and none: "scan_err = None"
    using assms scan by (auto simp: Parse_def split: sum.splits option.splits)
  with scan_complete scan have tokens: "tokens = lines" by simp
  obtain es where es: "decoded lines es" using parse_lines_decoded x tokens by blast
  with that [OF es] Parse_decoded [OF _ es] scan tokens none assms show thesis by simp
qed

subsection \<open>Properties\<close>

definition has_subtest :: "results \<Rightarrow> string \<Rightarrow> bool" where
  "has_subtest results k \<longleftrightarrow> (\<exists>r k' r'. results k = Some r \<and> results k' = Some r' \<and> k \<noteq> k' \<and>
     tr_package r = tr_package r' \<and> has_prefix (tr_name r') (tr_name r @ ''/''))"

lemma is_parent_enumerated:
  "enumerates order results \<Longrightarrow> is_parent order results k \<longleftrightarrow> has_subtest results k"
  by (auto simp: is_parent_def has_subtest_def enumerates_def list_ex_iff split: option.splits)

lemma decoded_unique: "decoded ls es \<Longrightarrow> decoded ls es' \<Longrightarrow> es = es'"
proof (induction ls arbitrary: es es')
  case (Cons l ls)
  then show ?case by (auto simp: decoded_def list_all2_Cons1)
qed (simp add: decoded_def)

lemma all_counted:
  "\<forall>t\<in>set T. tr_status t = ''pass'' \<or> tr_status t = ''skip'' \<Longrightarrow>
   int (length T) = with_status ''pass'' T + with_status ''skip'' T"
  by (induction T) auto

lemma finished_status:
  "filed results \<Longrightarrow> t \<in> set (leaves p results order) \<Longrightarrow> is_terminal (tr_status t)"
  by (auto simp: set_leaves filed_def finish_result_def is_terminal_def)

text \<open>
  C22: the report lists each executable test of the stream once, in order of package and name,
  and no aggregate parent; with the joined output of its events, the status and time of its
  last terminal event, and \<open>fail\<close> when it never ended.
\<close>

theorem parse_reports_each_leaf_once:
  assumes "Parse now order lines err run_id = Inr s" and "decoded lines es"
    and "enumerates (order (results_of es)) (results_of es)"
  shows "set (sm_tests s) =
      finish_result ` {r. \<exists>k. results_of es k = Some r \<and> \<not> has_subtest (results_of es) k} \<and>
    distinct (sm_tests s) \<and> sorted (map test_key (sm_tests s)) \<and> distinct (map test_key (sm_tests s))"
proof -
  let ?m = "results_of es"
  let ?T = "leaves (is_parent (order ?m) ?m) ?m (order ?m)"
  have s: "sm_tests s = sort_tests ?T"
    using assms(1)
    by (rule Parse_Inr) (use decoded_unique [OF assms(2)] in \<open>simp add: summary_of_def Let_def\<close>)
  have "set ?T = finish_result ` {r. \<exists>k. ?m k = Some r \<and> \<not> has_subtest ?m k}"
    using assms(3) is_parent_enumerated [OF assms(3)] by (auto simp: set_leaves enumerates_def)
  moreover have "distinct (map test_key ?T)"
    using assms(3) by (intro leaves_keys_distinct results_of_filed) (simp add: enumerates_def)
  then have "distinct (map test_key (sm_tests s))"
    unfolding s by (metis distinct_map mset_eq_imp_distinct_iff tests.sorter_permutes tests.sorter_set)
  ultimately show ?thesis
    using tests.sorter_ordered [of ?T] by (simp add: s tests.sorter_set distinct_map)
qed

text \<open>Two test events of package \<open>p\<close>: the subtest passes and its parent fails; then the package fails.\<close>

definition event_line :: "string \<Rightarrow> string \<Rightarrow> line" where
  "event_line action test = \<lparr>ln_size = 80, ln_value = Inr (JObj [(''Action'', JStr action),
     (''Package'', JStr ''p''), (''Test'', JStr test), (''Elapsed'', JInt 2)])\<rparr>"

definition test_event :: "string \<Rightarrow> string \<Rightarrow> go_test_event" where
  "test_event action test = \<lparr>ge_time = zero_time, ge_action = action, ge_package = ''p'',
     ge_test = test, ge_elapsed = 2, ge_output = []\<rparr>"

definition parent_failure_lines :: "line list" where
  "parent_failure_lines = [event_line ''pass'' ''T/a'', event_line ''fail'' ''T'', event_line ''fail'' []]"

definition parent_failure_events :: "go_test_event list" where
  "parent_failure_events = [test_event ''pass'' ''T/a'', test_event ''fail'' ''T'', test_event ''fail'' []]"

definition parent_failure_order :: "results \<Rightarrow> string list" where
  "parent_failure_order m = [result_key ''p'' ''T'', result_key ''p'' ''T/a'']"

lemma event_line_decoded: "decode_stream decode_event (ln_value (event_line action test)) = Inr (test_event action test)"
  by (simp add: event_line_def test_event_def decode_stream_def decode_event_def event_field_def
      names_field_def ascii_lower_def)

lemma parent_failure_decoded: "decoded parent_failure_lines parent_failure_events"
  by (simp add: decoded_def parent_failure_lines_def parent_failure_events_def event_line_decoded)

lemma parent_failure_results:
  "results_of parent_failure_events = [
     result_key ''p'' ''T/a'' \<mapsto> \<lparr>tr_package = ''p'', tr_name = ''T/a'', tr_status = ''pass'', tr_elapsed = 2, tr_output = []\<rparr>,
     result_key ''p'' ''T'' \<mapsto> \<lparr>tr_package = ''p'', tr_name = ''T'', tr_status = ''fail'', tr_elapsed = 2, tr_output = []\<rparr>]"
  by (rule ext) (auto simp: results_of_def parent_failure_events_def test_event_def event_key_def
      result_key_def result_of_def terminal_events_def is_terminal_def)

lemma parent_failure_enumerates:
  "enumerates (parent_failure_order m) (results_of parent_failure_events)"
  by (auto simp: enumerates_def parent_failure_order_def parent_failure_results result_key_def)

lemma parent_failure_parses: "\<exists>s. Parse 0 parent_failure_order parent_failure_lines None ''r'' = Inr s"
  by (rule exI, rule Parse_decoded [OF _ parent_failure_decoded])
    (simp add: parent_failure_lines_def event_line_def max_token_def)

theorem parse_reports_each_leaf_once_witness:
  "\<exists>s. Parse 0 parent_failure_order parent_failure_lines None ''r'' = Inr s \<and>
     set (sm_tests s) = finish_result ` {r. \<exists>k. results_of parent_failure_events k = Some r \<and>
       \<not> has_subtest (results_of parent_failure_events) k}"
proof -
  obtain s where s: "Parse 0 parent_failure_order parent_failure_lines None ''r'' = Inr s"
    using parent_failure_parses by blast
  from parse_reports_each_leaf_once [OF s parent_failure_decoded parent_failure_enumerates] s
  show ?thesis by blast
qed

lemma Parse_counts:
  assumes "Parse now order lines err run_id = Inr s"
  shows "sm_passed s + sm_failed s + sm_skipped s = int (length (sm_tests s)) \<and>
    sm_passed s = with_status ''pass'' (sm_tests s) \<and> sm_failed s = with_status ''fail'' (sm_tests s) \<and>
    sm_skipped s = with_status ''skip'' (sm_tests s)"
proof -
  obtain T es where s: "sm_tests s = sort_tests T" "sm_passed s = with_status ''pass'' T"
    "sm_skipped s = with_status ''skip'' T"
    "sm_failed s = int (length T) - with_status ''pass'' T - with_status ''skip'' T"
    and T: "T = leaves (is_parent (order (results_of es)) (results_of es)) (results_of es) (order (results_of es))"
    using assms by (rule Parse_Inr) (simp add: summary_of_def Let_def)
  have "\<forall>t\<in>set T. is_terminal (tr_status t)"
    using finished_status [OF results_of_filed] T by blast
  then have "int (length T) = with_status ''pass'' T + with_status ''fail'' T + with_status ''skip'' T"
    by (induction T) (auto simp: is_terminal_def)
  moreover have "with_status st (sort_tests T) = with_status st T" for st
    by (intro with_status_mset tests.sorter_permutes)
  ultimately show ?thesis using s by (simp add: tests.sorter_length)
qed

text \<open>
  The counts of a summary add up: every listed test passed, failed or was skipped, and the
  three counters say how many.
\<close>

theorem parse_counts_add_up:
  assumes "Parse now order lines err run_id = Inr s"
  shows "sm_passed s + sm_failed s + sm_skipped s = int (length (sm_tests s)) \<and>
    sm_passed s = with_status ''pass'' (sm_tests s) \<and> sm_failed s = with_status ''fail'' (sm_tests s) \<and>
    sm_skipped s = with_status ''skip'' (sm_tests s)"
  by (rule Parse_counts [OF assms])

theorem parse_counts_add_up_witness:
  "\<exists>s. Parse 0 parent_failure_order parent_failure_lines None ''r'' = Inr s \<and>
     sm_passed s + sm_failed s + sm_skipped s = int (length (sm_tests s))"
  using parent_failure_parses parse_counts_add_up by blast

text \<open>
  C29: the order in which Go ranges over the results map does not show in the report.
\<close>

theorem parse_deterministic:
  assumes "decoded lines es" and "enumerates (order1 (results_of es)) (results_of es)"
    and "enumerates (order2 (results_of es)) (results_of es)"
  shows "Parse now order1 lines err run_id = Parse now order2 lines err run_id"
proof -
  let ?m = "results_of es"
  let ?T = "\<lambda>order. leaves (is_parent (order ?m) ?m) ?m (order ?m)"
  have sets: "set (order1 ?m) = set (order2 ?m)" and dist: "distinct (order1 ?m)" "distinct (order2 ?m)"
    using assms by (simp_all add: enumerates_def)
  then have "mset (order1 ?m) = mset (order2 ?m)"
    by (simp add: set_eq_iff_mset_eq_distinct [symmetric])
  then have m: "mset (?T order1) = mset (?T order2)"
    using is_parent_cong [OF sets] by (intro leaves_mset) simp_all
  then have "sort_tests (?T order1) = sort_tests (?T order2)"
    by (rule tests.sorter_order_independent) (rule leaves_inj [OF results_of_filed dist(1)])
  moreover have "length (?T order1) = length (?T order2)" using m by (metis size_mset)
  ultimately have sums: "summary_of now order1 run_id es = summary_of now order2 run_id es"
    using with_status_mset [OF m] by (simp add: summary_of_def Let_def)
  obtain tokens scan_err where scan: "scan lines err = (tokens, scan_err)" by fastforce
  show ?thesis
  proof (cases scan_err)
    case None
    with scan scan_complete have "scan lines err = (lines, None)" by simp
    with Parse_decoded [OF _ assms(1)] sums show ?thesis by simp
  next
    case (Some e)
    with scan show ?thesis by (simp add: Parse_def split: sum.splits)
  qed
qed

theorem parse_deterministic_witness:
  "Parse 0 parent_failure_order parent_failure_lines None ''r'' =
   Parse 0 (\<lambda>m. rev (parent_failure_order m)) parent_failure_lines None ''r''"
  by (rule parse_deterministic [OF parent_failure_decoded parent_failure_enumerates])
    (use parent_failure_enumerates in \<open>simp add: enumerates_def\<close>)

text \<open>
  C32: a failure that \<open>go test\<close> reports for a package or for a test with subtests is not
  counted: if every executable test ended without failing, the summary says that nothing
  failed, whatever failed above them.
\<close>

theorem failures_above_leaves_not_counted:
  assumes "Parse now order lines err run_id = Inr s" and "decoded lines es"
    and "enumerates (order (results_of es)) (results_of es)"
    and "\<forall>k r. results_of es k = Some r \<longrightarrow>
      has_subtest (results_of es) k \<or> tr_status r = ''pass'' \<or> tr_status r = ''skip''"
  shows "sm_failed s = 0"
proof -
  let ?m = "results_of es"
  let ?T = "leaves (is_parent (order ?m) ?m) ?m (order ?m)"
  have "\<forall>t\<in>set ?T. tr_status t = ''pass'' \<or> tr_status t = ''skip''"
    using assms(4) is_parent_enumerated [OF assms(3)] by (fastforce simp: set_leaves finish_result_def)
  then have "int (length ?T) = with_status ''pass'' ?T + with_status ''skip'' ?T"
    by (rule all_counted)
  then show ?thesis
    using assms(1) by (rule_tac Parse_Inr [of now order lines err run_id s])
      (use decoded_unique [OF assms(2)] in \<open>auto simp: summary_of_def Let_def\<close>)
qed

theorem failures_above_leaves_not_counted_witness:
  "\<exists>s. Parse 0 parent_failure_order parent_failure_lines None ''r'' = Inr s \<and> sm_failed s = 0"
proof -
  obtain s where s: "Parse 0 parent_failure_order parent_failure_lines None ''r'' = Inr s"
    using parent_failure_parses by blast
  have "\<forall>k r. results_of parent_failure_events k = Some r \<longrightarrow>
      has_subtest (results_of parent_failure_events) k \<or> tr_status r = ''pass'' \<or> tr_status r = ''skip''"
    by (auto simp: parent_failure_results has_subtest_def has_prefix_def result_key_def)
  with failures_above_leaves_not_counted [OF s parent_failure_decoded parent_failure_enumerates] s
  show ?thesis by blast
qed

end
