(* ===== verification/Report_Documents.thy ===== *)
theory Report_Documents
  imports Report_Parsing
begin

section \<open>The documents of a run\<close>

text \<open>
  The Markdown and JUnit renderings of a summary, \<open>WriteBundle\<close> and the command
  \<open>cmd/e2e-report\<close>. Strings are UTF-8 bytes. The JSON and XML encoders are not run: what a
  file holds is the value handed to them.
\<close>

subsection \<open>Markdown\<close>

definition em_dash :: string where
  "em_dash = [CHR 0xE2, CHR 0x80, CHR 0x94]"

definition newline :: string where
  "newline = [CHR 0x0A]"

definition tick :: string where
  "tick = [CHR 0x60]"

text \<open>\<open>json.Marshal\<close> of a tree cannot fail, so the branch for its error is never taken.\<close>

definition markdownDetails :: "(string \<times> jval) list \<Rightarrow> string" where
  "markdownDetails details =
     (if details = [] then em_dash
      else
        (let encoded = json_text (JObj details);
             val = replace_char (CHR ''|'') [CHR 0x5C, CHR ''|''] encoded;
             val = replace_char (CHR 0x0A) '' '' val
         in tick @ replace_char (CHR 0x60) [CHR 0x27] val @ tick))"

definition test_row :: "test_result \<Rightarrow> string" where
  "test_row r = ''| '' @ tick @ tr_name r @ tick @ '' | '' @ to_upper (tr_status r) @ '' | '' @
     fixed 2 (tr_elapsed r) @ ''s |'' @ newline"

definition checkpoint_row :: "timeline_event \<Rightarrow> string" where
  "checkpoint_row e = ''| '' @ clock_millis (te_at e) @ '' | '' @ tick @ te_scenario e @ tick @ '' | '' @
     te_phase e @ '' | '' @ te_name e @ '' | '' @ to_upper (te_status e) @ '' | '' @
     markdownDetails (te_details e) @ '' |'' @ newline"

definition failure_section :: "test_result \<Rightarrow> string" where
  "failure_section r = newline @ ''## Failure: '' @ tick @ tr_name r @ tick @ newline @ newline @
     tick @ tick @ tick @ ''text'' @ newline @ trim_space (tr_output r) @ newline @
     tick @ tick @ tick @ newline"

definition artifact_index :: string where
  "artifact_index = newline @ ''## Artifact index'' @ newline @ newline @
     ''- [Machine-readable summary](summary.json)'' @ newline @
     ''- [Chronological evidence](events.jsonl)'' @ newline @
     ''- [Raw Go test stream](go-test.json)'' @ newline @
     ''- [Environment manifest](stack.json)'' @ newline @
     ''- [JUnit report](junit.xml)'' @ newline @
     ''- [Service logs](logs/) '' @ em_dash @ '' captured automatically on failure'' @ newline"

definition markdown :: "summary \<Rightarrow> string" where
  "markdown s =
     ''# Aero Arc E2E run '' @ tick @ sm_run_id s @ tick @ newline @ newline @
     ''- Passed: **'' @ int_dec (sm_passed s) @ ''**'' @ newline @
     ''- Failed: **'' @ int_dec (sm_failed s) @ ''**'' @ newline @
     ''- Skipped: **'' @ int_dec (sm_skipped s) @ ''**'' @ newline @
     ''- Duration: **'' @ fixed 2 (sm_duration s) @ ''s**'' @ newline @ newline @
     ''| Scenario | Result | Duration |'' @ newline @ ''| --- | --- | ---: |'' @ newline @
     concat (map test_row (sm_tests s)) @
     (if sm_checkpoints s \<noteq> []
      then newline @ ''## Checkpoints and invariants'' @ newline @ newline @
        ''| Time (UTC) | Scenario | Phase | Checkpoint | Result | Evidence |'' @ newline @
        ''| --- | --- | --- | --- | --- | --- |'' @ newline @
        concat (map checkpoint_row (sm_checkpoints s))
      else []) @
     concat (map failure_section (filter (\<lambda>r. tr_status r = ''fail'') (sm_tests s))) @
     artifact_index"

subsection \<open>JUnit\<close>

record junit_failure =
  jf_message :: string
  jf_body :: string

record junit_case =
  jc_name :: string
  jc_class_name :: string
  jc_time :: string
  jc_failure :: "junit_failure option"
  jc_skipped :: bool
  jc_output :: string

record junit_suite =
  ju_name :: string
  ju_tests :: nat
  ju_failures :: int
  ju_skipped :: int
  ju_time :: string
  ju_cases :: "junit_case list"

record junit_suites =
  js_name :: string
  js_tests :: nat
  js_failures :: int
  js_skipped :: int
  js_time :: string
  js_suite :: junit_suite

definition junit_case_of :: "test_result \<Rightarrow> junit_case" where
  "junit_case_of r = \<lparr>jc_name = tr_name r, jc_class_name = tr_package r,
     jc_time = fixed 3 (tr_elapsed r),
     jc_failure = (if tr_status r = ''fail''
       then Some \<lparr>jf_message = ''scenario failed'', jf_body = tr_output r\<rparr> else None),
     jc_skipped = (tr_status r = ''skip''), jc_output = tr_output r\<rparr>"

definition toJUnit :: "summary \<Rightarrow> junit_suites" where
  "toJUnit s =
     (let cases = map junit_case_of (sm_tests s);
          suite = \<lparr>ju_name = ''aero-arc-e2e'', ju_tests = length cases, ju_failures = sm_failed s,
            ju_skipped = sm_skipped s, ju_time = fixed 3 (sm_duration s), ju_cases = cases\<rparr>
      in \<lparr>js_name = sm_run_id s, js_tests = length cases, js_failures = sm_failed s,
          js_skipped = sm_skipped s, js_time = fixed 3 (sm_duration s), js_suite = suite\<rparr>)"

subsection \<open>The bundle\<close>

datatype document = SummaryJSON summary | Text string | JUnitXML junit_suites

record 'w files =
  fl_mkdir_all :: "string \<Rightarrow> 'w \<Rightarrow> go_error option \<times> 'w"
  fl_write :: "string \<Rightarrow> string \<Rightarrow> document \<Rightarrow> 'w \<Rightarrow> go_error option \<times> 'w"

definition WriteBundle :: "'w files \<Rightarrow> string \<Rightarrow> summary \<Rightarrow> 'w \<Rightarrow> go_error option \<times> 'w" where
  "WriteBundle fs dir s w = (case fl_mkdir_all fs dir w of
     (Some e, w1) \<Rightarrow> (Some (''create report directory: '' @ e), w1)
   | (None, w1) \<Rightarrow> (case fl_write fs dir ''summary.json'' (SummaryJSON s) w1 of
       (Some e, w2) \<Rightarrow> (Some (''write JSON summary: '' @ e), w2)
     | (None, w2) \<Rightarrow> (case fl_write fs dir ''summary.md'' (Text (markdown s)) w2 of
         (Some e, w3) \<Rightarrow> (Some (''write Markdown summary: '' @ e), w3)
       | (None, w3) \<Rightarrow> (case fl_write fs dir ''junit.xml'' (JUnitXML (toJUnit s)) w3 of
           (Some e, w4) \<Rightarrow> (Some (''write JUnit summary: '' @ e), w4)
         | (None, w4) \<Rightarrow> (None, w4)))))"

text \<open>
  \<open>cmd/e2e-report\<close> after its flags are parsed, as the exit status and what it prints. A
  stream opens to its lines and the error its reader ends with.
\<close>

definition e2e_report ::
  "'w files \<Rightarrow> (string \<Rightarrow> 'w \<Rightarrow> go_error + line list \<times> go_error option) \<Rightarrow> int \<Rightarrow> (results \<Rightarrow> string list) \<Rightarrow>
   string \<Rightarrow> string \<Rightarrow> string \<Rightarrow> 'w \<Rightarrow> (int \<times> string) \<times> 'w" where
  "e2e_report fs open_file now order input output run_id w =
     (if input = [] \<or> output = [] \<or> run_id = []
      then ((2, ''-input, -output, and -run-id are required''), w)
      else case open_file input w of
        Inl e \<Rightarrow> ((1, e), w)
      | Inr (lines, err) \<Rightarrow>
          (case (case Parse now order lines err run_id of
                   Inl e \<Rightarrow> Inl e
                 | Inr s \<Rightarrow> (case open_file (output @ ''/events.jsonl'') w of
                     Inl e \<Rightarrow> Inr s
                   | Inr (lines, err) \<Rightarrow> (case LoadTimeline lines err of
                       Inl e \<Rightarrow> Inl e
                     | Inr events \<Rightarrow> Inr (s\<lparr>sm_checkpoints := events\<rparr>)))) of
             Inl e \<Rightarrow> ((1, e), w)
           | Inr s \<Rightarrow> (case WriteBundle fs output s w of
               (Some e, w') \<Rightarrow> ((1, e), w')
             | (None, w') \<Rightarrow> ((0, ''PASS='' @ int_dec (sm_passed s) @ '' FAIL='' @ int_dec (sm_failed s) @
                 '' SKIP='' @ int_dec (sm_skipped s) @ '' report='' @ output), w'))))"

subsection \<open>Table cells\<close>

text \<open>Every bar is escaped: the character before it is a backslash.\<close>

fun bars_escaped :: "char \<Rightarrow> string \<Rightarrow> bool" where
  "bars_escaped p [] = True"
| "bars_escaped p (c # cs) = ((c = CHR ''|'' \<longrightarrow> p = CHR 0x5C) \<and> bars_escaped c cs)"

lemma replace_char_simps [simp]:
  "replace_char c new [] = []"
  "replace_char c new (x # s) = (if x = c then new else [x]) @ replace_char c new s"
  by (simp_all add: replace_char_def)

lemma bars_escaped_bar: "bars_escaped p (replace_char (CHR ''|'') [CHR 0x5C, CHR ''|''] s)"
  by (induction s arbitrary: p) auto

lemma bars_escaped_keep:
  "bars_escaped p s \<Longrightarrow> a \<noteq> CHR 0x5C \<Longrightarrow> b \<noteq> CHR ''|'' \<Longrightarrow>
   (p \<noteq> CHR 0x5C \<or> p' = CHR 0x5C) \<Longrightarrow> bars_escaped p' (replace_char a [b] s)"
  by (induction s arbitrary: p p') auto

lemma replace_char_gone: "c \<notin> set new \<Longrightarrow> c \<notin> set (replace_char c new s)"
  by (induction s) auto

lemma replace_char_other: "x \<notin> set new \<Longrightarrow> x \<notin> set s \<Longrightarrow> x \<notin> set (replace_char c new s)"
  by (induction s) auto

subsection \<open>Properties\<close>

text \<open>
  The JUnit document agrees with itself and with the run: its test count is the number of
  its cases, and its failure and skip counts are the numbers of cases marked so.
\<close>

theorem junit_counts_agree:
  assumes "Parse now order lines err run_id = Inr s"
  shows "js_tests (toJUnit s) = length (ju_cases (js_suite (toJUnit s))) \<and>
    js_failures (toJUnit s) = int (length (filter (\<lambda>c. jc_failure c \<noteq> None) (ju_cases (js_suite (toJUnit s))))) \<and>
    js_skipped (toJUnit s) = int (length (filter jc_skipped (ju_cases (js_suite (toJUnit s))))) \<and>
    ju_failures (js_suite (toJUnit s)) = js_failures (toJUnit s)"
proof -
  have fail: "length (filter (\<lambda>c. jc_failure c \<noteq> None) (map junit_case_of rs)) =
      length (filter (\<lambda>r. tr_status r = ''fail'') rs)" for rs
    by (induction rs) (auto simp: junit_case_of_def)
  have skip: "length (filter jc_skipped (map junit_case_of rs)) =
      length (filter (\<lambda>r. tr_status r = ''skip'') rs)" for rs
    by (induction rs) (auto simp: junit_case_of_def)
  show ?thesis
    unfolding toJUnit_def Let_def junit_suites.simps junit_suite.simps fail skip
    using Parse_counts [OF assms] by (simp add: with_status_def)
qed

theorem junit_counts_agree_witness:
  "\<exists>s. Parse 0 parent_failure_order parent_failure_lines None ''r'' = Inr s \<and>
     js_failures (toJUnit s) = int (length (filter (\<lambda>c. jc_failure c \<noteq> None) (ju_cases (js_suite (toJUnit s)))))"
  using parent_failure_parses junit_counts_agree by blast

text \<open>
  Evidence cannot break its table. Whatever the details hold, their cell is one code span
  without a line break, a second backtick or an unescaped bar.
\<close>

theorem details_cell_intact:
  assumes "details \<noteq> []"
  shows "\<exists>body. markdownDetails details = tick @ body @ tick \<and>
    CHR 0x60 \<notin> set body \<and> CHR 0x0A \<notin> set body \<and> bars_escaped (CHR 0x60) body"
proof -
  let ?a = "replace_char (CHR ''|'') [CHR 0x5C, CHR ''|''] (json_text (JObj details))"
  let ?b = "replace_char (CHR 0x0A) '' '' ?a"
  let ?c = "replace_char (CHR 0x60) [CHR 0x27] ?b"
  have "bars_escaped (CHR 0x60) ?b"
    by (rule bars_escaped_keep [OF bars_escaped_bar [of "CHR 0x60"]]) simp_all
  then have "bars_escaped (CHR 0x60) ?c" by (rule bars_escaped_keep) simp_all
  moreover have "CHR 0x0A \<notin> set ?c" by (intro replace_char_other replace_char_gone) simp_all
  moreover have "CHR 0x60 \<notin> set ?c" by (intro replace_char_gone) simp
  ultimately show ?thesis using assms
    by (intro exI [of _ ?c]) (simp add: markdownDetails_def Let_def del: json_text.simps)
qed

theorem details_cell_intact_witness:
  "\<exists>body. markdownDetails [(''error'', JStr ''a|b'')] = tick @ body @ tick \<and>
     bars_escaped (CHR 0x60) body"
  using details_cell_intact [of "[(''error'', JStr ''a|b'')]"] by auto

text \<open>A directory that keeps what was written, and fails once it holds a given number of files.\<close>

definition limited_files :: "nat \<Rightarrow> (string \<times> document) list files" where
  "limited_files n = \<lparr>fl_mkdir_all = (\<lambda>dir w. (None, w)),
     fl_write = (\<lambda>dir name d w. if length w < n then (None, w @ [(name, d)])
       else (Some ''no space left on device'', w))\<rparr>"

text \<open>
  A bundle is reported as written exactly when all three documents of the same summary are
  there; after a failed write none of the later ones is.
\<close>

theorem bundle_all_or_error:
  "case WriteBundle (limited_files n) dir s [] of (err, written) \<Rightarrow>
     written = take n [(''summary.json'', SummaryJSON s), (''summary.md'', Text (markdown s)),
       (''junit.xml'', JUnitXML (toJUnit s))] \<and>
     (err = None \<longleftrightarrow> length written = 3)"
proof -
  consider "n = 0" | "n = 1" | "n = 2" | "3 \<le> n" by linarith
  then show ?thesis
    by cases (simp_all add: WriteBundle_def limited_files_def numeral_2_eq_2)
qed

end
