(* ===== verification/Repeat_Report.thy ===== *)
theory Repeat_Report
  imports Report_Parsing
begin

section \<open>The repeatability report\<close>

text \<open>
  \<open>cmd/e2e-repeat-report\<close>: the summaries of many runs aggregated by scenario. A directory
  entry carries what reading its \<open>summary.json\<close> gives.
\<close>

subsection \<open>Data\<close>

record repeat_test =
  rp_name :: string
  rp_status :: string
  rp_elapsed :: rat

record run_summary =
  ru_run_id :: string
  ru_passed :: int
  ru_failed :: int
  ru_skipped :: int
  ru_duration :: rat
  ru_tests :: "repeat_test list"

record scenario_aggregate =
  ag_name :: string
  ag_executions :: int
  ag_passed :: int
  ag_failed :: int
  ag_p95_seconds :: rat
  ag_max_seconds :: rat
  ag_durations :: "rat list"

record repeat_summary =
  rs_generated_at :: int
  rs_runs :: int
  rs_passing_runs :: int
  rs_failing_runs :: int
  rs_scenario_executions :: int
  rs_scenarios :: "scenario_aggregate list"
  rs_failed_run_ids :: "string list"

definition repeat_test_field :: "string \<Rightarrow> jval \<Rightarrow> repeat_test \<Rightarrow> decode_error + repeat_test" where
  "repeat_test_field k v t =
     (if names_field k ''name'' then assign (dec_string ''.tests.name'' (rp_name t) v) (\<lambda>x. t\<lparr>rp_name := x\<rparr>)
      else if names_field k ''status'' then
        assign (dec_string ''.tests.status'' (rp_status t) v) (\<lambda>x. t\<lparr>rp_status := x\<rparr>)
      else if names_field k ''elapsed_seconds'' then
        assign (dec_float ''.tests.elapsed_seconds'' (rp_elapsed t) v) (\<lambda>x. t\<lparr>rp_elapsed := x\<rparr>)
      else Inr t)"

definition decode_repeat_test :: "jval \<Rightarrow> decode_error + repeat_test" where
  "decode_repeat_test = dec_struct ''.tests'' ''main.testResult'' repeat_test_field
     \<lparr>rp_name = [], rp_status = [], rp_elapsed = 0\<rparr>"

definition run_field :: "string \<Rightarrow> jval \<Rightarrow> run_summary \<Rightarrow> decode_error + run_summary" where
  "run_field k v r =
     (if names_field k ''run_id'' then
        assign (dec_string ''runSummary.run_id'' (ru_run_id r) v) (\<lambda>x. r\<lparr>ru_run_id := x\<rparr>)
      else if names_field k ''passed'' then
        assign (dec_int ''runSummary.passed'' (ru_passed r) v) (\<lambda>x. r\<lparr>ru_passed := x\<rparr>)
      else if names_field k ''failed'' then
        assign (dec_int ''runSummary.failed'' (ru_failed r) v) (\<lambda>x. r\<lparr>ru_failed := x\<rparr>)
      else if names_field k ''skipped'' then
        assign (dec_int ''runSummary.skipped'' (ru_skipped r) v) (\<lambda>x. r\<lparr>ru_skipped := x\<rparr>)
      else if names_field k ''duration_seconds'' then
        assign (dec_float ''runSummary.duration_seconds'' (ru_duration r) v) (\<lambda>x. r\<lparr>ru_duration := x\<rparr>)
      else if names_field k ''tests'' then
        assign (dec_slice ''runSummary.tests'' ''[]main.testResult'' decode_repeat_test v)
          (\<lambda>x. r\<lparr>ru_tests := x\<rparr>)
      else Inr r)"

definition decode_run :: "jval \<Rightarrow> decode_error + run_summary" where
  "decode_run = dec_struct [] ''main.runSummary'' run_field
     \<lparr>ru_run_id = [], ru_passed = 0, ru_failed = 0, ru_skipped = 0, ru_duration = 0, ru_tests = []\<rparr>"

record dir_entry =
  de_name :: string
  de_is_dir :: bool
  de_summary :: "go_error + (string + jval)"

subsection \<open>The 95th percentile\<close>

text \<open>
  \<open>float64(n) * 0.95\<close>: the constant is the double 8556839292003942 / 2^53, and the product of
  two doubles is the exact product rounded to 53 significant bits, ties to even. For n below
  2^53 the conversion of n is exact, so the product is an integer over 2^53.
\<close>

definition p95_numerator :: nat where
  "p95_numerator = 8556839292003942"

fun bit_length :: "nat \<Rightarrow> nat" where
  "bit_length n = (if n = 0 then 0 else Suc (bit_length (n div 2)))"

declare bit_length.simps [simp del]

definition round53 :: "nat \<Rightarrow> nat" where
  "round53 p =
     (let len = bit_length p in
      if len \<le> 53 then p
      else
        (let unit = 2 ^ (len - 53); q = p div unit; r = p mod unit
         in (if 2 * r < unit then q else if unit < 2 * r then q + 1
             else if even q then q else q + 1) * unit))"

definition p95_index :: "nat \<Rightarrow> int" where
  "p95_index n = int ((round53 (n * p95_numerator) + (2 ^ 53 - 1)) div 2 ^ 53) - 1"

subsection \<open>aggregate\<close>

type_synonym by_scenario = "string \<rightharpoonup> scenario_aggregate"

definition add_test :: "repeat_test \<Rightarrow> by_scenario \<Rightarrow> by_scenario" where
  "add_test t m =
     (let a = (case m (rp_name t) of
            None \<Rightarrow> \<lparr>ag_name = rp_name t, ag_executions = 0, ag_passed = 0, ag_failed = 0,
                     ag_p95_seconds = 0, ag_max_seconds = 0, ag_durations = []\<rparr>
          | Some a \<Rightarrow> a);
          a = a\<lparr>ag_executions := ag_executions a + 1, ag_durations := ag_durations a @ [rp_elapsed t]\<rparr>;
          a = (if rp_status t = ''pass'' then a\<lparr>ag_passed := ag_passed a + 1\<rparr>
               else if rp_status t = ''fail'' then a\<lparr>ag_failed := ag_failed a + 1\<rparr> else a)
      in m(rp_name t \<mapsto> a))"

definition add_run :: "run_summary \<Rightarrow> repeat_summary \<times> by_scenario \<Rightarrow> repeat_summary \<times> by_scenario" where
  "add_run run = (\<lambda>(s, m).
     let s = s\<lparr>rs_runs := rs_runs s + 1\<rparr>;
         s = (if ru_failed run = 0 then s\<lparr>rs_passing_runs := rs_passing_runs s + 1\<rparr>
              else s\<lparr>rs_failing_runs := rs_failing_runs s + 1,
                     rs_failed_run_ids := rs_failed_run_ids s @ [ru_run_id run]\<rparr>)
     in (s\<lparr>rs_scenario_executions := rs_scenario_executions s + int (length (ru_tests run))\<rparr>,
         fold add_test (ru_tests run) m))"

fun add_entries :: "dir_entry list \<Rightarrow> repeat_summary \<times> by_scenario \<Rightarrow> go_error + repeat_summary \<times> by_scenario" where
  "add_entries [] st = Inr st"
| "add_entries (e # es) st =
     (if \<not> de_is_dir e then add_entries es st
      else case de_summary e of
        Inl err \<Rightarrow> add_entries es st
      | Inr payload \<Rightarrow> (case decode_stream decode_run payload of
          Inl err \<Rightarrow> Inl (''decode '' @ de_name e @ '' summary: '' @ decode_error_text err)
        | Inr run \<Rightarrow> add_entries es (add_run run st)))"

definition finish_scenario :: "scenario_aggregate \<Rightarrow> scenario_aggregate" where
  "finish_scenario a =
     (let ds = sort (ag_durations a)
      in a\<lparr>ag_durations := ds, ag_max_seconds := ds ! (length ds - 1),
           ag_p95_seconds := ds ! nat (p95_index (length ds))\<rparr>)"

definition sort_scenarios :: "scenario_aggregate list \<Rightarrow> scenario_aggregate list" where
  "sort_scenarios = sort_key ag_name"

definition aggregate ::
  "int \<Rightarrow> (by_scenario \<Rightarrow> string list) \<Rightarrow> string \<Rightarrow> go_error + dir_entry list \<Rightarrow> go_error + repeat_summary" where
  "aggregate now order dir entries = (case entries of
     Inl e \<Rightarrow> Inl (''read repeat directory: '' @ e)
   | Inr es \<Rightarrow>
       (case add_entries es (\<lparr>rs_generated_at = now, rs_runs = 0, rs_passing_runs = 0, rs_failing_runs = 0,
               rs_scenario_executions = 0, rs_scenarios = [], rs_failed_run_ids = []\<rparr>, Map.empty) of
          Inl e \<Rightarrow> Inl e
        | Inr (s, m) \<Rightarrow>
            (if rs_runs s = 0 then Inl (''no run summaries found in '' @ dir)
             else Inr (s\<lparr>rs_scenarios := sort_scenarios (map finish_scenario (range_vals (order m) m)),
                        rs_failed_run_ids := sort (rs_failed_run_ids s)\<rparr>))))"

text \<open>
  \<open>write\<close> and the command itself after its flags are parsed, with its exit status and what it
  prints; the two files are behind the writer.
\<close>

definition repeat_row :: "scenario_aggregate \<Rightarrow> string" where
  "repeat_row a = ''| '' @ [CHR 0x60] @ ag_name a @ [CHR 0x60] @ '' | '' @ int_dec (ag_executions a) @ '' | '' @
     int_dec (ag_passed a) @ '' | '' @ int_dec (ag_failed a) @ '' | '' @ fixed 2 (ag_p95_seconds a) @ ''s | '' @
     fixed 2 (ag_max_seconds a) @ ''s |'' @ [CHR 0x0A]"

definition repeat_markdown :: "repeat_summary \<Rightarrow> string" where
  "repeat_markdown s =
     (let nl = [CHR 0x0A]; tick = [CHR 0x60] in
      ''# E2E repeatability report'' @ nl @ nl @
      ''- Runs: **'' @ int_dec (rs_runs s) @ ''**'' @ nl @
      ''- Passing runs: **'' @ int_dec (rs_passing_runs s) @ ''**'' @ nl @
      ''- Failing runs: **'' @ int_dec (rs_failing_runs s) @ ''**'' @ nl @
      ''- Scenario executions: **'' @ int_dec (rs_scenario_executions s) @ ''**'' @ nl @ nl @
      ''| Scenario | Executions | Passed | Failed | p95 | Max |'' @ nl @
      ''| --- | ---: | ---: | ---: | ---: | ---: |'' @ nl @
      concat (map repeat_row (rs_scenarios s)) @
      (if rs_failed_run_ids s \<noteq> []
       then nl @ ''## Failed runs'' @ nl @ nl @
         concat (map (\<lambda>r. ''- '' @ tick @ r @ tick @ nl) (rs_failed_run_ids s))
       else []))"

datatype repeat_document = RepeatJSON repeat_summary | RepeatText string

definition write_repeat ::
  "(string \<Rightarrow> string \<Rightarrow> repeat_document \<Rightarrow> 'w \<Rightarrow> go_error option \<times> 'w) \<Rightarrow> string \<Rightarrow> repeat_summary \<Rightarrow> 'w \<Rightarrow> go_error option \<times> 'w" where
  "write_repeat write_file dir s w = (case write_file dir ''repeat-summary.json'' (RepeatJSON s) w of
     (Some e, w') \<Rightarrow> (Some e, w')
   | (None, w') \<Rightarrow> write_file dir ''repeat-summary.md'' (RepeatText (repeat_markdown s)) w')"

definition e2e_repeat_report ::
  "(string \<Rightarrow> string \<Rightarrow> repeat_document \<Rightarrow> 'w \<Rightarrow> go_error option \<times> 'w) \<Rightarrow>
   (string \<Rightarrow> 'w \<Rightarrow> go_error + dir_entry list) \<Rightarrow> int \<Rightarrow> (by_scenario \<Rightarrow> string list) \<Rightarrow> string \<Rightarrow> 'w \<Rightarrow> (int \<times> string) \<times> 'w" where
  "e2e_repeat_report write_file read_dir now order input w =
     (if input = [] then ((2, ''-input is required''), w)
      else case aggregate now order input (read_dir input w) of
        Inl e \<Rightarrow> ((1, e), w)
      | Inr s \<Rightarrow> (case write_repeat write_file input s w of
          (Some e, w') \<Rightarrow> ((1, e), w')
        | (None, w') \<Rightarrow> ((0, ''repeatability: runs='' @ int_dec (rs_runs s) @ '' passing='' @
            int_dec (rs_passing_runs s) @ '' failing='' @ int_dec (rs_failing_runs s) @ '' report='' @
            input @ ''/repeat-summary.md''), w')))"

interpretation scenarios: slice_sorter ag_name sort_scenarios
  by unfold_locales (simp_all add: sort_scenarios_def)

subsection \<open>The percentile is the nearest rank\<close>

lemma bit_length_bounds: "0 < n \<Longrightarrow> 2 ^ (bit_length n - 1) \<le> n \<and> n < 2 ^ bit_length n"
proof (induction n rule: bit_length.induct)
  case (1 n)
  show ?case
  proof (cases "n div 2 = 0")
    case True
    with "1.prems" have "n = 1" by simp
    then show ?thesis by (simp add: bit_length.simps [of "Suc 0"] bit_length.simps [of 0])
  next
    case False
    with "1" have ih: "2 ^ (bit_length (n div 2) - 1) \<le> n div 2 \<and> n div 2 < 2 ^ bit_length (n div 2)"
      by simp
    have pos: "0 < bit_length (n div 2)" using False by (simp add: bit_length.simps [of "n div 2"])
    have len: "bit_length n = Suc (bit_length (n div 2))"
      using "1.prems" by (simp add: bit_length.simps [of n])
    from pos have "2 ^ bit_length (n div 2) = 2 * (2::nat) ^ (bit_length (n div 2) - 1)"
      by (metis Suc_diff_1 power_Suc)
    with ih len show ?thesis by simp linarith
  qed
qed

lemma round53_near:
  assumes "0 < p"
  obtains u where "u dvd round53 p" "2 * round53 p \<le> 2 * p + u" "2 * p \<le> 2 * round53 p + u"
    "\<And>t. u dvd t \<Longrightarrow> p \<le> t \<Longrightarrow> round53 p \<le> t" "u = 2 ^ (bit_length p - 53)"
proof (cases "bit_length p \<le> 53")
  case True
  then show thesis by (intro that [of 1]) (simp_all add: round53_def Let_def)
next
  case False
  define u q r where d: "u = (2::nat) ^ (bit_length p - 53)" "q = p div u" "r = p mod u"
  have u: "0 < u" "r < u" by (simp_all add: d)
  have "p = q * u + r" unfolding d(2,3) by (rule div_mult_mod_eq [symmetric])
  note u = u this
  define v where "v = (if 2 * r < u then q else if u < 2 * r then q + 1 else if even q then q else q + 1)"
  have round: "round53 p = v * u" using False by (simp add: round53_def Let_def d v_def)
  have v: "v = q \<and> 2 * r \<le> u \<or> v = Suc q \<and> u \<le> 2 * r" by (auto simp: v_def)
  show thesis
  proof (rule that [of u])
    show "u dvd round53 p" by (simp add: round)
    show "2 * round53 p \<le> 2 * p + u" "2 * p \<le> 2 * round53 p + u"
      unfolding round using v u by (auto simp: algebra_simps)
    show "u = 2 ^ (bit_length p - 53)" by (simp add: d)
    show "round53 p \<le> t" if t: "u dvd t" "p \<le> t" for t
    proof -
      obtain k where k: "t = u * k" using t(1) by (rule dvdE)
      have "q \<le> k"
        using t(2) u k by (metis add_leE mult.commute mult_le_cancel2 nat_mult_le_cancel1)
      moreover have "Suc q \<le> k" if "0 < r"
      proof (rule ccontr)
        assume "\<not> Suc q \<le> k"
        then have "u * k \<le> u * q" by (intro mult_le_mono2) simp
        with t(2) k u(3) that show False by (metis add_le_same_cancel1 leD le_trans mult.commute)
      qed
      ultimately have "v \<le> k" using v u(1) by (cases "0 < r") auto
      then show ?thesis by (simp add: round k mult.commute)
    qed
  qed
qed

lemma p95_index_exact:
  assumes "0 < n" and "n < 2 ^ 48"
  shows "p95_index n = int ((19 * n + 19) div 20) - 1"
proof -
  define p where "p = n * p95_numerator"
  have p: "20 * p + 8 * n = 19 * n * 2 ^ 53" "0 < p"
    using assms(1) by (simp_all add: p_def p95_numerator_def)
  obtain u where u: "2 * round53 p \<le> 2 * p + u" "2 * p \<le> 2 * round53 p + u"
    "\<And>t. u dvd t \<Longrightarrow> p \<le> t \<Longrightarrow> round53 p \<le> t" "u = 2 ^ (bit_length p - 53)"
    using round53_near [OF p(2)] by metis
  have len: "2 ^ (bit_length p - 1) \<le> p" "p < 2 ^ bit_length p"
    using bit_length_bounds [OF p(2)] by simp_all
  have "p < 2 ^ 101" using p(1) assms(2) by simp
  with len(1) have "(2::nat) ^ (bit_length p - 1) < 2 ^ 101" by (rule le_less_trans)
  then have "bit_length p - 1 < 101" by (rule power_less_imp_less_exp [rotated]) simp
  then have short: "bit_length p - 53 \<le> 53" by simp
  have un: "u \<le> 2 * n"
  proof (cases "bit_length p \<le> 53")
    case True
    then show ?thesis using u(4) assms(1) by simp
  next
    case False
    then have "(2::nat) ^ (bit_length p - 1) = 2 ^ 52 * u"
      unfolding u(4) power_add [symmetric] by (rule_tac arg_cong [where f = "(^) 2"]) simp
    with len(1) p(1) show ?thesis by simp
  qed
  define k j where kj: "k = n div 20" "j = n mod 20"
  have n: "n = 20 * k + j" and j: "j < 20" by (simp_all add: kj)
  have c: "(19 * n + 19) div 20 = 19 * k + j"
    by (rule div_nat_eqI) (use n j in simp_all)
  have up: "round53 p \<le> (19 * k + j) * 2 ^ 53"
  proof (cases "j = 0")
    case True
    have "u dvd 2 ^ 53" unfolding u(4) by (rule le_imp_power_dvd [OF short])
    then have "u dvd (19 * k + j) * 2 ^ 53" by (rule dvd_mult)
    moreover have "p \<le> (19 * k + j) * 2 ^ 53" using p(1) n True by simp
    ultimately show ?thesis by (rule u(3))
  next
    case False
    then show ?thesis using u(1) un p(1) n j assms(2) by simp
  qed
  have low: "(19 * k + j) * 2 ^ 53 < round53 p + 2 ^ 53"
    using u(2) un p(1) n j assms(2) by simp
  have "(round53 p + (2 ^ 53 - 1)) div 2 ^ 53 = 19 * k + j"
    by (rule div_nat_eqI) (use up low in simp_all)
  then show ?thesis by (simp add: p95_index_def p_def c)
qed

subsection \<open>Aggregation in closed form\<close>

definition aggregate_of :: "string \<Rightarrow> repeat_test list \<Rightarrow> scenario_aggregate option" where
  "aggregate_of name ts =
     (let mine = filter (\<lambda>t. rp_name t = name) ts in
      if mine = [] then None
      else Some \<lparr>ag_name = name, ag_executions = int (length mine),
        ag_passed = int (length (filter (\<lambda>t. rp_status t = ''pass'') mine)),
        ag_failed = int (length (filter (\<lambda>t. rp_status t = ''fail'') mine)),
        ag_p95_seconds = 0, ag_max_seconds = 0, ag_durations = map rp_elapsed mine\<rparr>)"

lemma aggregate_of_snoc: "(\<lambda>name. aggregate_of name (ts @ [t])) = add_test t (\<lambda>name. aggregate_of name ts)"
  by (rule ext) (auto simp: aggregate_of_def add_test_def Let_def filter_empty_conv)

lemma fold_add_test:
  "fold add_test us (\<lambda>name. aggregate_of name ts) = (\<lambda>name. aggregate_of name (ts @ us))"
proof (induction us arbitrary: ts)
  case (Cons u us)
  show ?case using Cons.IH [of "ts @ [u]"] by (simp add: aggregate_of_snoc)
qed simp

definition all_tests :: "run_summary list \<Rightarrow> repeat_test list" where
  "all_tests runs = concat (map ru_tests runs)"

definition failing :: "run_summary list \<Rightarrow> run_summary list" where
  "failing runs = filter (\<lambda>r. ru_failed r \<noteq> 0) runs"

definition tally :: "int \<Rightarrow> run_summary list \<Rightarrow> repeat_summary \<times> by_scenario" where
  "tally now runs = (\<lparr>rs_generated_at = now, rs_runs = int (length runs),
     rs_passing_runs = int (length runs) - int (length (failing runs)),
     rs_failing_runs = int (length (failing runs)),
     rs_scenario_executions = int (length (all_tests runs)), rs_scenarios = [],
     rs_failed_run_ids = map ru_run_id (failing runs)\<rparr>,
     \<lambda>name. aggregate_of name (all_tests runs))"

lemma tally_snoc: "add_run run (tally now runs) = tally now (runs @ [run])"
  by (simp add: add_run_def tally_def failing_def all_tests_def Let_def fold_add_test)

text \<open>The runs whose summary was read, in directory order.\<close>

fun readable :: "dir_entry list \<Rightarrow> (string \<times> (string + jval)) list" where
  "readable [] = []"
| "readable (e # es) =
     (case de_summary e of
        Inl err \<Rightarrow> readable es
      | Inr payload \<Rightarrow> if de_is_dir e then (de_name e, payload) # readable es else readable es)"

definition runs_decoded :: "dir_entry list \<Rightarrow> run_summary list \<Rightarrow> bool" where
  "runs_decoded es runs \<longleftrightarrow> list_all2 (\<lambda>x r. decode_stream decode_run (snd x) = Inr r) (readable es) runs"

lemma add_entries_tally:
  "runs_decoded es runs \<Longrightarrow> add_entries es (tally now pre) = Inr (tally now (pre @ runs))"
proof (induction es arbitrary: runs pre)
  case (Cons e es)
  show ?case
  proof (cases "de_summary e")
    case (Inl err)
    with Cons show ?thesis by (simp add: runs_decoded_def)
  next
    case (Inr payload)
    show ?thesis
    proof (cases "de_is_dir e")
      case True
      with Inr Cons.prems obtain r rest where r: "runs = r # rest"
        "decode_stream decode_run payload = Inr r" "runs_decoded es rest"
        by (auto simp: runs_decoded_def list_all2_Cons1)
      with True Inr Cons.IH [OF r(3), of "pre @ [r]"] show ?thesis by (simp add: tally_snoc)
    next
      case False
      with Inr Cons show ?thesis by (simp add: runs_decoded_def)
    qed
  qed
qed (simp add: runs_decoded_def)

lemma aggregate_tally:
  assumes "runs_decoded es runs" and "runs \<noteq> []"
  shows "aggregate now order dir (Inr es) =
    (let m = (\<lambda>name. aggregate_of name (all_tests runs)) in
     Inr ((fst (tally now runs))\<lparr>rs_scenarios := sort_scenarios (map finish_scenario (range_vals (order m) m)),
       rs_failed_run_ids := sort (map ru_run_id (failing runs))\<rparr>))"
proof -
  let ?zero = "\<lparr>rs_generated_at = now, rs_runs = 0, rs_passing_runs = 0, rs_failing_runs = 0,
      rs_scenario_executions = 0, rs_scenarios = [], rs_failed_run_ids = []\<rparr>"
  have zero: "tally now [] = (?zero, Map.empty)"
    by (simp add: tally_def failing_def all_tests_def aggregate_of_def)
  have "add_entries es (?zero, Map.empty) = Inr (tally now runs)"
    using add_entries_tally [OF assms(1), of now "[]"] unfolding zero append_Nil .
  with assms(2) show ?thesis
    by (simp add: aggregate_def Let_def tally_def)
qed

subsection \<open>Properties\<close>

text \<open>
  C27: the percentile is the nearest rank, in spite of floating point: for any number of
  durations below 2^48 the index computed with rounded doubles is in range, at least 95
  percent of the durations are at most the value there, and fewer are at most any smaller
  duration.
\<close>

theorem p95_is_nearest_rank:
  fixes ds :: "rat list"
  assumes "ds \<noteq> []" and "length ds < 2 ^ 48"
  shows "0 \<le> p95_index (length ds) \<and> p95_index (length ds) < int (length ds) \<and>
    (let p95 = sort ds ! nat (p95_index (length ds)) in
       p95 \<in> set ds \<and>
       19 * length ds \<le> 20 * length (filter (\<lambda>d. d \<le> p95) ds) \<and>
       (\<forall>x<p95. 20 * length (filter (\<lambda>d. d \<le> x) ds) < 19 * length ds))"
proof -
  define n where "n = length ds"
  define c where "c = (19 * n + 19) div 20"
  define i where "i = c - 1"
  have n: "0 < n" using assms(1) by (simp add: n_def)
  have "20 * c + (19 * n + 19) mod 20 = 19 * n + 19" by (simp add: c_def)
  moreover have "(19 * n + 19) mod 20 < 20" by simp
  ultimately have c: "20 * c \<le> 19 * n + 19" "19 * n < 20 * c + 1" by linarith+
  with n have pos: "1 \<le> c" by linarith
  have idx: "p95_index n = int i"
    using p95_index_exact [of n] n assms(2) pos by (simp add: n_def i_def c_def of_nat_diff)
  have i: "i < n" "19 * n \<le> 20 * Suc i" "20 * i < 19 * n"
  proof -
    have "c = Suc i" using pos by (simp add: i_def)
    with c n show "i < n" "19 * n \<le> 20 * Suc i" "20 * i < 19 * n" by simp_all
  qed
  let ?s = "sort ds"
  have len: "length ?s = n" by (simp add: n_def)
  have count: "length (filter P ds) = card {j. j < n \<and> P (?s ! j)}" for P
  proof -
    have "length (filter P ds) = length (filter P ?s)"
      by (metis mset_filter mset_sort size_mset)
    then show ?thesis by (simp add: length_filter_conv_card n_def)
  qed
  have "Suc i \<le> length (filter (\<lambda>d. d \<le> ?s ! i) ds)"
  proof -
    have "{..i} \<subseteq> {j. j < n \<and> ?s ! j \<le> ?s ! i}"
      using i(1) by (auto simp: n_def intro!: sorted_nth_mono)
    then have "card {..i} \<le> card {j. j < n \<and> ?s ! j \<le> ?s ! i}" by (intro card_mono) auto
    then show ?thesis by (simp add: count)
  qed
  moreover have "length (filter (\<lambda>d. d \<le> x) ds) \<le> i" if "x < ?s ! i" for x
  proof -
    have "j < i" if "j < n" "?s ! j \<le> x" for j
    proof (rule ccontr)
      assume "\<not> j < i"
      then have "?s ! i \<le> ?s ! j" using that by (intro sorted_nth_mono) (simp_all add: n_def)
      with that \<open>x < ?s ! i\<close> show False by simp
    qed
    then have "{j. j < n \<and> ?s ! j \<le> x} \<subseteq> {..<i}" by auto
    then have "card {j. j < n \<and> ?s ! j \<le> x} \<le> card {..<i}" by (intro card_mono) auto
    then show ?thesis by (simp add: count)
  qed
  moreover have "?s ! i \<in> set ds" using i(1) len by (metis nth_mem set_sort)
  ultimately show ?thesis
    unfolding n_def [symmetric] idx Let_def using i by fastforce
qed

theorem p95_is_nearest_rank_witness:
  "sort [3, 1, 2] ! nat (p95_index (length [3, 1, 2 :: rat])) \<in> set [3, 1, 2 :: rat]"
  by (rule p95_is_nearest_rank [unfolded Let_def, THEN conjunct2, THEN conjunct2, THEN conjunct1]) simp_all

text \<open>
  C28: the report is the tally of the runs whose summary could be read: runs and their verdicts,
  one row per scenario name with its executions, passes and failures over all runs, rows and
  failed runs in order; and the order of Go's map does not show.
\<close>

theorem aggregate_is_tally:
  assumes "runs_decoded es runs" and "runs \<noteq> []"
    and "enumerates (order m) m" and "m = (\<lambda>name. aggregate_of name (all_tests runs))"
  shows "\<exists>s. aggregate now order dir (Inr es) = Inr s \<and>
    rs_runs s = int (length runs) \<and> rs_passing_runs s + rs_failing_runs s = rs_runs s \<and>
    rs_failing_runs s = int (length (rs_failed_run_ids s)) \<and>
    rs_failed_run_ids s = sort (map ru_run_id (filter (\<lambda>r. ru_failed r \<noteq> 0) runs)) \<and>
    set (rs_scenarios s) = finish_scenario ` ran m \<and> sorted (map ag_name (rs_scenarios s)) \<and>
    distinct (map ag_name (rs_scenarios s)) \<and>
    (\<forall>order'. enumerates (order' m) m \<longrightarrow> aggregate now order' dir (Inr es) = aggregate now order dir (Inr es))"
proof -
  have name: "ag_name a = k" if "m k = Some a" for k a
    using that by (auto simp: assms(4) aggregate_of_def Let_def split: if_splits)
  have fin [simp]: "ag_name (finish_scenario a) = ag_name a" for a
    by (simp add: finish_scenario_def Let_def)
  have names: "distinct ks \<Longrightarrow> distinct (map ag_name (map finish_scenario (range_vals ks m)))" for ks
  proof (induction ks)
    case (Cons k ks)
    have "m k = Some a \<Longrightarrow> a \<in> set (range_vals ks m) \<Longrightarrow> False" for a
      using Cons.prems name by (auto simp: set_range_vals)
    moreover have "m k = Some a \<Longrightarrow> b \<in> set (range_vals ks m) \<Longrightarrow> ag_name a \<noteq> ag_name b" for a b
      using Cons.prems name by (auto simp: set_range_vals)
    ultimately show ?case using Cons by (auto split: option.splits)
  qed simp
  let ?rows = "\<lambda>order. map finish_scenario (range_vals (order m) m)"
  have rows: "sort_scenarios (?rows order') = sort_scenarios (?rows order)"
    if "enumerates (order' m) m" for order'
  proof (rule scenarios.sorter_order_independent)
    show "mset (?rows order') = mset (?rows order)"
      using enumerates_mset [OF that assms(3)] by simp
    show "inj_on ag_name (set (?rows order'))"
      using names [of "order' m"] that unfolding enumerates_def distinct_map by blast
  qed
  have "distinct (map ag_name (sort_scenarios (?rows order)))"
    using names [of "order m"] assms(3) scenarios.sorter_permutes [of "?rows order"]
    unfolding enumerates_def by (metis mset_eq_imp_distinct_iff mset_map)
  moreover have "set (sort_scenarios (?rows order)) = finish_scenario ` ran m"
    by (simp add: scenarios.sorter_set enumerates_set_range [OF assms(3)])
  ultimately show ?thesis
    using aggregate_tally [OF assms(1,2), of now _ dir] rows scenarios.sorter_ordered [of "?rows order"]
    by (simp add: Let_def assms(4) [symmetric] tally_def failing_def)
qed

definition example_entry :: "string \<Rightarrow> go_error + (string + jval) \<Rightarrow> dir_entry" where
  "example_entry name payload = \<lparr>de_name = name, de_is_dir = True, de_summary = payload\<rparr>"

definition example_run :: "int \<Rightarrow> jval" where
  "example_run fails = JObj [(''run_id'', JStr ''r1''), (''failed'', JInt fails), (''tests'', JArr [JObj
     [(''name'', JStr ''T/a''), (''status'', JStr ''pass''), (''elapsed_seconds'', JInt 2)]])]"

lemma example_run_decoded:
  "in_int64 fails \<Longrightarrow> decode_stream decode_run (Inr (example_run fails)) = Inr \<lparr>ru_run_id = ''r1'', ru_passed = 0,
     ru_failed = fails, ru_skipped = 0, ru_duration = 0,
     ru_tests = [\<lparr>rp_name = ''T/a'', rp_status = ''pass'', rp_elapsed = 2\<rparr>]\<rparr>"
  by (simp add: decode_stream_def decode_run_def example_run_def run_field_def names_field_def
      ascii_lower_def decode_repeat_test_def repeat_test_field_def)

theorem aggregate_is_tally_witness:
  "\<exists>s. aggregate 0 (\<lambda>m. [''T/a'']) ''d'' (Inr [example_entry ''run-1'' (Inr (Inr (example_run 1)))]) = Inr s \<and>
     rs_failing_runs s = 1"
proof -
  let ?es = "[example_entry ''run-1'' (Inr (Inr (example_run 1)))]"
  let ?run = "\<lparr>ru_run_id = ''r1'', ru_passed = 0, ru_failed = 1, ru_skipped = 0, ru_duration = 0,
     ru_tests = [\<lparr>rp_name = ''T/a'', rp_status = ''pass'', rp_elapsed = 2\<rparr>]\<rparr>"
  have d: "runs_decoded ?es [?run]"
    using example_run_decoded [of 1] by (simp add: runs_decoded_def example_entry_def in_int64_def)
  have "enumerates [''T/a''] (\<lambda>name. aggregate_of name (all_tests [?run]))"
    by (auto simp: enumerates_def all_tests_def aggregate_of_def Let_def dom_def)
  from aggregate_is_tally [OF d _ this refl, of 0 "''d''"] show ?thesis by auto
qed

text \<open>
  A run that left no readable \<open>summary.json\<close> is not a failing run, it is no run: adding
  its directory changes nothing in the report.
\<close>

theorem unreadable_run_not_counted:
  assumes "de_summary e = Inl err"
  shows "aggregate now order dir (Inr (es1 @ e # es2)) = aggregate now order dir (Inr (es1 @ es2))"
proof -
  have "add_entries (es1 @ e # es2) st = add_entries (es1 @ es2) st" for st
    using assms by (induction es1 arbitrary: st) (simp_all split: sum.splits)
  then show ?thesis by (simp add: aggregate_def)
qed

theorem unreadable_run_not_counted_witness:
  "aggregate 0 (\<lambda>m. [''T/a'']) ''d'' (Inr ([example_entry ''run-1'' (Inr (Inr (example_run 0)))] @
       example_entry ''run-2'' (Inl ''no such file'') # [])) =
   aggregate 0 (\<lambda>m. [''T/a'']) ''d'' (Inr ([example_entry ''run-1'' (Inr (Inr (example_run 0)))] @ []))"
  by (rule unreadable_run_not_counted) (simp add: example_entry_def)

end
