(* ===== verification/Orchestration.thy ===== *)
theory Orchestration
  imports Toxiproxy
begin

section \<open>Containers, files and fallible steps\<close>

text \<open>
  What the two environments are built from. Docker (through testcontainers), the file system
  and the network are third-party: they are the fields of \<open>machine\<close>, over a world type \<open>'w\<close>
  and container handles \<open>'c\<close>. A call runs under the context its caller passed; contexts are
  part of the world and not shown. \<open>mc_create\<close> is \<open>GenericContainer\<close> with \<open>Started\<close> set: it
  may fail and still return the container it created.
\<close>

subsection \<open>Requests\<close>

datatype wait_strategy = WaitHTTP string string int | WaitListening string int | WaitExit int
  | WaitLog string | WaitExec "string list" | WaitAll "wait_strategy list" int

record image_build =
  ib_context :: string
  ib_dockerfile :: string
  ib_repo :: string
  ib_tag :: string
  ib_keep_image :: bool

record container_file =
  cf_host_path :: string
  cf_container_path :: string
  cf_mode :: int

text \<open>Maps of strings are lists of pairs.\<close>

record container_request =
  cr_image :: string
  cr_build :: "image_build option"
  cr_cmd :: "string list"
  cr_env :: "(string \<times> string) list"
  cr_files :: "container_file list"
  cr_ports :: "string list"
  cr_labels :: "(string \<times> string) list"
  cr_wait :: wait_strategy
  cr_networks :: "string list"
  cr_aliases :: "(string \<times> string list) list"

definition request_zero :: container_request where
  "request_zero = \<lparr>cr_image = [], cr_build = None, cr_cmd = [], cr_env = [], cr_files = [],
     cr_ports = [], cr_labels = [], cr_wait = WaitAll [] 0, cr_networks = [], cr_aliases = []\<rparr>"

record ('c, 'w) machine =
  mc_new_network :: "(string \<times> string) list \<Rightarrow> 'w \<Rightarrow> (go_error + string) \<times> 'w"
  mc_remove_network :: "string \<Rightarrow> 'w \<Rightarrow> go_error option \<times> 'w"
  mc_create :: "container_request \<Rightarrow> 'w \<Rightarrow> (('c option \<times> go_error) + 'c) \<times> 'w"
  mc_terminate :: "'c \<Rightarrow> 'w \<Rightarrow> go_error option \<times> 'w"
  mc_stop :: "'c \<Rightarrow> int \<Rightarrow> 'w \<Rightarrow> go_error option \<times> 'w"
  mc_start :: "'c \<Rightarrow> 'w \<Rightarrow> go_error option \<times> 'w"
  mc_is_running :: "'c \<Rightarrow> 'w \<Rightarrow> bool"
  mc_exit_code :: "'c \<Rightarrow> 'w \<Rightarrow> go_error + int"
  mc_host :: "'c \<Rightarrow> 'w \<Rightarrow> go_error + string"
  mc_mapped_port :: "'c \<Rightarrow> string \<Rightarrow> 'w \<Rightarrow> go_error + string"
  mc_logs :: "'c \<Rightarrow> 'w \<Rightarrow> (go_error + string) \<times> 'w"
  mc_stat :: "string \<Rightarrow> 'w \<Rightarrow> go_error option"
  mc_mkdir_all :: "string \<Rightarrow> 'w \<Rightarrow> go_error option \<times> 'w"
  mc_save :: "string \<Rightarrow> string \<Rightarrow> 'w \<Rightarrow> go_error option \<times> 'w"
  mc_write_json :: "string \<Rightarrow> jval \<Rightarrow> 'w \<Rightarrow> go_error option \<times> 'w"
  mc_http :: "'w client"
  mc_parse_url :: "string \<Rightarrow> go_error + string \<times> string \<times> string"
  mc_now :: "'w \<Rightarrow> int"

text \<open>\<open>filepath.Join\<close> of parts that are clean already.\<close>

definition path_join :: "string list \<Rightarrow> string" where
  "path_join parts = join ''/'' (filter (\<lambda>p. p \<noteq> []) parts)"

subsection \<open>Fallible steps\<close>

text \<open>A step over a state either fails, with the state it left, or hands its result on.\<close>

definition try_then :: "('s \<Rightarrow> (go_error + 'a) \<times> 's) \<Rightarrow> ('a \<Rightarrow> 's \<Rightarrow> (go_error + 'b) \<times> 's) \<Rightarrow> 's \<Rightarrow> (go_error + 'b) \<times> 's" where
  "try_then m k s = (case m s of (Inl e, s') \<Rightarrow> (Inl e, s') | (Inr x, s') \<Rightarrow> k x s')"

definition done_with :: "'a \<Rightarrow> 's \<Rightarrow> (go_error + 'a) \<times> 's" where
  "done_with x s = (Inr x, s)"

text \<open>An assignment to an environment's own record, which is paired with the world.\<close>

definition update_record :: "('r \<Rightarrow> 'r) \<Rightarrow> 'r \<times> 'w \<Rightarrow> (go_error + unit) \<times> ('r \<times> 'w)" where
  "update_record f = (\<lambda>(r, w). (Inr (), (f r, w)))"

text \<open>
  Triples with two outcomes: from a state in \<open>P\<close> the step ends in \<open>Q\<close> of its result, or fails
  in a state in \<open>E\<close>.
\<close>

definition triple :: "('s \<Rightarrow> bool) \<Rightarrow> ('s \<Rightarrow> bool) \<Rightarrow> ('s \<Rightarrow> (go_error + 'a) \<times> 's) \<Rightarrow> ('a \<Rightarrow> 's \<Rightarrow> bool) \<Rightarrow> bool" where
  "triple E P m Q \<longleftrightarrow> (\<forall>s. P s \<longrightarrow> (case m s of (Inl e, s') \<Rightarrow> E s' | (Inr x, s') \<Rightarrow> Q x s'))"

lemma triple_try:
  assumes "triple E P m R" and "\<And>x. triple E (R x) (k x) Q"
  shows "triple E P (try_then m k) Q"
  unfolding triple_def
proof (intro allI impI)
  fix s
  assume "P s"
  obtain r s' where m: "m s = (r, s')" by fastforce
  with assms(1) \<open>P s\<close> have "case r of Inl e \<Rightarrow> E s' | Inr x \<Rightarrow> R x s'"
    unfolding triple_def by (metis (no_types, lifting) case_prod_conv)
  with assms(2) m show "case try_then m k s of (Inl e, s') \<Rightarrow> E s' | (Inr x, s') \<Rightarrow> Q x s'"
    by (cases r) (auto simp: try_then_def triple_def)
qed

lemma triple_done: "(\<And>s. P s \<Longrightarrow> Q x s) \<Longrightarrow> triple E P (done_with x) Q"
  by (simp add: triple_def done_with_def)

lemma triple_Inl: "triple E P m Q \<Longrightarrow> P s \<Longrightarrow> m s = (Inl e, s') \<Longrightarrow> E s'"
  unfolding triple_def by fastforce

lemma triple_Inr: "triple E P m Q \<Longrightarrow> P s \<Longrightarrow> m s = (Inr x, s') \<Longrightarrow> Q x s'"
  unfolding triple_def by fastforce

subsection \<open>Shared operations\<close>

definition start_container ::
  "('c, 'w) machine \<Rightarrow> string \<Rightarrow> string \<Rightarrow> container_request \<Rightarrow> 'w \<Rightarrow> (('c option \<times> go_error) + 'c) \<times> 'w" where
  "start_container m net alias req w =
     mc_create m (req\<lparr>cr_networks := [net], cr_aliases := [(net, [alias])]\<rparr>) w"

definition container_endpoint :: "('c, 'w) machine \<Rightarrow> 'c \<Rightarrow> string \<Rightarrow> string \<Rightarrow> 'w \<Rightarrow> go_error + string" where
  "container_endpoint m c port scheme w = (case mc_host m c w of
     Inl e \<Rightarrow> Inl (''resolve container host: '' @ e)
   | Inr host \<Rightarrow> (case mc_mapped_port m c port w of
       Inl e \<Rightarrow> Inl (''resolve mapped port '' @ port @ '': '' @ e)
     | Inr p \<Rightarrow>
         (let v = host @ '':'' @ p in
          Inr (if scheme \<noteq> [] then scheme @ ''://'' @ v else v))))"

text \<open>\<open>Capture\<close>: every container's log, in order of names; the first error is kept.\<close>

definition first_error :: "go_error option \<Rightarrow> go_error option \<Rightarrow> go_error option" where
  "first_error old new = (case old of None \<Rightarrow> new | Some e \<Rightarrow> Some e)"

fun capture_each ::
  "('c, 'w) machine \<Rightarrow> string \<Rightarrow> (string \<rightharpoonup> 'c) \<Rightarrow> string list \<Rightarrow> go_error option \<Rightarrow> 'w \<Rightarrow> go_error option \<times> 'w" where
  "capture_each m dir containers [] err w = (err, w)"
| "capture_each m dir containers (name # names) err w = (case containers name of
     None \<Rightarrow> capture_each m dir containers names err w
   | Some c \<Rightarrow> (case mc_logs m c w of
       (Inl e, w') \<Rightarrow> capture_each m dir containers names (first_error err (Some e)) w'
     | (Inr content, w') \<Rightarrow> (case mc_save m (path_join [dir, name @ ''.log'']) content w' of
         (e, w'') \<Rightarrow> capture_each m dir containers names (first_error err e) w'')))"

definition capture_logs ::
  "('c, 'w) machine \<Rightarrow> string \<Rightarrow> (string \<rightharpoonup> 'c) \<Rightarrow> string list \<Rightarrow> 'w \<Rightarrow> go_error option \<times> 'w" where
  "capture_logs m artifact_dir containers order w =
     (let dir = path_join [artifact_dir, ''logs''] in
      case mc_mkdir_all m dir w of
        (Some e, w') \<Rightarrow> (Some e, w')
      | (None, w') \<Rightarrow> capture_each m dir containers (sort order) None w')"

text \<open>\<open>Close\<close>: the containers of a fixed list of names, then the network.\<close>

fun terminate_each ::
  "('c, 'w) machine \<Rightarrow> (string \<rightharpoonup> 'c) \<Rightarrow> string list \<Rightarrow> go_error option \<Rightarrow> 'w \<Rightarrow> go_error option \<times> 'w" where
  "terminate_each m containers [] err w = (err, w)"
| "terminate_each m containers (name # names) err w = (case containers name of
     None \<Rightarrow> terminate_each m containers names err w
   | Some c \<Rightarrow> (case mc_terminate m c w of (e, w') \<Rightarrow>
       terminate_each m containers names
         (first_error err (map_option (\<lambda>t. ''terminate '' @ name @ '': '' @ t) e)) w'))"

definition close_all ::
  "('c, 'w) machine \<Rightarrow> string \<Rightarrow> (string \<rightharpoonup> 'c) \<Rightarrow> string option \<Rightarrow> string list \<Rightarrow> 'w \<Rightarrow> go_error option \<times> 'w" where
  "close_all m failure containers net names w =
     (case terminate_each m containers names None w of (err, w1) \<Rightarrow>
      (case net of
         None \<Rightarrow> (err, w1)
       | Some n \<Rightarrow> (case mc_remove_network m n w1 of (e, w2) \<Rightarrow>
           (first_error err (map_option (\<lambda>t. failure @ '': '' @ t) e), w2))))"

subsection \<open>Live containers\<close>

text \<open>
  What the environments rely on: \<open>live\<close> is the set of containers that exist. A successful
  creation adds a new one, a failed one adds at most the container it returns, a termination
  that reports no error removes its container, and nothing else creates or removes any.
\<close>

definition keeps :: "('w \<Rightarrow> 'l) \<Rightarrow> ('w \<Rightarrow> 'a \<times> 'w) \<Rightarrow> bool" where
  "keeps live f \<longleftrightarrow> (\<forall>w. live (snd (f w)) = live w)"

definition creates :: "('w \<Rightarrow> 'c set) \<Rightarrow> ('c, 'w) machine \<Rightarrow> bool" where
  "creates live m \<longleftrightarrow> (\<forall>req w. case mc_create m req w of
     (Inl (None, e), w') \<Rightarrow> live w' = live w
   | (Inl (Some c, e), w') \<Rightarrow> c \<notin> live w \<and> live w' = insert c (live w)
   | (Inr c, w') \<Rightarrow> c \<notin> live w \<and> live w' = insert c (live w))"

definition terminates :: "('w \<Rightarrow> 'c set) \<Rightarrow> ('c, 'w) machine \<Rightarrow> bool" where
  "terminates live m \<longleftrightarrow> (\<forall>c w. case mc_terminate m c w of
     (None, w') \<Rightarrow> live w' = live w - {c} | (Some e, w') \<Rightarrow> live w' = live w)"

definition docker_laws :: "('w \<Rightarrow> 'c set) \<Rightarrow> ('c, 'w) machine \<Rightarrow> bool" where
  "docker_laws live m \<longleftrightarrow> creates live m \<and> terminates live m \<and>
     (\<forall>l. keeps live (mc_new_network m l)) \<and> (\<forall>n. keeps live (mc_remove_network m n)) \<and>
     (\<forall>c g. keeps live (mc_stop m c g)) \<and> (\<forall>c. keeps live (mc_start m c)) \<and>
     (\<forall>c. keeps live (mc_logs m c)) \<and> (\<forall>d. keeps live (mc_mkdir_all m d)) \<and>
     (\<forall>f t. keeps live (mc_save m f t)) \<and> (\<forall>f v. keeps live (mc_write_json m f v)) \<and>
     (\<forall>b rq. keeps live (cl_do (mc_http m) b rq))"

text \<open>Termination never fails; a failed creation leaves nothing behind.\<close>

definition sure_terminate :: "('c, 'w) machine \<Rightarrow> bool" where
  "sure_terminate m \<longleftrightarrow> (\<forall>c w. fst (mc_terminate m c w) = None)"

definition no_orphans :: "('c, 'w) machine \<Rightarrow> bool" where
  "no_orphans m \<longleftrightarrow> (\<forall>req w c e. fst (mc_create m req w) \<noteq> Inl (Some c, e))"

lemma keepsD: "keeps live f \<Longrightarrow> live (snd (f w)) = live w"
  by (simp add: keeps_def)

lemma docker_keeps:
  assumes "docker_laws live m"
  shows "live (snd (mc_new_network m l w)) = live w" "live (snd (mc_remove_network m n w)) = live w"
    "live (snd (mc_stop m c g w)) = live w" "live (snd (mc_start m c w)) = live w"
    "live (snd (mc_logs m c w)) = live w" "live (snd (mc_mkdir_all m d w)) = live w"
    "live (snd (mc_save m f t w)) = live w" "live (snd (mc_write_json m f v w)) = live w"
    "live (snd (cl_do (mc_http m) b rq w)) = live w"
  using assms by (simp_all add: docker_laws_def keepsD)

lemma docker_terminate:
  assumes "docker_laws live m" and "fst (mc_terminate m c w) = None"
  shows "live (snd (mc_terminate m c w)) = live w - {c}"
proof -
  obtain w' where "mc_terminate m c w = (None, w')" using assms(2) by (cases "mc_terminate m c w") simp
  with assms(1) show ?thesis
    unfolding docker_laws_def terminates_def by (metis (mono_tags, lifting) case_prod_conv option.simps(4) snd_conv)
qed

lemma capture_each_live:
  assumes "docker_laws live m"
  shows "live (snd (capture_each m dir containers names err w)) = live w"
proof (induction names arbitrary: err w)
  case (Cons name names)
  show ?case
  proof (cases "containers name")
    case (Some c)
    obtain r w' where "mc_logs m c w = (r, w')" by fastforce
    moreover from this have "live w' = live w" using docker_keeps(5) [OF assms, of c w] by simp
    ultimately show ?thesis
      using Some by (cases r) (simp_all add: Cons.IH case_prod_beta docker_keeps [OF assms])
  qed (simp add: Cons.IH)
qed simp

lemma capture_logs_live:
  assumes "docker_laws live m"
  shows "live (snd (capture_logs m dir containers order w)) = live w"
proof -
  obtain e w' where "mc_mkdir_all m (path_join [dir, ''logs'']) w = (e, w')" by fastforce
  moreover from this have "live w' = live w" using docker_keeps(6) [OF assms] by (metis snd_conv)
  ultimately show ?thesis
    by (cases e) (simp_all add: capture_logs_def capture_each_live [OF assms])
qed

lemma terminate_each_live:
  assumes "docker_laws live m" and "sure_terminate m"
  shows "live (snd (terminate_each m containers names err w)) =
    live w - {c. \<exists>name\<in>set names. containers name = Some c}"
proof (induction names arbitrary: err w)
  case (Cons name names)
  show ?case
  proof (cases "containers name")
    case None
    then have "{c. \<exists>n\<in>set (name # names). containers n = Some c} = {c. \<exists>n\<in>set names. containers n = Some c}"
      by auto
    with None Cons show ?thesis by simp
  next
    case (Some c)
    then have "{d. \<exists>n\<in>set (name # names). containers n = Some d} =
        insert c {d. \<exists>n\<in>set names. containers n = Some d}"
      by auto
    with Some Cons docker_terminate [OF assms(1), of c w] assms(2) show ?thesis
      by (simp add: case_prod_beta Diff_insert2 [symmetric] sure_terminate_def)
  qed
qed simp

lemma close_all_live:
  assumes "docker_laws live m" and "sure_terminate m"
  shows "live (snd (close_all m failure containers net names w)) =
    live w - {c. \<exists>name\<in>set names. containers name = Some c}"
  by (cases net) (simp_all add: close_all_def case_prod_beta terminate_each_live [OF assms]
      docker_keeps [OF assms(1)])

text \<open>The part of Toxiproxy's client the stack calls creates no container.\<close>

lemma create_proxy_live:
  assumes "docker_laws live m"
  shows "live (snd (CreateProxy (mc_http m) tc name listen upstream w)) = live w"
proof -
  have "live (snd (toxi_request (mc_http m) tc meth segs body accepted v)) = live v" for meth segs body accepted v
  proof (cases "new_request (mc_http m) (tc_base_url tc) meth segs body")
    case (Inr rq)
    obtain r v' where "cl_do (mc_http m) (tc_base_url tc) rq v = (r, v')" by fastforce
    moreover from this have "live v' = live v" using docker_keeps(9) [OF assms] by (metis snd_conv)
    ultimately show ?thesis using Inr by (cases r) (simp_all add: toxi_request_def)
  qed (simp add: toxi_request_def)
  then show ?thesis
    by (simp add: CreateProxy_def DeleteProxy_def case_prod_beta)
qed

subsection \<open>Ownership\<close>

text \<open>
  An environment that holds the names \<open>A\<close>: its containers are distinct, live, and all that
  lives beside \<open>base\<close>.
\<close>

definition holds :: "('w \<Rightarrow> 'c set) \<Rightarrow> 'c set \<Rightarrow> string set \<Rightarrow> (string \<rightharpoonup> 'c) \<Rightarrow> 'w \<Rightarrow> bool" where
  "holds live base A cs w \<longleftrightarrow> dom cs = A \<and> inj_on cs A \<and> ran cs \<inter> base = {} \<and> live w = base \<union> ran cs"

lemma holds_keep: "holds live base A cs w \<Longrightarrow> live w' = live w \<Longrightarrow> holds live base A cs w'"
  by (simp add: holds_def)

lemma holds_insert:
  assumes "holds live base A cs w" and "a \<notin> A" and "c \<notin> live w" and "live w' = insert c (live w)"
  shows "holds live base (insert a A) (cs(a \<mapsto> c)) w'"
proof -
  have h: "dom cs = A" "inj_on cs A" "ran cs \<inter> base = {}" "live w = base \<union> ran cs"
    using assms(1) by (simp_all add: holds_def)
  have none: "cs a = None" using h(1) assms(2) by (metis domIff)
  then have ran: "ran (cs(a \<mapsto> c)) = insert c (ran cs)" by simp
  have c: "c \<notin> base" "c \<notin> ran cs" using assms(3) h(4) by simp_all
  have "Some c \<notin> cs ` A" using c(2) by (auto simp: ran_def)
  moreover have "(cs(a \<mapsto> c)) ` A = cs ` A" using assms(2) by (intro image_cong) auto
  moreover have "inj_on (cs(a \<mapsto> c)) A"
    using h(2) assms(2) by (simp add: inj_on_def)
  ultimately have "inj_on (cs(a \<mapsto> c)) (insert a A)"
    using assms(2) by simp
  moreover have "dom (cs(a \<mapsto> c)) = insert a A" using h(1) by simp
  ultimately show ?thesis
    unfolding holds_def ran using h(3,4) c(1) assms(4) by simp
qed

lemma create_cases:
  assumes "docker_laws live m" and "no_orphans m"
  shows "(\<exists>e w'. start_container m net alias req w = (Inl (None, e), w') \<and> live w' = live w) \<or>
    (\<exists>c w'. start_container m net alias req w = (Inr c, w') \<and> c \<notin> live w \<and> live w' = insert c (live w))"
proof -
  let ?req = "req\<lparr>cr_networks := [net], cr_aliases := [(net, [alias])]\<rparr>"
  obtain r w' where r: "mc_create m ?req w = (r, w')" by fastforce
  have law: "case (r, w') of
     (Inl (None, e), w') \<Rightarrow> live w' = live w
   | (Inl (Some c, e), w') \<Rightarrow> c \<notin> live w \<and> live w' = insert c (live w)
   | (Inr c, w') \<Rightarrow> c \<notin> live w \<and> live w' = insert c (live w)"
  proof -
    from assms(1) have "creates live m" by (simp add: docker_laws_def)
    from spec [OF spec [OF this [unfolded creates_def], of ?req], of w] show ?thesis unfolding r .
  qed
  have clean: "fst (mc_create m ?req w) \<noteq> Inl (Some c, e)" for c e
    using assms(2) by (simp add: no_orphans_def)
  have start: "start_container m net alias req w = (r, w')"
    using r by (simp add: start_container_def)
  show ?thesis
  proof (cases r)
    case (Inl p)
    obtain orphan e where p: "p = (orphan, e)" by fastforce
    have "orphan = None"
      using clean [of "the orphan" e] r Inl p by (cases orphan) simp_all
    with law start Inl p show ?thesis by simp
  next
    case (Inr c)
    with law start show ?thesis by simp
  qed
qed

lemma created_orphan:
  assumes "docker_laws live m" and "start_container m net alias req w = (Inl (Some c, e), w')"
  shows "c \<notin> live w \<and> live w' = insert c (live w)"
proof -
  let ?req = "req\<lparr>cr_networks := [net], cr_aliases := [(net, [alias])]\<rparr>"
  from assms(1) have "creates live m" by (simp add: docker_laws_def)
  from spec [OF spec [OF this [unfolded creates_def], of ?req], of w] assms(2)
  show ?thesis by (simp add: start_container_def)
qed

end
