(* ===== verification/Deployments.thy ===== *)
theory Deployments
  imports Orchestration
begin

section \<open>What the two environments share\<close>

text \<open>
  \<open>internal/stack\<close> and \<open>internal/realdss\<close> both keep a run's identity, its network and a map of
  containers by name, start containers into it one after the other, capture their logs and
  remove them, and repeat the code for it. The common fields are the record \<open>deployment\<close>, which
  the two environments extend, and the common code is modelled once here, with the triples and
  the interface \<open>closable\<close> both developments of \<open>Start\<close> and \<open>Close\<close> rest on.
\<close>

record 'c deployment =
  dp_run_id :: string
  dp_seed :: int
  dp_artifact_dir :: string
  dp_network :: "string option"
  dp_containers :: "string \<rightharpoonup> 'c"

definition network_name :: "('c, 'r) deployment_scheme \<Rightarrow> string" where
  "network_name s = (case dp_network s of None \<Rightarrow> [] | Some n \<Rightarrow> n)"

definition open_network ::
  "('c, 'w) machine \<Rightarrow> string \<Rightarrow> ('c, 'r) deployment_scheme \<times> 'w \<Rightarrow> (go_error + unit) \<times> (('c, 'r) deployment_scheme \<times> 'w)" where
  "open_network m failure = (\<lambda>(s, w). case mc_new_network m [(''aero-arc.io/test-run'', dp_run_id s)] w of
     (Inl e, w') \<Rightarrow> (Inl (failure @ '': '' @ e), (s, w'))
   | (Inr n, w') \<Rightarrow> (Inr (), (s\<lparr>dp_network := Some n\<rparr>, w')))"

definition launch ::
  "('c, 'w) machine \<Rightarrow> string \<Rightarrow> container_request \<Rightarrow> string \<Rightarrow> ('c, 'r) deployment_scheme \<times> 'w \<Rightarrow> (go_error + 'c) \<times> (('c, 'r) deployment_scheme \<times> 'w)" where
  "launch m alias req failure = (\<lambda>(s, w). case start_container m (network_name s) alias req w of
     (Inl (orphan, e), w') \<Rightarrow> (Inl (failure @ '': '' @ e), (s, w'))
   | (Inr c, w') \<Rightarrow> (Inr c, (s\<lparr>dp_containers := (dp_containers s)(alias \<mapsto> c)\<rparr>, w')))"

definition resolve ::
  "('c, 'w) machine \<Rightarrow> 'c \<Rightarrow> string \<Rightarrow> string \<Rightarrow> 'r \<times> 'w \<Rightarrow> (go_error + string) \<times> ('r \<times> 'w)" where
  "resolve m c port scheme = (\<lambda>(s, w). (container_endpoint m c port scheme w, (s, w)))"

definition capture_deployment ::
  "('c, 'w) machine \<Rightarrow> ((string \<rightharpoonup> 'c) \<Rightarrow> string list) \<Rightarrow> ('c, 'r) deployment_scheme \<Rightarrow> 'w \<Rightarrow> go_error option \<times> 'w" where
  "capture_deployment m order s w =
     capture_logs m (dp_artifact_dir s) (dp_containers s) (order (dp_containers s)) w"

definition save_document :: "('c, 'w) machine \<Rightarrow> string \<Rightarrow> jval \<Rightarrow> 'w \<Rightarrow> go_error option \<times> 'w" where
  "save_document m dir doc w = (case mc_mkdir_all m dir w of
     (Some e, w') \<Rightarrow> (Some e, w')
   | (None, w') \<Rightarrow> mc_write_json m (path_join [dir, ''stack.json'']) doc w')"

fun first_missing :: "('c, 'w) machine \<Rightarrow> string list \<Rightarrow> 'w \<Rightarrow> (string \<times> go_error) option" where
  "first_missing m [] w = None"
| "first_missing m (p # ps) w = (case mc_stat m p w of Some e \<Rightarrow> Some (p, e) | None \<Rightarrow> first_missing m ps w)"

text \<open>The deferred cleanup of \<open>Start\<close>: a failed body is captured and closed, its errors dropped.\<close>

definition or_tear_down ::
  "(('c, 'r) deployment_scheme \<Rightarrow> 'w \<Rightarrow> go_error option \<times> 'w) \<Rightarrow> (('c, 'r) deployment_scheme \<Rightarrow> 'w \<Rightarrow> go_error option \<times> 'w) \<Rightarrow>
   (go_error + unit) \<times> (('c, 'r) deployment_scheme \<times> 'w) \<Rightarrow> (go_error + ('c, 'r) deployment_scheme) \<times> 'w" where
  "or_tear_down capture close outcome = (case outcome of
     (Inr u, (s, w)) \<Rightarrow> (Inr s, w)
   | (Inl e, (s, w)) \<Rightarrow> (Inl e, snd (close s (snd (capture s w)))))"

subsection \<open>Ownership of a deployment\<close>

lemma capture_deployment_live: "docker_laws live m \<Longrightarrow> live (snd (capture_deployment m order s w)) = live w"
  by (simp add: capture_deployment_def capture_logs_live)

definition owns :: "('w \<Rightarrow> 'c set) \<Rightarrow> 'c set \<Rightarrow> string set \<Rightarrow> ('c, 'r) deployment_scheme \<times> 'w \<Rightarrow> bool" where
  "owns live base A = (\<lambda>(s, w). holds live base A (dp_containers s) w)"

definition owns_some :: "('w \<Rightarrow> 'c set) \<Rightarrow> 'c set \<Rightarrow> string set \<Rightarrow> ('c, 'r) deployment_scheme \<times> 'w \<Rightarrow> bool" where
  "owns_some live base names = (\<lambda>sw. \<exists>A \<subseteq> names. owns live base A sw)"

lemma triple_launch:
  fixes m :: "('c, 'w) machine"
  assumes "docker_laws live m" and "no_orphans m" and "alias \<notin> A" and "A \<subseteq> names"
  shows "triple (owns_some live base names) (owns live base A)
    (launch m alias req failure :: ('c, 'r) deployment_scheme \<times> 'w \<Rightarrow> _) (\<lambda>c. owns live base (insert alias A))"
  unfolding triple_def
proof (intro allI impI)
  fix sw :: "('c, 'r) deployment_scheme \<times> 'w"
  assume own: "owns live base A sw"
  obtain s w where sw: "sw = (s, w)" by fastforce
  consider (fail) e w' where "start_container m (network_name s) alias req w = (Inl (None, e), w')" "live w' = live w"
    | (ok) c w' where "start_container m (network_name s) alias req w = (Inr c, w')" "c \<notin> live w" "live w' = insert c (live w)"
    using create_cases [OF assms(1,2), of "network_name s" "alias" req w] by blast
  then show "case launch m alias req failure sw of (Inl e, s') \<Rightarrow> owns_some live base names s'
    | (Inr x, s') \<Rightarrow> owns live base (insert alias A) s'"
  proof cases
    case fail
    with own assms(4) sw show ?thesis
      by (auto simp: launch_def owns_def owns_some_def intro: holds_keep)
  next
    case ok
    with own assms(3) sw show ?thesis
      by (auto simp: launch_def owns_def intro: holds_insert)
  qed
qed

lemma triple_keep:
  fixes f :: "('c, 'r) deployment_scheme \<times> 'w \<Rightarrow> (go_error + 'a) \<times> (('c, 'r) deployment_scheme \<times> 'w)"
  assumes "\<And>s w. live (snd (snd (f (s, w)))) = live w"
    and "\<And>s w. dp_containers (fst (snd (f (s, w)))) = dp_containers s" and "A \<subseteq> names"
  shows "triple (owns_some live base names) (owns live base A) f (\<lambda>x. owns live base A)"
  unfolding triple_def
proof (intro allI impI)
  fix sw :: "('c, 'r) deployment_scheme \<times> 'w"
  assume own: "owns live base A sw"
  obtain s w where sw: "sw = (s, w)" by fastforce
  obtain r s' w' where f: "f (s, w) = (r, (s', w'))" by (metis prod.collapse)
  with assms(1,2) [of s w] own sw have "owns live base A (s', w')"
    by (auto simp: owns_def intro: holds_keep)
  with assms(3) f sw show "case f sw of (Inl e, s') \<Rightarrow> owns_some live base names s'
    | (Inr x, s') \<Rightarrow> owns live base A s'"
    by (auto simp: owns_some_def split: sum.split)
qed

lemma save_document_live:
  assumes "docker_laws live m"
  shows "live (snd (save_document m dir doc w)) = live w"
proof -
  obtain e w' where "mc_mkdir_all m dir w = (e, w')" by fastforce
  moreover from this have "live w' = live w" using docker_keeps(6) [OF assms] by (metis snd_conv)
  ultimately show ?thesis by (cases e) (simp_all add: save_document_def docker_keeps [OF assms])
qed

lemma triple_network:
  fixes m :: "('c, 'w) machine"
  assumes "docker_laws live m" and "A \<subseteq> names"
  shows "triple (owns_some live base names) (owns live base A)
    (open_network m failure :: ('c, 'r) deployment_scheme \<times> 'w \<Rightarrow> _) (\<lambda>u. owns live base A)"
proof (rule triple_keep [OF _ _ assms(2)])
  fix s :: "('c, 'r) deployment_scheme" and w
  obtain r w' where net: "mc_new_network m [(''aero-arc.io/test-run'', dp_run_id s)] w = (r, w')" by fastforce
  have "live w' = live w" using docker_keeps(1) [OF assms(1)] net by (metis snd_conv)
  then show "live (snd (snd (open_network m failure (s, w)))) = live w"
    "dp_containers (fst (snd (open_network m failure (s, w)))) = dp_containers s"
    by (cases r; simp add: open_network_def net)+
qed

lemma triple_resolve:
  "A \<subseteq> names \<Longrightarrow> triple (owns_some live base names) (owns live base A) (resolve m c port scheme) (\<lambda>u. owns live base A)"
  by (rule triple_keep) (simp_all add: resolve_def)

lemma triple_update:
  fixes f :: "('c, 'r) deployment_scheme \<Rightarrow> ('c, 'r) deployment_scheme"
  assumes "\<And>s. dp_containers (f s) = dp_containers s" and "A \<subseteq> names"
  shows "triple (owns_some live base names) (owns live base A) (update_record f) (\<lambda>u. owns live base A)"
  by (rule triple_keep) (simp_all add: update_record_def assms)

subsection \<open>Teardown\<close>

text \<open>
  The interface of an environment's teardown: the names it closes and its \<open>Close\<close>. What is
  registered under those names is gone afterwards, and nothing else.
\<close>

locale closable =
  fixes names :: "string list"
    and close :: "('c, 'w) machine \<Rightarrow> ('c, 'r) deployment_scheme \<Rightarrow> 'w \<Rightarrow> go_error option \<times> 'w"
  assumes close_live: "docker_laws live m \<Longrightarrow> sure_terminate m \<Longrightarrow>
    live (snd (close m s w)) = live w - {c. \<exists>name\<in>set names. dp_containers s name = Some c}"
begin

lemma close_releases:
  assumes "docker_laws live m" and "sure_terminate m" and "owns live base A (s, w)" and "A \<subseteq> set names"
  shows "live (snd (close m s w)) = base"
proof -
  have h: "holds live base A (dp_containers s) w" using assms(3) by (simp add: owns_def)
  then have "{c. \<exists>name\<in>set names. dp_containers s name = Some c} = ran (dp_containers s)"
    using assms(4) by (auto simp: holds_def ran_def dom_def)
  with close_live [OF assms(1,2)] h show ?thesis by (auto simp: holds_def)
qed

text \<open>A live container that is not registered stays.\<close>

lemma close_misses:
  assumes "docker_laws live m" and "sure_terminate m" and "c \<in> live w" and "c \<notin> ran (dp_containers s)"
  shows "c \<in> live (snd (close m s w))"
  using assms(3,4) by (auto simp: close_live [OF assms(1,2)] ran_def)

text \<open>So a body that registers what it creates leaves everything registered, or nothing at all.\<close>

lemma tear_down_owns:
  assumes "docker_laws live m" and "sure_terminate m" and "owns live base {} sw"
    and "triple (owns_some live base (set names)) (owns live base {}) body (\<lambda>u. owns live base A)"
    and "\<And>s w. live (snd (capture s w)) = live w"
  shows "case or_tear_down capture (close m) (body sw) of
     (Inl e, w') \<Rightarrow> live w' = base | (Inr s, w') \<Rightarrow> owns live base A (s, w')"
proof -
  obtain r s w where body: "body sw = (r, (s, w))" by (metis prod.collapse)
  show ?thesis
  proof (cases r)
    case (Inl e)
    obtain B where B: "B \<subseteq> set names" "owns live base B (s, w)"
      using triple_Inl [OF assms(4,3)] body Inl by (auto simp: owns_some_def)
    have "owns live base B (s, snd (capture s w))"
      using B(2) assms(5) [of s w] by (auto simp: owns_def intro: holds_keep)
    from close_releases [OF assms(1,2) this B(1)] body Inl show ?thesis by (simp add: or_tear_down_def)
  next
    case (Inr u)
    with triple_Inr [OF assms(4,3)] body show ?thesis by (simp add: or_tear_down_def)
  qed
qed

end

end
