(* ===== verification/Stack_Lifecycle.thy ===== *)
theory Stack_Lifecycle
  imports Fixture_Stack
begin

section \<open>The life of a fixture-profile environment\<close>

text \<open>
  Which containers an environment owns from \<open>Start\<close> over stops, restarts and replacements to
  \<open>Close\<close>, what a replacement leaves behind, the readiness loop and the reset.
\<close>

interpretation fixture_env: closable close_order stack_close
proof
  fix live :: "'w \<Rightarrow> 'c set" and m :: "('c, 'w) machine" and s w
  assume "docker_laws live m" and "sure_terminate m"
  then show "live (snd (stack_close m s w)) =
      live w - {c. \<exists>name\<in>set close_order. dp_containers s name = Some c}"
    unfolding stack_close_def by (rule close_all_live)
qed

subsection \<open>Start\<close>

definition service_names :: "string set" where
  "service_names = {''aero-arc-api'', ''toxiproxy'', ''fixture'', ''postgis''}"

lemma connect_frame:
  assumes "docker_laws live m"
  shows "live (snd (snd (connect_toxiproxy m (s, w)))) = live w"
    "dp_containers (fst (snd (connect_toxiproxy m (s, w)))) = dp_containers s"
proof -
  show "live (snd (snd (connect_toxiproxy m (s, w)))) = live w"
  proof (cases "NewClient (mc_parse_url m) (stk_toxiproxy_url s)")
    case (Inr tc)
    obtain e w' where proxy: "CreateProxy (mc_http m) tc proxyName ''0.0.0.0:8666'' ''fixture:8081'' w = (e, w')"
      by fastforce
    have "live w' = live w" using create_proxy_live [OF assms] proxy by (metis snd_conv)
    with Inr proxy show ?thesis by (cases e) (simp_all add: connect_toxiproxy_def)
  qed (simp add: connect_toxiproxy_def)
  show "dp_containers (fst (snd (connect_toxiproxy m (s, w)))) = dp_containers s"
    by (simp add: connect_toxiproxy_def Let_def split: prod.split sum.split option.split)
qed

lemma write_manifest_live: "docker_laws live m \<Longrightarrow> live (snd (write_manifest m s w)) = live w"
  by (simp add: write_manifest_def save_document_live)

lemma manifest_frame:
  assumes "docker_laws live m"
  shows "live (snd (snd (save_manifest m (s, w)))) = live w"
    "dp_containers (fst (snd (save_manifest m (s, w)))) = dp_containers s"
proof -
  obtain e w2 where man: "write_manifest m s w = (e, w2)" by fastforce
  have "live w2 = live w" using write_manifest_live [OF assms] man by (metis snd_conv)
  then show "live (snd (snd (save_manifest m (s, w)))) = live w"
    "dp_containers (fst (snd (save_manifest m (s, w)))) = dp_containers s"
    by (cases e; simp add: save_manifest_def man)+
qed

lemma triple_body:
  assumes "docker_laws live m" and "no_orphans m"
  shows "triple (owns_some live base (set close_order)) (owns live base {}) (stack_body m cfg limit labels)
    (\<lambda>u. owns live base service_names)"
proof -
  note new = triple_launch [OF assms]
  note steps = triple_try [OF triple_network [OF assms(1)]] triple_try [OF new] triple_try [OF triple_resolve]
    triple_try [OF triple_update] triple_try [OF triple_keep [OF connect_frame [OF assms(1)]]]
    triple_keep [OF manifest_frame [OF assms(1)]]
  show ?thesis
    unfolding stack_body_def service_names_def
    by (rule steps | simp add: close_order_def)+
qed

text \<open>What \<open>Start\<close> leaves: everything registered, or nothing at all.\<close>

lemma stack_start_owns:
  fixes m :: "('c, 'w) machine"
  assumes "docker_laws live m" and "no_orphans m" and "sure_terminate m"
  shows "case stack_start m order cfg w of
     (Inl e, w') \<Rightarrow> live w' = live w
   | (Inr s, w') \<Rightarrow> owns live (live w) service_names (s, w')"
proof -
  define s0 :: "'c stack" where "s0 = new_stack cfg (mc_now m w)"
  have "owns live (live w) {} (s0, w)" by (simp add: owns_def holds_def s0_def new_stack_def)
  moreover have "live (snd (stack_capture m order s v)) = live v" for s v
    by (simp add: stack_capture_def capture_deployment_live [OF assms(1)])
  ultimately have "case or_tear_down (stack_capture m order) (stack_close m)
      (stack_body m cfg (startup_limit cfg) (stack_labels (dp_run_id s0) (dp_seed s0)) (s0, w)) of
     (Inl e, w') \<Rightarrow> live w' = live w
   | (Inr s, w') \<Rightarrow> owns live (live w) service_names (s, w')"
    by (intro fixture_env.tear_down_owns [OF assms(1,3) _ triple_body [OF assms(1,2)]])
  then show ?thesis by (simp add: stack_start_def s0_def Let_def split: option.split)
qed

subsection \<open>Between Start and Close\<close>

text \<open>
  What happens to a started environment: its operations on the API container, log captures,
  and what the scenario and the services do to the world in between, the relation \<open>act\<close>.
\<close>

datatype env_op = OpStop | OpStart | OpReplace | OpCapture | OpScenario

inductive env_step ::
  "('c, 'w) machine \<Rightarrow> 'w pause \<Rightarrow> ((string \<rightharpoonup> 'c) \<Rightarrow> string list) \<Rightarrow> ('w \<Rightarrow> 'w \<Rightarrow> bool) \<Rightarrow>
   env_op \<Rightarrow> 'c stack \<times> 'w \<Rightarrow> 'c stack \<times> 'w \<Rightarrow> bool" for m pause order act where
  stop_api: "StopAPI m s w = (e, w') \<Longrightarrow> env_step m pause order act OpStop (s, w) (s, w')"
| start_api: "StartAPI n m pause s w = Some (e, s', w') \<Longrightarrow> env_step m pause order act OpStart (s, w) (s', w')"
| replace_api: "StartReplacementAPI m s w = (e, s', w') \<Longrightarrow> env_step m pause order act OpReplace (s, w) (s', w')"
| capture_env: "stack_capture m order s w = (e, w') \<Longrightarrow> env_step m pause order act OpCapture (s, w) (s, w')"
| scenario: "act w w' \<Longrightarrow> env_step m pause order act OpScenario (s, w) (s, w')"

inductive_cases env_stepE: "env_step m pause order act op (s, w) sw"

inductive env_run ::
  "('c, 'w) machine \<Rightarrow> 'w pause \<Rightarrow> ((string \<rightharpoonup> 'c) \<Rightarrow> string list) \<Rightarrow> ('w \<Rightarrow> 'w \<Rightarrow> bool) \<Rightarrow>
   env_op list \<Rightarrow> 'c stack \<times> 'w \<Rightarrow> 'c stack \<times> 'w \<Rightarrow> bool" for m pause order act where
  run_start: "env_run m pause order act [] sw sw"
| run_next: "env_run m pause order act ops sw sw1 \<Longrightarrow> env_step m pause order act op sw1 sw2 \<Longrightarrow>
    env_run m pause order act (ops @ [op]) sw sw2"

text \<open>Neither the pauses nor the scenario create or remove containers.\<close>

definition quiet_world :: "('w \<Rightarrow> 'c set) \<Rightarrow> 'w pause \<Rightarrow> ('w \<Rightarrow> 'w \<Rightarrow> bool) \<Rightarrow> bool" where
  "quiet_world live pause act \<longleftrightarrow> (\<forall>d. keeps live (pause d)) \<and> (\<forall>w w'. act w w' \<longrightarrow> live w' = live w)"

lemma wait_loop_live:
  assumes "docker_laws live m" and "\<forall>d. keeps live (pause d)"
  shows "wait_loop n m pause base rq delay w = Some (r, w') \<Longrightarrow> live w' = live w"
proof (induction n arbitrary: delay w)
  case (Suc n)
  obtain r1 w1 where w1: "cl_do (mc_http m) base rq w = (r1, w1)" by fastforce
  then have l1: "live w1 = live w" using docker_keeps(9) [OF assms(1)] by (metis snd_conv)
  obtain e w2 where w2: "pause delay w1 = (e, w2)" by fastforce
  then have l2: "live w2 = live w1" using assms(2) keepsD by (metis snd_conv)
  show ?case
    using Suc.prems Suc.IH [of "next_delay delay" w2] w1 w2 l1 l2
    by (cases e) (auto split: if_splits)
qed simp

lemma StartAPI_live:
  assumes "docker_laws live m" and "\<forall>d. keeps live (pause d)"
    and "StartAPI n m pause s w = Some (e, s', w')"
  shows "live w' = live w \<and> dp_containers s' = dp_containers s"
proof (cases "dp_containers s ''aero-arc-api''")
  case (Some api)
  show ?thesis
  proof (cases "mc_is_running m api w")
    case False
    obtain r w1 where start: "mc_start m api w = (r, w1)" by fastforce
    have l1: "live w1 = live w" using docker_keeps(4) [OF assms(1)] start by (metis snd_conv)
    have wait: "live w2 = live w1" if "waitForAPI n m pause t w1 = Some (r2, w2)" for t r2 w2
      using that wait_loop_live [OF assms(1,2)] by (auto simp: waitForAPI_def split: sum.splits)
    show ?thesis
    proof (cases r)
      case None
      with Some False start assms(3) l1 wait show ?thesis
        by (cases "container_endpoint m api ''8080/tcp'' ''http'' w1")
          (auto simp: StartAPI_def Let_def)
    qed (use Some False start assms(3) l1 in \<open>simp add: StartAPI_def\<close>)
  qed (use Some assms(3) in \<open>simp add: StartAPI_def\<close>)
qed (use assms(3) in \<open>simp add: StartAPI_def\<close>)

lemma StopAPI_live:
  assumes "docker_laws live m" and "StopAPI m s w = (e, w')"
  shows "live w' = live w"
proof (cases "dp_containers s ''aero-arc-api''")
  case (Some api)
  obtain r w1 where stop: "mc_stop m api 0 w = (r, w1)" by fastforce
  have "live w1 = live w" using docker_keeps(3) [OF assms(1)] stop by (metis snd_conv)
  with Some stop assms(2) show ?thesis by (cases r) (simp_all add: StopAPI_def)
qed (use assms(2) in \<open>simp add: StopAPI_def\<close>)

text \<open>A replacement either changes no container, or registers a new one and keeps the old as crashed.\<close>

lemma replacement_cases:
  assumes "docker_laws live m" and "no_orphans m" and "sure_terminate m"
    and "StartReplacementAPI m s w = (e, s', w')"
  shows "dp_containers s' = dp_containers s \<and> live w' = live w \<and> e \<noteq> None \<or>
    (\<exists>previous c. dp_containers s ''aero-arc-api'' = Some previous \<and> c \<notin> live w \<and> live w' = insert c (live w) \<and>
       dp_containers s' = (dp_containers s)(''aero-arc-api-crashed'' \<mapsto> previous, ''aero-arc-api'' \<mapsto> c))"
proof (cases "dp_containers s ''aero-arc-api''")
  case (Some previous)
  show ?thesis
  proof (cases "mc_is_running m previous w")
    case False
    let ?start = "start_container m (network_name s) ''aero-arc-api'' (replacement_request s) w"
    consider (fail) err w1 where "?start = (Inl (None, err), w1)" "live w1 = live w"
      | (ok) c w1 where "?start = (Inr c, w1)" "c \<notin> live w" "live w1 = insert c (live w)"
      using create_cases [OF assms(1,2)] by blast
    then show ?thesis
    proof cases
      case fail
      with Some False assms(4) show ?thesis by (auto simp: StartReplacementAPI_def)
    next
      case ok
      have gone: "live (snd (mc_terminate m c w1)) = live w1 - {c}"
        using docker_terminate [OF assms(1)] assms(3) by (simp add: sure_terminate_def)
      have man: "live (snd (write_manifest m t w1)) = live w1" for t
        by (rule write_manifest_live [OF assms(1)])
      show ?thesis
      proof (cases "container_endpoint m c ''8080/tcp'' ''http'' w1")
        case (Inl err)
        with Some False ok gone assms(4) show ?thesis by (auto simp: StartReplacementAPI_def)
      next
        case (Inr url)
        let ?s = "s\<lparr>dp_containers := (dp_containers s)(''aero-arc-api-crashed'' \<mapsto> previous, ''aero-arc-api'' \<mapsto> c),
          stk_api_base_url := url\<rparr>"
        have "write_manifest m ?s w1 = (e, w')" and s': "s' = ?s"
          using Some False ok(1) Inr assms(4) by (auto simp: StartReplacementAPI_def Let_def split: prod.splits)
        then have "live w' = live w1" using man by (metis snd_conv)
        with ok Some s' show ?thesis by (intro disjI2 exI [of _ previous] exI [of _ c]) simp
      qed
    qed
  qed (use Some assms(4) in \<open>auto simp: StartReplacementAPI_def\<close>)
qed (use assms(4) in \<open>auto simp: StartReplacementAPI_def\<close>)

lemma holds_replace:
  assumes "holds live base A cs w" and "a \<in> A" and "b \<notin> A" and "cs a = Some p"
    and "c \<notin> live w" and "live w' = insert c (live w)"
  shows "holds live base (insert b A) (cs(b \<mapsto> p, a \<mapsto> c)) w'"
proof -
  let ?cs = "cs(b \<mapsto> p, a \<mapsto> c)"
  have h: "dom cs = A" "inj_on cs A" "ran cs \<inter> base = {}" "live w = base \<union> ran cs"
    using assms(1) by (simp_all add: holds_def)
  have none: "cs b = None" and ab: "a \<noteq> b" using h(1) assms(2,3) by (metis domIff, metis)
  have "ran cs \<subseteq> ran ?cs"
  proof
    fix x
    assume "x \<in> ran cs"
    then obtain k where k: "cs k = Some x" by (auto simp: ran_def)
    show "x \<in> ran ?cs"
    proof (cases "k = a")
      case True
      then have "?cs b = Some x" using k assms(4) ab by simp
      then show ?thesis by (rule ranI)
    next
      case False
      then have "?cs k = Some x" using k none by auto
      then show ?thesis by (rule ranI)
    qed
  qed
  moreover have "c \<in> ran ?cs" by (rule ranI [of _ a]) simp
  moreover have "ran ?cs \<subseteq> insert c (ran cs)"
    using assms(4) by (auto simp: ran_def split: if_splits)
  ultimately have ran: "ran ?cs = insert c (ran cs)" by blast
  have c: "c \<notin> base" "c \<notin> ran cs" using assms(5) h(4) by simp_all
  have fresh: "cs k \<noteq> Some c" for k using c(2) by (auto simp: ran_def)
  let ?old = "\<lambda>k. if k = b then a else k"
  have old: "?cs k = cs (?old k)" if "k \<noteq> a" for k using that assms(4) by simp
  have new: "?cs k = Some c \<longleftrightarrow> k = a" for k
    using old [of k] fresh [of "?old k"] by (cases "k = a") simp_all
  have "inj_on ?cs (insert b A)"
  proof (rule inj_onI)
    fix x y
    assume xy: "x \<in> insert b A" "y \<in> insert b A" and eq: "?cs x = ?cs y"
    show "x = y"
    proof (cases "x = a \<or> y = a")
      case True
      with eq new [of x] new [of y] show ?thesis by metis
    next
      case False
      with eq old have "cs (?old x) = cs (?old y)" by metis
      moreover have "?old x \<in> A" "?old y \<in> A" using xy assms(2) by auto
      ultimately have "?old x = ?old y" using h(2) by (metis inj_onD)
      with False show ?thesis by (auto split: if_splits)
    qed
  qed
  moreover have "dom ?cs = insert b A" using h(1) assms(2) by auto
  ultimately show ?thesis
    unfolding holds_def ran using h(3,4) c assms(6) by simp
qed

text \<open>The containers of a run with at most one replacement.\<close>

definition replaced_names :: "string set" where
  "replaced_names = insert ''aero-arc-api-crashed'' service_names"

lemma env_step_frame:
  assumes "docker_laws live m" and "quiet_world live pause act"
    and "env_step m pause order act op (s, w) (s', w')" and "op \<noteq> OpReplace"
  shows "dp_containers s' = dp_containers s \<and> live w' = live w"
  using assms(3)
proof (cases rule: env_step.cases)
  case (stop_api e)
  with StopAPI_live [OF assms(1) stop_api(3)] show ?thesis by simp
next
  case (start_api n e)
  have "\<forall>d. keeps live (pause d)" using assms(2) by (simp add: quiet_world_def)
  from StartAPI_live [OF assms(1) this start_api(2)] show ?thesis by simp
next
  case (capture_env e)
  then have "live w' = live w"
    using capture_deployment_live [OF assms(1), of order s w] by (simp add: stack_capture_def)
  with capture_env show ?thesis by simp
next
  case scenario
  with assms(2) show ?thesis by (simp add: quiet_world_def)
qed (use assms(4) in simp)

lemma env_run_owns:
  assumes "docker_laws live m" and "no_orphans m" and "sure_terminate m" and "quiet_world live pause act"
    and "env_run m pause order act ops sw sw'" and "owns live base service_names sw" and "count_list ops OpReplace \<le> 1"
  shows "owns live base service_names sw' \<or> OpReplace \<in> set ops \<and> owns live base replaced_names sw'"
  using assms(5-7)
proof (induction rule: env_run.induct)
  case (run_start sw)
  then show ?case by simp
next
  case (run_next ops sw sw1 op sw2)
  have keep: "owns live base A (s', w')"
    if "owns live base A (s, w)" "dp_containers s' = dp_containers s" "live w' = live w" for A s s' w w'
    using that by (auto simp: owns_def intro: holds_keep)
  obtain s1 w1 s2 w2 where sw: "sw1 = (s1, w1)" "sw2 = (s2, w2)" by fastforce
  have frame: "dp_containers s2 = dp_containers s1 \<and> live w2 = live w1" if "op \<noteq> OpReplace"
    using env_step_frame [OF assms(1,4)] run_next.hyps(2) sw that by simp
  show ?case
  proof (cases "op = OpReplace")
    case False
    from run_next.IH run_next.prems have "owns live base service_names sw1 \<or>
        OpReplace \<in> set ops \<and> owns live base replaced_names sw1" by simp
    moreover have "owns live base A sw1 \<Longrightarrow> owns live base A sw2" for A
      using keep frame [OF False] sw by blast
    ultimately show ?thesis by auto
  next
    case True
    then have "OpReplace \<notin> set ops" using run_next.prems by (simp add: count_list_0_iff)
    moreover from this have "count_list ops OpReplace \<le> 1" by (simp add: count_list_0_iff)
    ultimately have own: "owns live base service_names (s1, w1)" using run_next.IH run_next.prems sw by simp
    obtain e where "StartReplacementAPI m s1 w1 = (e, s2, w2)"
      using run_next.hyps(2) [unfolded sw] True by (auto elim: env_stepE)
    from replacement_cases [OF assms(1-3) this] show ?thesis
    proof (elim disjE exE conjE)
      assume "dp_containers s2 = dp_containers s1" "live w2 = live w1"
      with own have "owns live base service_names (s2, w2)" using keep by blast
      with sw show ?thesis by simp
    next
      fix previous c
      assume "dp_containers s1 ''aero-arc-api'' = Some previous" "c \<notin> live w1" "live w2 = insert c (live w1)"
        and "dp_containers s2 = (dp_containers s1)(''aero-arc-api-crashed'' \<mapsto> previous, ''aero-arc-api'' \<mapsto> c)"
      with own True sw show ?thesis
        by (auto simp: owns_def replaced_names_def service_names_def intro!: holds_replace)
    qed
  qed
qed

subsection \<open>The readiness loop\<close>

text \<open>A clock that requests do not turn back and pauses advance, and a deadline pauses respect.\<close>

definition clock_kept :: "('w \<Rightarrow> int) \<Rightarrow> int \<Rightarrow> 'w client \<Rightarrow> 'w pause \<Rightarrow> bool" where
  "clock_kept clock deadline cl pause \<longleftrightarrow>
     (\<forall>b rq w. clock w \<le> clock (snd (cl_do cl b rq w))) \<and>
     (\<forall>d w w'. pause d w = (None, w') \<longrightarrow> clock w < deadline \<and> clock w + d \<le> clock w')"

lemma wait_loop_returns:
  assumes "clock_kept clock deadline (mc_http m) pause" and "0 < delay"
    and "deadline - clock w \<le> int n * delay"
  shows "wait_loop (Suc n) m pause base rq delay w \<noteq> None"
  using assms(2,3)
proof (induction n arbitrary: delay w)
  case 0
  obtain r w1 where w1: "cl_do (mc_http m) base rq w = (r, w1)" by fastforce
  then have c1: "clock w \<le> clock w1" using assms(1) by (metis clock_kept_def snd_conv)
  obtain e w2 where w2: "pause delay w1 = (e, w2)" by fastforce
  have "clock w1 < deadline" if "e = None" using assms(1) w2 that by (simp add: clock_kept_def)
  with c1 0 have "e \<noteq> None" by auto
  with w1 w2 show ?case by auto
next
  case (Suc n)
  obtain r w1 where w1: "cl_do (mc_http m) base rq w = (r, w1)" by fastforce
  then have c1: "clock w \<le> clock w1" using assms(1) by (metis clock_kept_def snd_conv)
  obtain e w2 where w2: "pause delay w1 = (e, w2)" by fastforce
  have "wait_loop (Suc n) m pause base rq (next_delay delay) w2 \<noteq> None" if "e = None"
  proof (rule Suc.IH)
    show "0 < next_delay delay" using next_delay_grows Suc.prems(1) by force
    have "clock w1 + delay \<le> clock w2" using assms(1) w2 that by (simp add: clock_kept_def)
    with c1 Suc.prems(2) have "deadline - clock w2 \<le> int n * delay" by (simp add: algebra_simps)
    also have "\<dots> \<le> int n * next_delay delay"
      using next_delay_grows [OF Suc.prems(1)] by (intro mult_left_mono) simp_all
    finally show "deadline - clock w2 \<le> int n * next_delay delay" .
  qed
  with w1 w2 show ?case by (cases e) simp_all
qed

text \<open>A service that answers 200 once its clock has reached some time.\<close>

definition ready_from :: "('w \<Rightarrow> int) \<Rightarrow> int \<Rightarrow> 'w client \<Rightarrow> bool" where
  "ready_from clock t cl \<longleftrightarrow> (\<forall>b rq w. t \<le> clock w \<longrightarrow>
     (\<exists>rs w'. cl_do cl b rq w = (Inr rs, w') \<and> rs_status rs = 200))"

text \<open>A pause succeeds when the deadline is not near, and lasts as long as asked.\<close>

definition punctual :: "('w \<Rightarrow> int) \<Rightarrow> int \<Rightarrow> 'w client \<Rightarrow> 'w pause \<Rightarrow> bool" where
  "punctual clock deadline cl pause \<longleftrightarrow>
     (\<forall>b rq w. clock (snd (cl_do cl b rq w)) = clock w) \<and>
     (\<forall>d w. clock w + d < deadline \<longrightarrow> fst (pause d w) = None \<and> clock (snd (pause d w)) = clock w + d)"

lemma next_delay_bound: "d \<le> 1000000000 \<Longrightarrow> next_delay d \<le> 1000000000"
  by (simp add: next_delay_def)

lemma wait_loop_ready:
  assumes "ready_from clock t (mc_http m)" and "punctual clock deadline (mc_http m) pause"
    and "0 < delay" and "delay \<le> 1000000000" and "t + 1000000000 \<le> deadline" and "clock w \<le> deadline"
    and "t - clock w \<le> int n * delay"
  shows "\<exists>w'. wait_loop (Suc n) m pause base rq delay w = Some (None, w')"
  using assms(3,4,6,7)
proof (induction n arbitrary: delay w)
  case 0
  then have "t \<le> clock w" by simp
  with assms(1) obtain rs w' where "cl_do (mc_http m) base rq w = (Inr rs, w')" "rs_status rs = 200"
    by (meson ready_from_def)
  then show ?case by simp
next
  case (Suc n)
  show ?case
  proof (cases "t \<le> clock w")
    case True
    with assms(1) obtain rs w' where "cl_do (mc_http m) base rq w = (Inr rs, w')" "rs_status rs = 200"
      by (meson ready_from_def)
    then show ?thesis by simp
  next
    case False
    obtain r w1 where w1: "cl_do (mc_http m) base rq w = (r, w1)" by fastforce
    then have c1: "clock w1 = clock w" using assms(2) by (metis punctual_def snd_conv)
    obtain e w2 where w2: "pause delay w1 = (e, w2)" by fastforce
    have "clock w1 + delay < deadline" using False c1 Suc.prems(2) assms(5) by linarith
    with assms(2) w2 have e: "e = None" and c2: "clock w2 = clock w1 + delay"
      unfolding punctual_def by (metis fst_conv, metis snd_conv)
    have "\<exists>w'. wait_loop (Suc n) m pause base rq (next_delay delay) w2 = Some (None, w')"
    proof (rule Suc.IH)
      show "0 < next_delay delay" using next_delay_grows Suc.prems(1) by force
      show "next_delay delay \<le> 1000000000" using Suc.prems(2) by (rule next_delay_bound)
      show "clock w2 \<le> deadline" using c2 \<open>clock w1 + delay < deadline\<close> by simp
      have "t - clock w2 \<le> int n * delay" using Suc.prems(4) c1 c2 by (simp add: algebra_simps)
      also have "\<dots> \<le> int n * next_delay delay"
        using next_delay_grows [OF Suc.prems(1)] by (intro mult_left_mono) simp_all
      finally show "t - clock w2 \<le> int n * next_delay delay" .
    qed
    with w1 w2 e show ?thesis by simp
  qed
qed

end
