(* ===== verification/Real_DSS.thy ===== *)
theory Real_DSS
  imports Deployments
begin

section \<open>The real-DSS environment\<close>

text \<open>
  \<open>internal/realdss/stack.go\<close> (and its alias \<open>environments/realdss\<close>) up to its observer: an
  InterUSS DSS with its CockroachDB, migrations and OAuth service, and two USSs with a database
  each. \<open>environment\<close> is the struct \<open>Environment\<close>, a deployment with the fields only this
  environment has.
\<close>

definition cockroachImage :: string where "cockroachImage = ''cockroachdb/cockroach:v24.1.3''"
definition dssImage :: string where "dssImage = ''interuss-local/dss:real-e2e''"
definition oauthImage :: string where "oauthImage = ''interuss-local/dummy-oauth:real-e2e''"
definition aeroArcAPIImage :: string where "aeroArcAPIImage = ''aero-arc-api:real-e2e''"
definition real_postGISImage :: string where "real_postGISImage = ''postgis/postgis:14-3.5-alpine''"

record real_config =
  rg_root_dir :: string
  rg_api_source :: string
  rg_interuss_source :: string
  rg_api_revision :: string
  rg_dss_revision :: string
  rg_artifact_dir :: string
  rg_seed :: int
  rg_startup_limit :: int

record participant =
  pt_name :: string
  pt_subject :: string
  pt_api_base_url :: string
  pt_database_url :: string

definition participant_zero :: participant where
  "participant_zero = \<lparr>pt_name = [], pt_subject = [], pt_api_base_url = [], pt_database_url = []\<rparr>"

record 'c environment = "'c deployment" +
  rd_dss_base_url :: string
  rd_oauth_url :: string
  rd_uss_a :: participant
  rd_uss_b :: participant

subsection \<open>Container requests\<close>

definition real_labels :: "string \<Rightarrow> int \<Rightarrow> (string \<times> string) list" where
  "real_labels run_id seed = [(''aero-arc.io/test-run'', run_id), (''aero-arc.io/seed'', int_dec seed),
     (''aero-arc.io/tier'', ''real-dss'')]"

definition uss_environment :: "string \<Rightarrow> string \<Rightarrow> string \<Rightarrow> (string \<times> string) list" where
  "uss_environment suffix name database_alias = [
     (''AERO_API_ADDR'', '':8080''), (''AERO_API_DURABLE_STORE'', ''postgres''),
     (''AERO_API_DATABASE_URL'', ''postgres://aero_arc:aero_arc_test@'' @ database_alias @ '':5432/aero_arc?sslmode=disable''),
     (''AERO_API_AIRSPACE_PROVIDERS'', ''local,interuss''),
     (''AERO_API_DSS_BASE_URL'', ''http://interuss-dss:8082''),
     (''AERO_API_DSS_OAUTH_TOKEN_URL'', ''http://interuss-oauth:8085/token''),
     (''AERO_API_DSS_OAUTH_AUDIENCE'', ''localhost''), (''AERO_API_DSS_OAUTH_ISSUER'', ''localhost''),
     (''AERO_API_DSS_OAUTH_SUBJECT'', ''uss-'' @ suffix),
     (''AERO_API_DSS_ALLOW_INSECURE_PEER_URLS'', ''true''),
     (''AERO_API_USS_BASE_URL'', ''http://'' @ name @ '':8080''),
     (''AERO_API_USS_JWT_PUBLIC_KEY_FILE'', ''/interuss-auth-public.pem''),
     (''AERO_API_USS_JWT_ISSUER'', ''localhost''), (''AERO_API_USS_JWT_AUDIENCE'', ''localhost''),
     (''AERO_API_REQUEST_TIMEOUT'', ''3s''), (''AERO_API_TELEMETRY_STORE'', ''memory''),
     (''AERO_API_REPLAY_STORE'', ''memory''), (''AERO_API_REGISTRY_MODE'', ''memory''),
     (''AERO_API_SEED'', ''demo'')]"

definition crdb_request :: "int \<Rightarrow> (string \<times> string) list \<Rightarrow> container_request" where
  "crdb_request limit labels = request_zero\<lparr>cr_image := cockroachImage,
     cr_cmd := [''start-single-node'', ''--insecure'', ''--listen-addr=:26257'', ''--http-addr=:8080''],
     cr_ports := [''8080/tcp''], cr_labels := labels, cr_wait := WaitHTTP ''/health?ready=1'' ''8080/tcp'' limit\<rparr>"

definition scd_migration_request :: "real_config \<Rightarrow> int \<Rightarrow> (string \<times> string) list \<Rightarrow> container_request" where
  "scd_migration_request cfg limit labels = request_zero\<lparr>
     cr_build := Some \<lparr>ib_context = rg_interuss_source cfg, ib_dockerfile = ''Dockerfile'',
       ib_repo = ''interuss-local/dss'', ib_tag = ''real-e2e'', ib_keep_image = True\<rparr>,
     cr_cmd := [''/usr/bin/db-manager'', ''migrate'', ''--schemas_dir=/db-schemas/scd'', ''--db_version=latest'',
       ''--datastore_host=interuss-crdb''],
     cr_labels := labels, cr_wait := WaitExit limit\<rparr>"

definition schema_migration_request :: "string \<Rightarrow> int \<Rightarrow> (string \<times> string) list \<Rightarrow> container_request" where
  "schema_migration_request schema limit labels = request_zero\<lparr>cr_image := dssImage,
     cr_cmd := [''/usr/bin/db-manager'', ''migrate'', ''--schemas_dir=/db-schemas/'' @ schema, ''--db_version=latest'',
       ''--datastore_host=interuss-crdb''],
     cr_labels := labels, cr_wait := WaitExit limit\<rparr>"

definition oauth_request :: "real_config \<Rightarrow> int \<Rightarrow> (string \<times> string) list \<Rightarrow> container_request" where
  "oauth_request cfg limit labels = request_zero\<lparr>
     cr_build := Some \<lparr>ib_context = rg_interuss_source cfg, ib_dockerfile = ''cmds/dummy-oauth/Dockerfile'',
       ib_repo = ''interuss-local/dummy-oauth'', ib_tag = ''real-e2e'', ib_keep_image = True\<rparr>,
     cr_cmd := [''-private_key_file'', ''/var/test-certs/auth2.key''],
     cr_ports := [''8085/tcp''], cr_labels := labels,
     cr_wait := WaitHTTP (''/token?grant_type=client_credentials&scope=utm.strategic_coordination'' @
       ''&intended_audience=localhost&issuer=localhost&sub=harness-readiness'') ''8085/tcp'' limit\<rparr>"

definition core_request :: "int \<Rightarrow> (string \<times> string) list \<Rightarrow> container_request" where
  "core_request limit labels = request_zero\<lparr>cr_image := dssImage,
     cr_cmd := [''/usr/bin/core-service'', ''-datastore_host'', ''interuss-crdb'',
       ''-public_key_files'', ''/test-certs/auth2.pem'', ''-log_format'', ''console'', ''-dump_requests'',
       ''-addr'', '':8082'', ''-accepted_jwt_audiences'', ''localhost'', ''-enable_scd'',
       ''-allow_http_base_urls'', ''-locality'', ''aero_arc_e2e'', ''-public_endpoint'', ''http://interuss-dss:8082''],
     cr_ports := [''8082/tcp''], cr_labels := labels, cr_wait := WaitHTTP ''/healthy'' ''8082/tcp'' limit\<rparr>"

definition real_postgis_request :: "int \<Rightarrow> (string \<times> string) list \<Rightarrow> container_request" where
  "real_postgis_request limit labels = request_zero\<lparr>cr_image := real_postGISImage,
     cr_env := [(''POSTGRES_DB'', ''aero_arc''), (''POSTGRES_USER'', ''aero_arc''), (''POSTGRES_PASSWORD'', ''aero_arc_test'')],
     cr_ports := [''5432/tcp''], cr_labels := labels,
     cr_wait := WaitAll [WaitLog ''PostgreSQL init process complete; ready for start up.'',
       WaitExec [''pg_isready'', ''-U'', ''aero_arc'', ''-d'', ''aero_arc'']] limit\<rparr>"

definition uss_request :: "real_config \<Rightarrow> int \<Rightarrow> (string \<times> string) list \<Rightarrow> (string \<times> string) list \<Rightarrow> container_request" where
  "uss_request cfg limit labels env = request_zero\<lparr>cr_env := env,
     cr_files := [\<lparr>cf_host_path = path_join [rg_interuss_source cfg, ''build'', ''test-certs'', ''auth2.pem''],
       cf_container_path = ''/interuss-auth-public.pem'', cf_mode = 292\<rparr>],
     cr_ports := [''8080/tcp''], cr_labels := labels, cr_wait := WaitHTTP ''/readyz'' ''8080/tcp'' limit\<rparr>"

definition uss_a_request :: "real_config \<Rightarrow> int \<Rightarrow> (string \<times> string) list \<Rightarrow> container_request" where
  "uss_a_request cfg limit labels = (uss_request cfg limit labels (uss_environment ''a'' ''uss-a'' ''postgis-a''))\<lparr>
     cr_build := Some \<lparr>ib_context = rg_api_source cfg, ib_dockerfile = ''Dockerfile'',
       ib_repo = ''aero-arc-api'', ib_tag = ''real-e2e'', ib_keep_image = True\<rparr>\<rparr>"

definition uss_b_request :: "real_config \<Rightarrow> int \<Rightarrow> (string \<times> string) list \<Rightarrow> container_request" where
  "uss_b_request cfg limit labels =
     (uss_request cfg limit labels (uss_environment ''b'' ''uss-b'' ''postgis-b''))\<lparr>cr_image := aeroArcAPIImage\<rparr>"

subsection \<open>Start and Close\<close>

definition requireSuccessfulExit :: "('c, 'w) machine \<Rightarrow> 'c \<Rightarrow> string \<Rightarrow> 'w \<Rightarrow> go_error option" where
  "requireSuccessfulExit m c name w = (case mc_exit_code m c w of
     Inl e \<Rightarrow> Some (''read '' @ name @ '' state: '' @ e)
   | Inr code \<Rightarrow> (if code \<noteq> 0 then Some (name @ '' exited with code '' @ int_dec code) else None))"

definition check_exit ::
  "('c, 'w) machine \<Rightarrow> 'c \<Rightarrow> string \<Rightarrow> 'c environment \<times> 'w \<Rightarrow> (go_error + unit) \<times> ('c environment \<times> 'w)" where
  "check_exit m c name = (\<lambda>(s, w). case requireSuccessfulExit m c name w of
     Some e \<Rightarrow> (Inl e, (s, w)) | None \<Rightarrow> (Inr (), (s, w)))"

definition migration_name :: "string \<Rightarrow> string" where
  "migration_name schema = (if schema = ''aux_'' then ''interuss-aux-migration''
     else ''interuss-'' @ schema @ ''-migration'')"

fun migrate_schemas ::
  "('c, 'w) machine \<Rightarrow> int \<Rightarrow> (string \<times> string) list \<Rightarrow> string list \<Rightarrow> 'c environment \<times> 'w \<Rightarrow> (go_error + unit) \<times> ('c environment \<times> 'w)" where
  "migrate_schemas m limit labels [] = done_with ()"
| "migrate_schemas m limit labels (schema # schemas) =
     try_then (launch m (migration_name schema) (schema_migration_request schema limit labels)
       (''run InterUSS '' @ schema @ '' migration'')) (\<lambda>migration.
     try_then (check_exit m migration (''InterUSS '' @ schema @ '' migration'')) (\<lambda>_.
     migrate_schemas m limit labels schemas))"

definition startPostGIS ::
  "('c, 'w) machine \<Rightarrow> string \<Rightarrow> (string \<times> string) list \<Rightarrow> int \<Rightarrow> 'c environment \<times> 'w \<Rightarrow> (go_error + 'c) \<times> ('c environment \<times> 'w)" where
  "startPostGIS m alias labels limit = launch m alias (real_postgis_request limit labels) (''start '' @ alias)"

definition new_participant ::
  "('c, 'w) machine \<Rightarrow> string \<Rightarrow> string \<Rightarrow> 'c \<Rightarrow> 'c \<Rightarrow> 'c environment \<times> 'w \<Rightarrow> (go_error + participant) \<times> ('c environment \<times> 'w)" where
  "new_participant m name subject api database =
     try_then (resolve m api ''8080/tcp'' ''http'') (\<lambda>api_url.
     try_then (resolve m database ''5432/tcp'' []) (\<lambda>database_endpoint.
     done_with \<lparr>pt_name = name, pt_subject = subject, pt_api_base_url = api_url,
       pt_database_url = ''postgres://aero_arc:aero_arc_test@'' @ database_endpoint @ ''/aero_arc?sslmode=disable''\<rparr>))"

definition participant_json :: "participant \<Rightarrow> jval" where
  "participant_json p = JObj [(''name'', JStr (pt_name p)), (''subject'', JStr (pt_subject p)),
     (''api_base_url'', JStr (pt_api_base_url p)), (''database_url'', JStr (pt_database_url p))]"

definition real_manifest_json :: "real_config \<Rightarrow> 'c environment \<Rightarrow> int \<Rightarrow> jval" where
  "real_manifest_json cfg s now = JObj [(''created_at'', JStr (rfc3339_nano now)),
     (''endpoints'', JObj [(''dss'', JStr (rd_dss_base_url s)), (''oauth'', JStr (rd_oauth_url s))]),
     (''images'', JObj [(''aero_arc_api'', JStr aeroArcAPIImage), (''cockroachdb'', JStr cockroachImage),
        (''interuss_dss'', JStr dssImage), (''interuss_oauth'', JStr oauthImage), (''postgis'', JStr real_postGISImage)]),
     (''participants'', JArr [participant_json (rd_uss_a s), participant_json (rd_uss_b s)]),
     (''run_id'', JStr (dp_run_id s)), (''seed'', JInt (dp_seed s)),
     (''source_revisions'', JObj [(''aero_arc_api'', JStr (rg_api_revision cfg)),
        (''interuss_dss'', JStr (rg_dss_revision cfg))]),
     (''tier'', JStr ''real-dss-two-uss'')]"

definition real_save_manifest ::
  "('c, 'w) machine \<Rightarrow> real_config \<Rightarrow> 'c environment \<times> 'w \<Rightarrow> (go_error + unit) \<times> ('c environment \<times> 'w)" where
  "real_save_manifest m cfg = (\<lambda>(s, w).
     case save_document m (dp_artifact_dir s) (real_manifest_json cfg s (mc_now m w)) w of
       (Some e, w') \<Rightarrow> (Inl e, (s, w')) | (None, w') \<Rightarrow> (Inr (), (s, w')))"

definition real_body ::
  "('c, 'w) machine \<Rightarrow> real_config \<Rightarrow> int \<Rightarrow> (string \<times> string) list \<Rightarrow> 'c environment \<times> 'w \<Rightarrow> (go_error + unit) \<times> ('c environment \<times> 'w)" where
  "real_body m cfg limit labels =
     try_then (open_network m ''create real-DSS network'') (\<lambda>_.
     try_then (launch m ''interuss-crdb'' (crdb_request limit labels) ''start InterUSS CockroachDB'') (\<lambda>crdb.
     try_then (launch m ''interuss-scd-migration'' (scd_migration_request cfg limit labels)
       ''run InterUSS SCD migration'') (\<lambda>migration.
     try_then (check_exit m migration ''InterUSS SCD migration'') (\<lambda>_.
     try_then (migrate_schemas m limit labels [''rid'', ''aux_'']) (\<lambda>_.
     try_then (launch m ''interuss-oauth'' (oauth_request cfg limit labels) ''start InterUSS dummy OAuth'') (\<lambda>oauth.
     try_then (resolve m oauth ''8085/tcp'' ''http'') (\<lambda>oauth_url.
     try_then (update_record (\<lambda>s. s\<lparr>rd_oauth_url := oauth_url @ ''/token''\<rparr>)) (\<lambda>_.
     try_then (launch m ''interuss-dss'' (core_request limit labels) ''start InterUSS core service'') (\<lambda>core.
     try_then (resolve m core ''8082/tcp'' ''http'') (\<lambda>dss_url.
     try_then (update_record (\<lambda>s. s\<lparr>rd_dss_base_url := dss_url\<rparr>)) (\<lambda>_.
     try_then (startPostGIS m ''postgis-a'' labels limit) (\<lambda>postgis_a.
     try_then (startPostGIS m ''postgis-b'' labels limit) (\<lambda>postgis_b.
     try_then (launch m ''uss-a'' (uss_a_request cfg limit labels) ''start Aero Arc USS-A'') (\<lambda>api_a.
     try_then (launch m ''uss-b'' (uss_b_request cfg limit labels) ''start Aero Arc USS-B'') (\<lambda>api_b.
     try_then (new_participant m ''uss-a'' ''uss-a'' api_a postgis_a) (\<lambda>a.
     try_then (update_record (\<lambda>s. s\<lparr>rd_uss_a := a\<rparr>)) (\<lambda>_.
     try_then (new_participant m ''uss-b'' ''uss-b'' api_b postgis_b) (\<lambda>b.
     try_then (update_record (\<lambda>s. s\<lparr>rd_uss_b := b\<rparr>)) (\<lambda>_.
     real_save_manifest m cfg)))))))))))))))))))"

definition real_capture :: "('c, 'w) machine \<Rightarrow> ((string \<rightharpoonup> 'c) \<Rightarrow> string list) \<Rightarrow> 'c environment \<Rightarrow> 'w \<Rightarrow> go_error option \<times> 'w" where
  "real_capture m order s w = capture_deployment m order s w"

definition real_close_order :: "string list" where
  "real_close_order = [''uss-b'', ''uss-a'', ''postgis-b'', ''postgis-a'', ''interuss-dss'',
     ''interuss-oauth'', ''interuss-aux-migration'', ''interuss-rid-migration'',
     ''interuss-scd-migration'', ''interuss-crdb'']"

definition real_close :: "('c, 'w) machine \<Rightarrow> 'c environment \<Rightarrow> 'w \<Rightarrow> go_error option \<times> 'w" where
  "real_close m s w =
     close_all m ''remove real-DSS network'' (dp_containers s) (dp_network s) real_close_order w"

definition real_startup_limit :: "real_config \<Rightarrow> int" where
  "real_startup_limit cfg = (if rg_startup_limit cfg \<le> 0 then 720000000000 else rg_startup_limit cfg)"

definition real_required_inputs :: "real_config \<Rightarrow> string list" where
  "real_required_inputs cfg = [
     path_join [rg_api_source cfg, ''Dockerfile''],
     path_join [rg_api_source cfg, ''go.mod''],
     path_join [rg_interuss_source cfg, ''Dockerfile''],
     path_join [rg_interuss_source cfg, ''cmds'', ''dummy-oauth'', ''Dockerfile''],
     path_join [rg_interuss_source cfg, ''build'', ''test-certs'', ''auth2.pem'']]"

definition new_environment :: "real_config \<Rightarrow> int \<Rightarrow> 'c environment" where
  "new_environment cfg now =
     \<lparr>dp_run_id = ''real-dss-'' @ int_dec (now div nanos_per_second) @ ''-'' @ int_dec (rg_seed cfg),
      dp_seed = rg_seed cfg, dp_artifact_dir = rg_artifact_dir cfg, dp_network = None,
      dp_containers = Map.empty, rd_dss_base_url = [], rd_oauth_url = [],
      rd_uss_a = participant_zero, rd_uss_b = participant_zero\<rparr>"

definition real_start ::
  "('c, 'w) machine \<Rightarrow> ((string \<rightharpoonup> 'c) \<Rightarrow> string list) \<Rightarrow> real_config \<Rightarrow> 'w \<Rightarrow> (go_error + 'c environment) \<times> 'w" where
  "real_start m order cfg w =
     (if rg_root_dir cfg = [] \<or> rg_api_source cfg = [] \<or> rg_interuss_source cfg = [] \<or> rg_artifact_dir cfg = []
      then (Inl ''root, API source, InterUSS source, and artifact directories are required'', w)
      else case first_missing m (real_required_inputs cfg) w of
        Some (p, e) \<Rightarrow> (Inl (''required real-DSS input '' @ p @ '': '' @ e), w)
      | None \<Rightarrow>
          (let s = new_environment cfg (mc_now m w) in
           or_tear_down (real_capture m order) (real_close m)
             (real_body m cfg (real_startup_limit cfg) (real_labels (dp_run_id s) (dp_seed s)) (s, w))))"

subsection \<open>Ownership\<close>

interpretation real_env: closable real_close_order real_close
proof
  fix live :: "'w \<Rightarrow> 'c set" and m :: "('c, 'w) machine" and s w
  assume "docker_laws live m" and "sure_terminate m"
  then show "live (snd (real_close m s w)) =
      live w - {c. \<exists>name\<in>set real_close_order. dp_containers s name = Some c}"
    unfolding real_close_def by (rule close_all_live)
qed

lemma triple_exit:
  "A \<subseteq> names \<Longrightarrow> triple (owns_some live base names) (owns live base A) (check_exit m c name) (\<lambda>u. owns live base A)"
  by (rule triple_keep) (simp_all add: check_exit_def split: option.split)

lemma triple_participant:
  assumes "A \<subseteq> names"
  shows "triple (owns_some live base names) (owns live base A) (new_participant m name subject api database)
    (\<lambda>u. owns live base A)"
  unfolding new_participant_def
  by (intro triple_try [OF triple_resolve [OF assms]] triple_done)

lemma triple_real_manifest:
  fixes m :: "('c, 'w) machine"
  assumes "docker_laws live m" and "A \<subseteq> names"
  shows "triple (owns_some live base names) (owns live base A) (real_save_manifest m cfg) (\<lambda>u. owns live base A)"
proof (rule triple_keep [OF _ _ assms(2)])
  fix s :: "'c environment" and w
  obtain e w' where doc: "save_document m (dp_artifact_dir s) (real_manifest_json cfg s (mc_now m w)) w = (e, w')"
    by fastforce
  have "live w' = live w" using save_document_live [OF assms(1)] doc by (metis snd_conv)
  then show "live (snd (snd (real_save_manifest m cfg (s, w)))) = live w"
    "dp_containers (fst (snd (real_save_manifest m cfg (s, w)))) = dp_containers s"
    by (cases e; simp add: real_save_manifest_def doc)+
qed

lemmas real_names = real_close_order_def migration_name_def

lemma triple_real_body:
  assumes "docker_laws live m" and "no_orphans m"
  shows "triple (owns_some live base (set real_close_order)) (owns live base {}) (real_body m cfg limit labels)
    (\<lambda>u. owns live base (set real_close_order))"
proof -
  note new = triple_launch [OF assms]
  let ?E = "owns_some live base (set real_close_order)"
  have schemas: "triple ?E (owns live base {''interuss-scd-migration'', ''interuss-crdb''})
      (migrate_schemas m limit labels [''rid'', ''aux_''])
      (\<lambda>u. owns live base {''interuss-aux-migration'', ''interuss-rid-migration'', ''interuss-scd-migration'', ''interuss-crdb''})"
    unfolding migrate_schemas.simps
    by (rule new triple_try [OF new] triple_try [OF triple_exit] triple_done | simp add: real_names)+
  have all: "set real_close_order = {''uss-b'', ''uss-a'', ''postgis-b'', ''postgis-a'', ''interuss-dss'',
     ''interuss-oauth'', ''interuss-aux-migration'', ''interuss-rid-migration'', ''interuss-scd-migration'', ''interuss-crdb''}"
    by (simp add: real_close_order_def)
  note steps = triple_try [OF triple_network [OF assms(1)]] triple_try [OF new] triple_try [OF triple_exit]
    triple_try [OF schemas [unfolded all]] triple_try [OF triple_resolve] triple_try [OF triple_update]
    triple_try [OF triple_participant] triple_real_manifest [OF assms(1)]
  show ?thesis
    unfolding real_body_def startPostGIS_def all
    by (rule steps | simp add: real_names)+
qed

lemma real_start_owns:
  fixes m :: "('c, 'w) machine"
  assumes "docker_laws live m" and "no_orphans m" and "sure_terminate m"
  shows "case real_start m order cfg w of
     (Inl e, w') \<Rightarrow> live w' = live w
   | (Inr s, w') \<Rightarrow> owns live (live w) (set real_close_order) (s, w')"
proof -
  define s0 :: "'c environment" where "s0 = new_environment cfg (mc_now m w)"
  have "owns live (live w) {} (s0, w)" by (simp add: owns_def holds_def s0_def new_environment_def)
  moreover have "live (snd (real_capture m order s v)) = live v" for s v
    by (simp add: real_capture_def capture_deployment_live [OF assms(1)])
  ultimately have "case or_tear_down (real_capture m order) (real_close m)
      (real_body m cfg (real_startup_limit cfg) (real_labels (dp_run_id s0) (dp_seed s0)) (s0, w)) of
     (Inl e, w') \<Rightarrow> live w' = live w
   | (Inr s, w') \<Rightarrow> owns live (live w) (set real_close_order) (s, w')"
    by (intro real_env.tear_down_owns [OF assms(1,3) _ triple_real_body [OF assms(1,2)]])
  then show ?thesis by (simp add: real_start_def s0_def Let_def split: option.split)
qed

end
