(* ===== verification/Real_Observer.thy ===== *)
theory Real_Observer
  imports Real_DSS Invariants Fixture_Requests
begin

section \<open>The real-DSS observer\<close>

text \<open>
  \<open>ReferenceObserver\<close> of \<open>internal/realdss/stack.go\<close>: it fetches a token for its USS's subject
  and asks the DSS for one operational intent reference.
\<close>

subsection \<open>Query strings\<close>

text \<open>
  \<open>url.Values\<close> as a list of keys in order, each with its values, and what the observer uses of
  it: \<open>Set\<close> is \<open>put_member\<close>, \<open>Encode\<close> is \<open>query_encode\<close>.
\<close>

definition query_keeps :: "char \<Rightarrow> bool" where
  "query_keeps c \<longleftrightarrow> (let n = (of_char c :: nat) in
     48 \<le> n \<and> n \<le> 57 \<or> 65 \<le> n \<and> n \<le> 90 \<or> 97 \<le> n \<and> n \<le> 122 \<or> c \<in> set ''-_.~'')"

definition query_char :: "char \<Rightarrow> string" where
  "query_char c = (if query_keeps c then [c] else if c = CHR '' '' then ''+''
     else let n = (of_char c :: nat) in [CHR ''%'', upper_hex (n div 16), upper_hex (n mod 16)])"

definition query_escape :: "string \<Rightarrow> string" where
  "query_escape s = concat (map query_char s)"

definition query_encode :: "(string \<times> string list) list \<Rightarrow> string" where
  "query_encode q = join ''&'' (concat (map (\<lambda>(k, vs). map (\<lambda>v. query_escape k @ ''='' @ query_escape v) vs) q))"

subsection \<open>The client\<close>

text \<open>
  What the network answers: the status code and line, why the body could not be read to its
  end, and its text; \<open>rs_body\<close> is the JSON value at its head. The client, the parsers of URLs
  and of complete JSON documents are the fields of \<open>dss_client\<close>. A parsed URL is its base, its
  path and its query.
\<close>

record dss_response = response +
  rs_status_line :: string
  rs_read_error :: "go_error option"

record parsed_url =
  ur_base :: string
  ur_path :: "string list"
  ur_query :: "(string \<times> string list) list"

record 'w dss_client =
  dc_parse_url :: "string \<Rightarrow> go_error + parsed_url"
  dc_url_error :: "string \<Rightarrow> go_error option"
  dc_do :: "string \<Rightarrow> string option \<Rightarrow> request \<Rightarrow> 'w \<Rightarrow> (go_error + dss_response) \<times> 'w"
  dc_document :: "string \<Rightarrow> string + jval"

definition get_request :: "'w dss_client \<Rightarrow> string \<Rightarrow> string list \<Rightarrow> string \<Rightarrow> go_error + request" where
  "get_request cl base segs query = (case dc_url_error cl (base @ url_path segs @ query) of
     Some e \<Rightarrow> Inl e
   | None \<Rightarrow> Inr \<lparr>rq_method = ''GET'', rq_path = segs, rq_uri = url_path segs @ query, rq_body = Inl ''EOF''\<rparr>)"

subsection \<open>The observer\<close>

record reference_observer =
  ro_dss_base_url :: string
  ro_token_url :: string
  ro_subject :: string

definition Observer :: "'c environment \<Rightarrow> string \<Rightarrow> go_error + reference_observer" where
  "Observer s subject = (if subject = [] then Inl ''real-DSS observer subject is required''
     else Inr \<lparr>ro_dss_base_url = rd_dss_base_url s, ro_token_url = rd_oauth_url s, ro_subject = subject\<rparr>)"

definition token_query :: "string \<Rightarrow> (string \<times> string list) list \<Rightarrow> (string \<times> string list) list" where
  "token_query subject q =
     put_member ''sub'' [subject] (put_member ''issuer'' [''localhost'']
       (put_member ''intended_audience'' [''localhost''] (put_member ''scope'' [''utm.strategic_coordination'']
         (put_member ''grant_type'' [''client_credentials''] q))))"

definition token_field :: "string \<Rightarrow> jval \<Rightarrow> string \<Rightarrow> decode_error + string" where
  "token_field k v cur = (if names_field k ''access_token''
     then dec_string ''.access_token'' cur v else Inr cur)"

definition decode_token :: "jval \<Rightarrow> decode_error + string" where
  "decode_token = dec_struct [] ''struct'' token_field []"

definition token :: "'w dss_client \<Rightarrow> reference_observer \<Rightarrow> 'w \<Rightarrow> (go_error + string) \<times> 'w" where
  "token cl ro w = (case dc_parse_url cl (ro_token_url ro) of
     Inl e \<Rightarrow> (Inl e, w)
   | Inr u \<Rightarrow>
       (case get_request cl (ur_base u) (ur_path u) (''?'' @ query_encode (token_query (ro_subject ro) (ur_query u))) of
          Inl e \<Rightarrow> (Inl e, w)
        | Inr rq \<Rightarrow> (case dc_do cl (ur_base u) None rq w of
            (Inl e, w') \<Rightarrow> (Inl (''get InterUSS observer token: '' @ e), w')
          | (Inr rs, w') \<Rightarrow>
              (if rs_status rs \<noteq> 200
               then (Inl (''get InterUSS observer token returned '' @ rs_status_line rs), w')
               else case decode_stream decode_token (rs_body rs) of
                 Inl e \<Rightarrow> (Inl (''decode InterUSS observer token: '' @ decode_error_text e), w')
               | Inr t \<Rightarrow>
                   (if t = [] then (Inl ''InterUSS observer token response was empty'', w')
                    else (Inr t, w'))))))"

definition observed_field :: "string \<Rightarrow> jval \<Rightarrow> dss_reference \<Rightarrow> decode_error + dss_reference" where
  "observed_field k v r =
     (let path = ''.operational_intent_reference.'' in
      if names_field k ''version'' then
        assign (dec_int (path @ ''version'') (dr_version r) v) (\<lambda>x. r\<lparr>dr_version := x\<rparr>)
      else if names_field k ''state'' then
        assign (dec_string (path @ ''state'') (dr_state r) v) (\<lambda>x. r\<lparr>dr_state := x\<rparr>)
      else if names_field k ''ovn'' then
        assign (dec_string (path @ ''ovn'') (dr_ovn r) v) (\<lambda>x. r\<lparr>dr_ovn := x\<rparr>)
      else if names_field k ''manager'' then
        assign (dec_string (path @ ''manager'') (dr_manager r) v) (\<lambda>x. r\<lparr>dr_manager := x\<rparr>)
      else if names_field k ''uss_base_url'' then
        assign (dec_string (path @ ''uss_base_url'') (dr_uss_base_url r) v) (\<lambda>x. r\<lparr>dr_uss_base_url := x\<rparr>)
      else Inr r)"

definition document_field :: "string \<Rightarrow> jval \<Rightarrow> dss_reference \<Rightarrow> decode_error + dss_reference" where
  "document_field k v r = (if names_field k ''operational_intent_reference''
     then dec_struct ''.operational_intent_reference'' ''struct'' observed_field r v else Inr r)"

text \<open>The decoded reference exists whatever the document says; a missing one is the zero value.\<close>

definition decode_document :: "jval \<Rightarrow> decode_error + dss_reference" where
  "decode_document = dec_struct [] ''struct'' document_field (dss_zero\<lparr>dr_exists := True\<rparr>)"

definition reference_segs :: "string \<Rightarrow> string list" where
  "reference_segs iid = [''dss'', ''v1'', ''operational_intent_references'', iid]"

definition observe_reference :: "'w dss_client \<Rightarrow> reference_observer \<Rightarrow> string \<Rightarrow> 'w \<Rightarrow> (go_error + dss_reference) \<times> 'w" where
  "observe_reference cl ro iid w = (case token cl ro w of
     (Inl e, w1) \<Rightarrow> (Inl e, w1)
   | (Inr t, w1) \<Rightarrow>
       (case get_request cl (ro_dss_base_url ro) (reference_segs iid) [] of
          Inl e \<Rightarrow> (Inl e, w1)
        | Inr rq \<Rightarrow> (case dc_do cl (ro_dss_base_url ro) (Some (''Bearer '' @ t)) rq w1 of
            (Inl e, w2) \<Rightarrow> (Inl (''get InterUSS operational intent reference: '' @ e), w2)
          | (Inr rs, w2) \<Rightarrow>
              (if rs_status rs = 404 then (Inr dss_zero, w2)
               else case rs_read_error rs of
                 Some e \<Rightarrow> (Inl e, w2)
               | None \<Rightarrow>
                   (let text = take 1048576 (rs_text rs) in
                    if rs_status rs \<noteq> 200
                    then (Inl (''get InterUSS operational intent reference returned '' @ rs_status_line rs @ '': '' @ text), w2)
                    else case decode_stream decode_document (dc_document cl text) of
                      Inl e \<Rightarrow> (Inl (''decode InterUSS operational intent reference: '' @ decode_error_text e), w2)
                    | Inr r \<Rightarrow> (Inr r, w2))))))"

subsection \<open>Against the fixture\<close>

text \<open>
  A network on which one server issues the token at \<open>/token\<close> and the fixture serves every other
  path, to the bearer of that token only. The two observers of the harness can then be compared.
\<close>

definition dss_reply :: "outcome \<Rightarrow> go_error + dss_response" where
  "dss_reply out = (case client_view out of
     Inl e \<Rightarrow> Inl e
   | Inr rs \<Rightarrow> Inr \<lparr>rs_status = rs_status rs, rs_body = rs_body rs, rs_text = rs_text rs,
       rs_status_line = int_dec (rs_status rs), rs_read_error = None\<rparr>)"

definition fixture_dss_client :: "env \<Rightarrow> (string \<Rightarrow> string + jval) \<Rightarrow> string \<Rightarrow> server dss_client" where
  "fixture_dss_client env parse issued = \<lparr>
     dc_parse_url = (\<lambda>u. Inr \<lparr>ur_base = u, ur_path = [''token''], ur_query = []\<rparr>),
     dc_url_error = (\<lambda>u. None),
     dc_do = (\<lambda>base auth rq s.
       if rq_path rq = [''token'']
       then (dss_reply (Reply 200 (BJson (JObj [(''access_token'', JStr issued)]))), s)
       else if auth \<noteq> Some (''Bearer '' @ issued) then (dss_reply (Reply 401 BNone), s)
       else case serve env rq s of (out, s') \<Rightarrow> (dss_reply out, s')),
     dc_document = parse\<rparr>"

definition reference_document :: "reference \<Rightarrow> jval" where
  "reference_document r = JObj [(''operational_intent_reference'', reference_json r)]"

text \<open>The document is read whole and parsed back.\<close>

definition readable :: "(string \<Rightarrow> string + jval) \<Rightarrow> reference \<Rightarrow> bool" where
  "readable parse r \<longleftrightarrow> length (body_text (BJson (reference_document r))) \<le> 1048576 \<and>
     parse (body_text (BJson (reference_document r))) = Inr (reference_document r)"

lemma dss_reply_simps [simp]:
  "dss_reply (Reply st b) = Inr \<lparr>rs_status = st, rs_body = read_body b, rs_text = body_text b,
     rs_status_line = int_dec st, rs_read_error = None\<rparr>"
  by (simp add: dss_reply_def)

lemma decode_document_reference:
  "in_int64 (rf_version r) \<Longrightarrow> decode_document (reference_document r) = Inr (reference_view r)"
  by (simp add: decode_document_def document_field_def reference_document_def reference_json_def
      observed_field_def dss_zero_def reference_view_def names_field_def ascii_lower_def Let_def)

lemma assign_Inr: "assign d f = Inr y \<longleftrightarrow> (\<exists>x. d = Inr x \<and> y = f x)"
  by (cases d) auto

lemma observed_field_exists: "observed_field k v r = Inr r' \<Longrightarrow> dr_exists r' = dr_exists r"
  unfolding observed_field_def Let_def by (auto simp only: assign_Inr dss_reference.simps sum.inject split: if_split_asm; simp)

text \<open>A relation every member keeps is kept by all of them.\<close>

lemma dec_members_keep:
  assumes "\<And>k v r r'. fld k v r = Inr r' \<Longrightarrow> f r' = f r"
  shows "dec_members fld ms r = Inr r' \<Longrightarrow> f r' = f r"
proof (induction ms arbitrary: r)
  case (Cons m ms)
  obtain k v where m: "m = (k, v)" by fastforce
  obtain r1 where "fld k v r = Inr r1" "dec_members fld ms r1 = Inr r'"
    using Cons.prems m by (cases "fld k v r") simp_all
  with Cons.IH assms show ?case by metis
qed simp

lemma dec_struct_keep:
  assumes "\<And>k v r r'. fld k v r = Inr r' \<Longrightarrow> f r' = f r" and "dec_struct path typ fld r v = Inr r'"
  shows "f r' = f r"
proof (cases v)
  case (JObj ms)
  with assms(2) have "dec_members fld ms r = Inr r'" by simp
  with assms(1) show ?thesis by (rule dec_members_keep)
qed (use assms(2) in simp_all)

lemma document_field_exists:
  assumes "document_field k v r = Inr r'"
  shows "dr_exists r' = dr_exists r"
proof (cases "names_field k ''operational_intent_reference''")
  case True
  with assms have "dec_struct ''.operational_intent_reference'' ''struct'' observed_field r v = Inr r'"
    by (simp add: document_field_def)
  with observed_field_exists show ?thesis by (rule dec_struct_keep)
qed (use assms in \<open>simp add: document_field_def\<close>)

lemma decode_document_exists:
  assumes "decode_document v = Inr r"
  shows "dr_exists r"
proof -
  have "dr_exists r = dr_exists (dss_zero\<lparr>dr_exists := True\<rparr>)"
    using document_field_exists assms [unfolded decode_document_def] by (rule dec_struct_keep)
  then show ?thesis by simp
qed

lemma token_fixture:
  "token (fixture_dss_client env parse issued) ro s =
     (if issued = [] then Inl ''InterUSS observer token response was empty'' else Inr issued, s)"
  by (simp add: token_def fixture_dss_client_def get_request_def decode_stream_def decode_token_def
      token_field_def names_field_def)

definition observed_call :: "string \<Rightarrow> request" where
  "observed_call iid = \<lparr>rq_method = ''GET'', rq_path = reference_segs iid,
     rq_uri = url_path (reference_segs iid), rq_body = Inl ''EOF''\<rparr>"

lemma document_fixture [simp]: "dc_document (fixture_dss_client env parse issued) = parse"
  by (simp add: fixture_dss_client_def)

lemma get_request_fixture:
  "get_request (fixture_dss_client env parse issued) base (reference_segs iid) [] = Inr (observed_call iid)"
  by (simp add: get_request_def fixture_dss_client_def observed_call_def del: url_path_simps)

lemma observed_path: "rq_path (observed_call iid) \<noteq> [''token'']"
  by (simp add: observed_call_def reference_segs_def)

lemma do_fixture:
  "dc_do (fixture_dss_client env parse issued) base (Some (''Bearer '' @ issued)) (observed_call iid) s =
     (case serve env (observed_call iid) s of (out, s') \<Rightarrow> (dss_reply out, s'))"
  by (simp add: fixture_dss_client_def observed_path del: append.simps)

lemma serve_observed:
  "iid \<noteq> [] \<Longrightarrow> serve env (observed_call iid) s = handle_get_reference env (observed_call iid) iid s"
  by (simp add: serve_def dispatch_def observed_call_def reference_segs_def route_dss path_value_def
      del: url_path_simps split: prod.splits)

lemma serve_get_quiet:
  assumes "sv_faults s OperationGetReference = None" and "iid \<noteq> []"
  shows "fst (serve env (observed_call iid) s) = (case sv_references s iid of
     None \<Rightarrow> Reply 404 (BJson (message_json ''reference not found''))
   | Some r \<Rightarrow> Reply 200 (BJson (reference_document r)))"
  using assms by (simp add: serve_observed handle_get_reference_def take_fault_def pre_commit_fault_def respond_def
      write_json_plain reference_document_def Let_def split: option.split)

lemma observe_reference_fixture:
  assumes "fixture_ready env s" and "sv_faults s OperationGetReference = None" and "iid \<noteq> []" and "issued \<noteq> []"
    and "\<And>r. sv_references s iid = Some r \<Longrightarrow> readable parse r"
  shows "fst (observe_reference (fixture_dss_client env parse issued) ro iid s) =
    Inr (case sv_references s iid of None \<Rightarrow> dss_zero | Some r \<Rightarrow> reference_view r)"
proof -
  obtain out s' where out: "serve env (observed_call iid) s = (out, s')" by fastforce
  with serve_get_quiet [OF assms(2,3)] have reply: "out = (case sv_references s iid of
     None \<Rightarrow> Reply 404 (BJson (message_json ''reference not found''))
   | Some r \<Rightarrow> Reply 200 (BJson (reference_document r)))" by (metis fst_conv)
  have step: "observe_reference (fixture_dss_client env parse issued) ro iid s =
      (case dss_reply out of
         Inl e \<Rightarrow> (Inl (''get InterUSS operational intent reference: '' @ e), s')
       | Inr rs \<Rightarrow> (if rs_status rs = 404 then (Inr dss_zero, s')
           else case rs_read_error rs of
             Some e \<Rightarrow> (Inl e, s')
           | None \<Rightarrow> (let text = take 1048576 (rs_text rs) in
               if rs_status rs \<noteq> 200
               then (Inl (''get InterUSS operational intent reference returned '' @ rs_status_line rs @ '': '' @ text), s')
               else case decode_stream decode_document (dc_document (fixture_dss_client env parse issued) text) of
                 Inl e \<Rightarrow> (Inl (''decode InterUSS operational intent reference: '' @ decode_error_text e), s')
               | Inr r \<Rightarrow> (Inr r, s'))))"
    using assms(4) out do_fixture [of env parse issued "ro_dss_base_url ro" iid s]
    by (simp add: observe_reference_def token_fixture get_request_fixture del: append.simps)
  show ?thesis
  proof (cases "sv_references s iid")
    case None
    with step reply show ?thesis by simp
  next
    case (Some r)
    then have "in_int64 (rf_version r)"
      using assms(1) by (auto simp: fixture_ready_def wf_server_def wf_reference_def)
    with Some assms(5) [OF Some] step reply show ?thesis
      by (simp add: readable_def decode_stream_def decode_document_reference Let_def del: body_text.simps)
  qed
qed

lemma observe_empty_id:
  "observe_reference (fixture_dss_client env parse issued) ro [] s = (r, s') \<Longrightarrow> r = Inl e \<or> r = Inr dss_zero \<or> issued = []"
proof -
  assume r: "observe_reference (fixture_dss_client env parse issued) ro [] s = (r, s')"
  have "serve env (observed_call []) s = (Reply 404 (BRaw ''404 page not found''), s)"
    by (simp add: serve_def dispatch_def observed_call_def reference_segs_def routes_def match_method_def
        mux_miss_def path_known_def del: url_path_simps)
  with r do_fixture [of env parse issued "ro_dss_base_url ro" "[]" s] show ?thesis
    by (cases "issued = []") (simp_all add: observe_reference_def token_fixture get_request_fixture del: append.simps)
qed

text \<open>
  So both observers satisfy the probe's interface, for the same truth: the references the
  fixture holds.
\<close>

definition observable :: "env \<Rightarrow> (string \<Rightarrow> string + jval) \<Rightarrow> server \<Rightarrow> bool" where
  "observable env parse s \<longleftrightarrow> fixture_ready env s \<and> sv_faults s OperationGetReference = None \<and>
     sv_references s [] = None \<and> (\<forall>iid r. sv_references s iid = Some r \<longrightarrow> readable parse r)"

interpretation real_dss: dss_observer "observe_reference (fixture_dss_client env parse issued) ro"
  "\<lambda>s iid. map_option reference_view (sv_references s iid)" "observable env parse" for env parse issued ro
proof
  fix s iid r s'
  assume ready: "observable env parse s"
    and r: "observe_reference (fixture_dss_client env parse issued) ro iid s = (Inr r, s')"
  have issued: "issued \<noteq> []" using r by (auto simp: observe_reference_def token_fixture)
  show "r = (case map_option reference_view (sv_references s iid) of None \<Rightarrow> dss_zero | Some d \<Rightarrow> d)"
  proof (cases "iid = []")
    case True
    with ready observe_empty_id r issued show ?thesis by (fastforce simp: observable_def)
  next
    case False
    have "fst (observe_reference (fixture_dss_client env parse issued) ro iid s) =
        Inr (case sv_references s iid of None \<Rightarrow> dss_zero | Some r \<Rightarrow> reference_view r)"
      using ready by (intro observe_reference_fixture [OF _ _ False issued]) (auto simp: observable_def)
    with r show ?thesis by (simp split: option.splits)
  qed
qed (auto simp: reference_view_def)

end
