(* ===== verification/Real_Properties.thy ===== *)
theory Real_Properties
  imports Real_Observer Stack_Properties
begin

section \<open>Properties of the real-DSS environment and its observer\<close>







subsection \<open>The observer\<close>

text \<open>
  C11: the two observers of the harness agree. Pointed at the same fixture, whose references can
  be read back and whose reference endpoint has no fault pending, the token-based DSS observer and
  the fixture's control-plane observer report the same reference, or both none.
\<close>

theorem observers_agree:
  assumes "fixture_ready env s" and "sv_faults s OperationGetReference = None" and "iid \<noteq> []" and "issued \<noteq> []"
    and "\<And>r. sv_references s iid = Some r \<Longrightarrow> readable parse r"
  shows "fst (observe_reference (fixture_dss_client env parse issued) ro iid s) =
    fst (ObserveDSSReference (fixture_client env) base iid s)"
  by (simp add: observe_reference_fixture [OF assms] observe_fixture [OF assms(1)])

lemma example_document_length:
  "length (body_text (BJson (reference_document (put_reference quiet_env ''a'' 1
     \<lparr>pr_state = ''Accepted'', pr_uss_base_url = [], pr_extents = []\<rparr> (new_server example_config))))) \<le> 1048576"
proof -
  have "rfc3339 (- (60 * nanos_per_second)) = ''1969-12-31T23:59:00Z''"
    "rfc3339 (3540 * nanos_per_second) = ''1970-01-01T00:59:00Z''" "int_dec 1 = ''1''"
    "trim_right CHR ''/'' ''http://fixture:8081/'' = ''http://fixture:8081''"
    by code_simp+
  then show ?thesis
    by (simp add: put_reference_def reference_document_def reference_json_def new_server_def example_config_def
        quiet_env_def rfc3339_time_def json_string_def json_char_def Let_def ovn_of_def)
qed

theorem observers_agree_witness:
  "fst (observe_reference (fixture_dss_client (quiet_env\<lparr>en_order := [''a'']\<rparr>) (\<lambda>t. Inr (reference_document
       (put_reference quiet_env ''a'' 1 \<lparr>pr_state = ''Accepted'', pr_uss_base_url = [], pr_extents = []\<rparr>
         (new_server example_config)))) ''token'')
     \<lparr>ro_dss_base_url = ''http://dss'', ro_token_url = ''http://oauth'', ro_subject = ''uss-a''\<rparr> ''a''
     (snd (serve quiet_env (create_call ''a'' (state_body ''Accepted'')) (new_server example_config)))) =
   fst (ObserveDSSReference (fixture_client (quiet_env\<lparr>en_order := [''a'']\<rparr>)) ''http://fixture'' ''a''
     (snd (serve quiet_env (create_call ''a'' (state_body ''Accepted'')) (new_server example_config))))"
proof -
  let ?init = "new_server example_config"
  let ?s = "snd (serve quiet_env (create_call ''a'' (state_body ''Accepted'')) ?init)"
  let ?body = "\<lparr>pr_state = ''Accepted'', pr_uss_base_url = [], pr_extents = []\<rparr>"
  let ?r = "put_reference quiet_env ''a'' 1 ?body ?init"
  have body: "decode_stream decode_put (state_body ''Accepted'') = Inr ?body"
    by (simp add: state_body_def decode_stream_def decode_put_def put_field_def names_field_def)
  have s: "sv_references ?s = [''a'' \<mapsto> ?r]" "sv_faults ?s = Map.empty"
    using create_fresh [of "''a''" ?init "state_body ''Accepted''" ?body quiet_env] body
    by (simp_all add: Let_def record_event_frame new_server_sel)
  have "fixture_ready (quiet_env\<lparr>en_order := [''a'']\<rparr>) ?s"
    by (simp add: fixture_ready_def wf_serve wf_new_server enumerates_def s)
  moreover have "length (body_text (BJson (reference_document ?r))) \<le> 1048576"
    by (rule example_document_length)
  then have "readable (\<lambda>t. Inr (reference_document ?r)) ?r" by (simp add: readable_def del: body_text.simps)
  ultimately show ?thesis
    by (intro observers_agree) (simp_all add: s)
qed

text \<open>
  C39: an observation is evidence. When the DSS observer returns without an error, the OAuth server
  issued a non-empty token, the DSS was asked for exactly this reference under it, and it answered:
  with 404 if the reference is reported missing, with 200 and a readable document if it is
  reported to exist.
\<close>

theorem observation_is_answered:
  assumes "observe_reference cl ro iid w = (Inr r, w2)"
  shows "\<exists>t w1 rq rs. token cl ro w = (Inr t, w1) \<and> t \<noteq> [] \<and> rq_method rq = ''GET'' \<and> rq_path rq = reference_segs iid \<and>
    dc_do cl (ro_dss_base_url ro) (Some (''Bearer '' @ t)) rq w1 = (Inr rs, w2) \<and>
    (if dr_exists r then rs_status rs = 200 \<and> rs_read_error rs = None \<and>
       decode_stream decode_document (dc_document cl (take 1048576 (rs_text rs))) = Inr r
     else rs_status rs = 404 \<and> r = dss_zero)"
proof -
  obtain t w1 where t: "token cl ro w = (Inr t, w1)"
    using assms by (auto simp: observe_reference_def split: prod.splits sum.splits)
  then have "t \<noteq> []" by (auto simp: token_def split: prod.splits sum.splits if_splits)
  moreover obtain rq where rq: "get_request cl (ro_dss_base_url ro) (reference_segs iid) [] = Inr rq"
    using assms t by (auto simp: observe_reference_def split: sum.splits)
  moreover from this have "rq_method rq = ''GET''" "rq_path rq = reference_segs iid"
    by (auto simp: get_request_def split: option.splits)
  moreover obtain rs where "dc_do cl (ro_dss_base_url ro) (Some (''Bearer '' @ t)) rq w1 = (Inr rs, w2)"
    and "rs_status rs = 404 \<and> r = dss_zero \<or> rs_status rs = 200 \<and> rs_read_error rs = None \<and>
      decode_stream decode_document (dc_document cl (take 1048576 (rs_text rs))) = Inr r"
    using assms t rq
    by (auto simp: observe_reference_def Let_def split: prod.splits sum.splits if_splits option.splits)
  moreover have "dr_exists r" if "decode_stream decode_document v = Inr r" for v
    using decode_document_exists that by (auto simp: decode_stream_def split: sum.splits)
  ultimately show ?thesis using t by (auto simp: dss_zero_def)
qed

theorem observation_is_answered_witness:
  "\<exists>s' rq rs. dc_do (fixture_dss_client quiet_env (\<lambda>t. Inl ''unused'') ''token'') ''http://dss''
       (Some (''Bearer '' @ ''token'')) rq (new_server example_config) = (Inr rs, s') \<and>
     rq_path rq = reference_segs ''a'' \<and> rs_status rs = 404"
proof -
  let ?cl = "fixture_dss_client quiet_env (\<lambda>t. Inl ''unused'') ''token''"
  let ?ro = "\<lparr>ro_dss_base_url = ''http://dss'', ro_token_url = ''http://oauth'', ro_subject = ''uss-a''\<rparr>"
  let ?s = "new_server example_config"
  have "fst (observe_reference ?cl ?ro ''a'' ?s) = Inr dss_zero"
    using observe_reference_fixture [OF new_server_ready, of example_config "''a''" "''token''" "\<lambda>t. Inl ''unused''" ?ro]
    by (simp add: new_server_sel)
  then obtain s' where "observe_reference ?cl ?ro ''a'' ?s = (Inr dss_zero, s')" by (metis prod.collapse)
  from observation_is_answered [OF this] show ?thesis
    by (auto simp: token_fixture dss_zero_def)
qed

end
