(* ===== verification/Fixture_Concurrent.thy ===== *)
theory Fixture_Concurrent
  imports Fixture_Store
begin

section \<open>Concurrent requests to the fixture\<close>

text \<open>
  \<open>net/http\<close> serves every request in a goroutine of its own. This theory cuts the handlers of
  \<open>internal/fixture/server.go\<close> at the points where they take or release the server's mutex and
  where they touch the atomic sequence: between two atomic steps of one request any other
  request may take steps. Running the steps of one request without interruption is \<open>serve\<close>.
\<close>

subsection \<open>Requests as sequences of atomic steps\<close>

text \<open>
  A request in flight is answered, about to take an atomic step that decides how it goes on, or
  about to append an event it has numbered.
\<close>

datatype thread = Finished outcome | Atomic "server \<Rightarrow> thread \<times> server" | Append event thread

definition append_event :: "event \<Rightarrow> server \<Rightarrow> server" where
  "append_event e s = s\<lparr>sv_events := sv_events s @ [e]\<rparr>"

primrec alone :: "thread \<Rightarrow> server \<Rightarrow> outcome \<times> server" where
  "alone (Finished out) = (\<lambda>s. (out, s))"
| "alone (Atomic f) = (\<lambda>s. case map_prod alone id (f s) of (g, s') \<Rightarrow> g s')"
| "alone (Append e t) = (\<lambda>s. alone t (append_event e s))"

lemma alone_Atomic [simp]: "alone (Atomic f) s = alone (fst (f s)) (snd (f s))"
  by (cases "f s") simp

declare alone.simps(2) [simp del]

subsection \<open>The steps of the handlers\<close>

definition take_then :: "string \<Rightarrow> (fault_snapshot option \<Rightarrow> thread) \<Rightarrow> thread" where
  "take_then operation k = Atomic (\<lambda>s. case take_fault operation s of (fault, s') \<Rightarrow> (k fault, s'))"

text \<open>\<open>record\<close>: the sequence is atomic, the append is under the mutex.\<close>

definition record_then ::
  "env \<Rightarrow> request \<Rightarrow> string \<Rightarrow> string \<Rightarrow> int \<Rightarrow> fault_snapshot option \<Rightarrow> thread \<Rightarrow> thread" where
  "record_then env rq operation intent_id status fault k = Atomic (\<lambda>s.
     (let seq = sv_sequence s + 1 in
      (Append \<lparr>ev_sequence = seq, ev_at = en_record_time env, ev_operation = operation,
         ev_method = rq_method rq, ev_path = rq_uri rq, ev_intent_id = intent_id,
         ev_status = status, ev_fault = fault\<rparr> k, s\<lparr>sv_sequence := seq\<rparr>)))"

definition respond_outcome :: "int \<Rightarrow> jval \<Rightarrow> fault_snapshot option \<Rightarrow> outcome" where
  "respond_outcome status payload fault = (case fault of
     Some f \<Rightarrow> if fs_malformed_json f then write_header status (BRaw incomplete_json) else write_json status (Some payload)
   | None \<Rightarrow> write_json status (Some payload))"

definition respond_then ::
  "env \<Rightarrow> request \<Rightarrow> string \<Rightarrow> string \<Rightarrow> int \<Rightarrow> jval \<Rightarrow> fault_snapshot option \<Rightarrow> thread" where
  "respond_then env rq operation intent_id status payload fault =
     record_then env rq operation intent_id status fault (Finished (respond_outcome status payload fault))"

definition pre_commit_then ::
  "env \<Rightarrow> request \<Rightarrow> string \<Rightarrow> string \<Rightarrow> fault_snapshot option \<Rightarrow> thread \<Rightarrow> thread" where
  "pre_commit_then env rq operation intent_id fault k = (case fault of
     None \<Rightarrow> k
   | Some f \<Rightarrow>
       (if 0 < fs_delay_ms f \<and> \<not> wait_millis env (fs_delay_ms f) then
          record_then env rq operation intent_id 499 fault (Finished Unwritten)
        else if fs_status f \<noteq> 0 then respond_then env rq operation intent_id (fs_status f) injected_failure fault
        else k))"

definition query_references_steps :: "env \<Rightarrow> request \<Rightarrow> thread" where
  "query_references_steps env rq = take_then OperationQueryReferences (\<lambda>fault.
     pre_commit_then env rq OperationQueryReferences [] fault (Atomic (\<lambda>s.
       (respond_then env rq OperationQueryReferences [] 200
          (references_json (range_vals (en_order env) (sv_references s))) fault, s))))"

definition subscriptions_steps :: "env \<Rightarrow> request \<Rightarrow> thread" where
  "subscriptions_steps env rq = take_then OperationSubscriptions (\<lambda>fault.
     pre_commit_then env rq OperationSubscriptions [] fault
       (respond_then env rq OperationSubscriptions [] 200 (JObj [(''subscriptions'', JArr [])]) fault))"

definition get_reference_steps :: "env \<Rightarrow> request \<Rightarrow> string \<Rightarrow> thread" where
  "get_reference_steps env rq iid = take_then OperationGetReference (\<lambda>fault.
     pre_commit_then env rq OperationGetReference iid fault (Atomic (\<lambda>s. (case sv_references s iid of
         None \<Rightarrow> respond_then env rq OperationGetReference iid 404 (message_json ''reference not found'') fault
       | Some r \<Rightarrow> respond_then env rq OperationGetReference iid 200
           (JObj [(''operational_intent_reference'', reference_json r)]) fault, s))))"

text \<open>What follows the critical section of the mutating handlers.\<close>

definition put_reply_then ::
  "env \<Rightarrow> request \<Rightarrow> bool \<Rightarrow> string \<Rightarrow> fault_snapshot option \<Rightarrow> put_result \<Rightarrow> string \<Rightarrow> thread" where
  "put_reply_then env rq create iid fault res subscriber =
     (let operation = (if create then OperationCreateReference else OperationUpdateReference);
          status = (if create then 201 else 200) in
      case res of
        PutExists \<Rightarrow> respond_then env rq operation iid 409 (message_json ''reference exists'') fault
      | PutNotFound \<Rightarrow> respond_then env rq operation iid 404 (message_json ''reference not found'') fault
      | PutStale cur \<Rightarrow> respond_then env rq operation iid 409 (stale_json cur) fault
      | PutDone r \<Rightarrow>
          (if closes_after_commit fault
           then record_then env rq operation iid 0 fault (Finished (close_connection env))
           else respond_then env rq operation iid status
                  (JObj [(''operational_intent_reference'', reference_json r),
                         (''subscribers'', subscribers_json subscriber)]) fault))"

definition put_reference_steps :: "env \<Rightarrow> request \<Rightarrow> bool \<Rightarrow> string \<Rightarrow> string \<Rightarrow> thread" where
  "put_reference_steps env rq create iid ovn =
     (let operation = (if create then OperationCreateReference else OperationUpdateReference) in
      take_then operation (\<lambda>fault. pre_commit_then env rq operation iid fault
        (case decode_stream decode_put (rq_body rq) of
           Inl e \<Rightarrow> respond_then env rq operation iid 400 (message_json (decode_error_text e)) fault
         | Inr body \<Rightarrow> Atomic (\<lambda>s. case commit_put env create iid ovn body s of (res, s') \<Rightarrow>
             (put_reply_then env rq create iid fault res (sv_subscriber_url s'), s')))))"

definition delete_reply_then ::
  "env \<Rightarrow> request \<Rightarrow> string \<Rightarrow> string \<Rightarrow> fault_snapshot option \<Rightarrow> reference option \<Rightarrow> thread" where
  "delete_reply_then env rq iid ovn fault found = (case found of
     None \<Rightarrow> respond_then env rq OperationDeleteReference iid 404 (message_json ''reference not found'') fault
   | Some r \<Rightarrow>
       (if ovn \<noteq> rf_ovn r then
          respond_then env rq OperationDeleteReference iid 409 (stale_json (rf_ovn r)) fault
        else if closes_after_commit fault then
          record_then env rq OperationDeleteReference iid 0 fault (Finished (close_connection env))
        else respond_then env rq OperationDeleteReference iid 200
               (JObj [(''operational_intent_reference'', reference_json (bump iid r)),
                      (''subscribers'', JArr [])]) fault))"

definition delete_reference_steps :: "env \<Rightarrow> request \<Rightarrow> string \<Rightarrow> string \<Rightarrow> thread" where
  "delete_reference_steps env rq iid ovn = take_then OperationDeleteReference (\<lambda>fault.
     pre_commit_then env rq OperationDeleteReference iid fault (Atomic (\<lambda>s.
       case commit_delete iid ovn s of (found, s') \<Rightarrow> (delete_reply_then env rq iid ovn fault found, s'))))"

definition peer_details_steps :: "env \<Rightarrow> request \<Rightarrow> string \<Rightarrow> thread" where
  "peer_details_steps env rq iid = take_then OperationPeerDetails (\<lambda>fault.
     pre_commit_then env rq OperationPeerDetails iid fault (Atomic (\<lambda>s. (case sv_references s iid of
         None \<Rightarrow> respond_then env rq OperationPeerDetails iid 404 (message_json ''intent not found'') fault
       | Some r \<Rightarrow> respond_then env rq OperationPeerDetails iid 200 (details_json r) fault, s))))"

definition peer_notification_steps :: "env \<Rightarrow> request \<Rightarrow> thread" where
  "peer_notification_steps env rq = take_then OperationPeerNotify (\<lambda>fault.
     pre_commit_then env rq OperationPeerNotify [] fault
       (record_then env rq OperationPeerNotify [] 204 fault (Finished (write_header 204 BNone))))"

text \<open>The reset stores the sequence after it has released the mutex.\<close>

definition reset_steps :: thread where
  "reset_steps = Atomic (\<lambda>s. (Atomic (\<lambda>s. (Finished (write_json 204 None), s\<lparr>sv_sequence := 0\<rparr>)),
     s\<lparr>sv_references := Map.empty, sv_faults := Map.empty, sv_events := []\<rparr>))"

text \<open>The other control handlers and the health check have one critical section or none.\<close>

definition one_step :: "(server \<Rightarrow> outcome \<times> server) \<Rightarrow> thread" where
  "one_step h = Atomic (\<lambda>s. case h s of (out, s') \<Rightarrow> (Finished out, s'))"

fun endpoint_steps :: "env \<Rightarrow> request \<Rightarrow> endpoint \<Rightarrow> string list \<Rightarrow> thread" where
  "endpoint_steps env rq Healthz args = one_step handle_healthz"
| "endpoint_steps env rq Reset args = reset_steps"
| "endpoint_steps env rq ArmFault args = one_step (handle_fault rq)"
| "endpoint_steps env rq ClearFaults args = one_step handle_clear_faults"
| "endpoint_steps env rq Events args = one_step handle_events"
| "endpoint_steps env rq State args = one_step (handle_state env)"
| "endpoint_steps env rq RotateOVN args = one_step (handle_rotate_ovn (path_value 0 args))"
| "endpoint_steps env rq QueryReferences args = query_references_steps env rq"
| "endpoint_steps env rq QuerySubscriptions args = subscriptions_steps env rq"
| "endpoint_steps env rq GetReference args = get_reference_steps env rq (path_value 0 args)"
| "endpoint_steps env rq CreateReference args = put_reference_steps env rq True (path_value 0 args) []"
| "endpoint_steps env rq UpdateReference args =
     put_reference_steps env rq False (path_value 0 args) (path_value 1 args)"
| "endpoint_steps env rq DeleteReference args = delete_reference_steps env rq (path_value 0 args) (path_value 1 args)"
| "endpoint_steps env rq PeerDetails args = peer_details_steps env rq (path_value 0 args)"
| "endpoint_steps env rq PeerNotify args = peer_notification_steps env rq"

definition request_steps :: "env \<Rightarrow> request \<Rightarrow> thread" where
  "request_steps env rq = (case mux_find routes (rq_method rq) (rq_path rq) of
     None \<Rightarrow> Finished (mux_miss routes (rq_path rq))
   | Some (ep, args) \<Rightarrow> endpoint_steps env rq ep args)"

text \<open>What the client sees of an outcome: a HEAD request gets no body.\<close>

definition seen_by :: "request \<Rightarrow> outcome \<Rightarrow> outcome" where
  "seen_by rq out = (if rq_method rq = ''HEAD'' then drop_body out else out)"

subsection \<open>One request alone\<close>

lemma alone_take [simp]:
  "alone (take_then operation k) s = (case take_fault operation s of (fault, s') \<Rightarrow> alone (k fault) s')"
  by (simp add: take_then_def split: prod.split)

lemma alone_record [simp]:
  "alone (record_then env rq operation iid status fault k) s =
     alone k (record_event env rq operation iid status fault s)"
  by (simp add: record_then_def record_event_def append_event_def Let_def)

lemma alone_respond [simp]:
  "alone (respond_then env rq operation iid status payload fault) s =
     respond env rq operation iid status payload fault s"
  by (simp add: respond_then_def respond_def respond_outcome_def Let_def split: option.split)

lemma alone_pre_commit [simp]:
  "alone (pre_commit_then env rq operation iid fault k) s =
     (case pre_commit_fault env rq operation iid fault s of
        (Some out, s') \<Rightarrow> (out, s') | (None, s') \<Rightarrow> alone k s')"
  by (simp add: pre_commit_then_def pre_commit_fault_def split: option.split prod.split)

lemma alone_one_step [simp]: "alone (one_step h) s = h s"
  by (simp add: one_step_def split: prod.split)

lemma alone_endpoint: "alone (endpoint_steps env rq ep args) s = handle env rq ep args s"
proof (cases ep)
  case CreateReference
  then show ?thesis
    by (simp add: put_reference_steps_def put_reply_then_def handle_create_reference_def handle_put_reference_def Let_def
        split: prod.split option.split sum.split put_result.split)
next
  case UpdateReference
  then show ?thesis
    by (simp add: put_reference_steps_def put_reply_then_def handle_update_reference_def handle_put_reference_def Let_def
        split: prod.split option.split sum.split put_result.split)
qed (simp_all add: query_references_steps_def handle_query_references_def subscriptions_steps_def
    handle_subscriptions_def get_reference_steps_def handle_get_reference_def delete_reference_steps_def delete_reply_then_def
    handle_delete_reference_def peer_details_steps_def handle_peer_details_def peer_notification_steps_def
    handle_peer_notification_def reset_steps_def handle_reset_def
    split: prod.split option.split)

lemma alone_request:
  "serve env rq s = (case alone (request_steps env rq) s of (out, s') \<Rightarrow> (seen_by rq out, s'))"
  by (simp add: serve_def dispatch_def request_steps_def alone_endpoint seen_by_def split: option.split prod.split)

end
