(* ===== verification/Fixture_Interleavings.thy ===== *)
theory Fixture_Interleavings
  imports Fixture_Concurrent
begin

section \<open>Interleavings of requests\<close>

text \<open>
  Requests in flight take their atomic steps in any order. Every interleaving leaves a store
  that some sequential order of the commits leaves, with at most one commit per request; the
  numbers in the journal stay unique until a reset.
\<close>

inductive sched :: "thread list \<times> server \<Rightarrow> thread list \<times> server \<Rightarrow> bool" where
  sched_atomic: "i < length ts \<Longrightarrow> ts ! i = Atomic f \<Longrightarrow> sched (ts, s) (ts[i := fst (f s)], snd (f s))"
| sched_append: "i < length ts \<Longrightarrow> ts ! i = Append e t \<Longrightarrow> sched (ts, s) (ts[i := t], append_event e s)"

inductive_cases schedE: "sched (ts, s) c"

definition interleaved :: "(env \<times> request) list \<Rightarrow> server \<Rightarrow> thread list \<Rightarrow> server \<Rightarrow> bool" where
  "interleaved xs s0 ts s \<longleftrightarrow> sched\<^sup>*\<^sup>* (map (\<lambda>(env, rq). request_steps env rq) xs, s0) (ts, s)"

text \<open>An invariant of the configurations a set of requests reaches.\<close>

lemma interleaved_induct [consumes 1, case_names start step]:
  assumes "interleaved xs s0 ts s"
    and "P (map (\<lambda>(env, rq). request_steps env rq) xs) s0"
    and "\<And>ts s ts' s'. P ts s \<Longrightarrow> sched (ts, s) (ts', s') \<Longrightarrow> P ts' s'"
  shows "P ts s"
proof -
  have "case c of (ts, s) \<Rightarrow> P ts s"
    if "sched\<^sup>*\<^sup>* (map (\<lambda>(env, rq). request_steps env rq) xs, s0) c" for c
    using that by induction (use assms(2,3) in auto)
  with assms(1) show ?thesis by (force simp: interleaved_def)
qed

lemma sched_length: "sched (ts, s) (ts', s') \<Longrightarrow> length ts' = length ts"
  by (erule sched.cases) auto

lemma interleaved_length:
  assumes "interleaved xs s0 ts s"
  shows "length ts = length xs"
  using assms by (induction rule: interleaved_induct) (simp_all add: sched_length)

subsection \<open>Commits\<close>

definition well_named :: "server \<Rightarrow> bool" where
  "well_named s \<longleftrightarrow> (\<forall>iid r. sv_references s iid = Some r \<longrightarrow> rf_ovn r = ovn_of iid (rf_version r))"

text \<open>A step that has the effect of an abstract operation on the store.\<close>

definition effect :: "store_op \<Rightarrow> server \<Rightarrow> server \<Rightarrow> bool" where
  "effect c s s' \<longleftrightarrow> (well_named s \<longrightarrow> well_named s') \<and> (refs_ok s \<longrightarrow> store_of s' = store_step c (store_of s))"

text \<open>A request that changes no reference any more, and one that has at most one commit to come.\<close>

inductive settled :: "thread \<Rightarrow> bool" where
  settled_Finished: "settled (Finished out)"
| settled_Atomic: "(\<And>s. settled (fst (f s)) \<and> sv_references (snd (f s)) = sv_references s) \<Longrightarrow> settled (Atomic f)"
| settled_Append: "settled t \<Longrightarrow> settled (Append e t)"

inductive_cases settled_AtomicE: "settled (Atomic f)"
inductive_cases settled_AppendE: "settled (Append e t)"

inductive commits_once :: "store_op \<Rightarrow> thread \<Rightarrow> bool" for c where
  once_settled: "settled t \<Longrightarrow> commits_once c t"
| once_Atomic: "(\<And>s. sv_references (snd (f s)) = sv_references s \<and> commits_once c (fst (f s)) \<or>
      effect c s (snd (f s)) \<and> settled (fst (f s))) \<Longrightarrow> commits_once c (Atomic f)"

inductive_cases once_AtomicE: "commits_once c (Atomic f)"
inductive_cases once_AppendE: "commits_once c (Append e t)"

lemma settled_record: "settled k \<Longrightarrow> settled (record_then env rq operation iid status fault k)"
  by (simp add: record_then_def Let_def settled.intros)

lemma settled_respond: "settled (respond_then env rq operation iid status payload fault)"
  by (simp add: respond_then_def settled_record settled_Finished)

lemma settled_take: "(\<And>fault. settled (k fault)) \<Longrightarrow> settled (take_then operation k)"
  unfolding take_then_def
  by (rule settled_Atomic) (simp add: case_prod_beta take_fault_frame)

lemma settled_pre_commit: "settled k \<Longrightarrow> settled (pre_commit_then env rq operation iid fault k)"
  by (simp add: pre_commit_then_def settled_record settled_respond settled_Finished split: option.split)

lemma settled_read: "(\<And>s. settled (k s)) \<Longrightarrow> settled (Atomic (\<lambda>s. (k s, s)))"
  by (rule settled_Atomic) simp

lemma once_take: "(\<And>fault. commits_once c (k fault)) \<Longrightarrow> commits_once c (take_then operation k)"
  unfolding take_then_def
  by (rule once_Atomic) (simp add: case_prod_beta take_fault_frame)

lemma once_pre_commit: "commits_once c k \<Longrightarrow> commits_once c (pre_commit_then env rq operation iid fault k)"
  by (simp add: pre_commit_then_def once_settled settled_record settled_respond settled_Finished split: option.split)

lemmas settled_rules = settled_take settled_pre_commit settled_record settled_respond settled_Finished settled_read

lemma effect_put: "effect (if create then CreateOp iid else UpdateOp iid ovn) s (snd (commit_put env create iid ovn body s))"
proof -
  have "well_named s \<Longrightarrow> well_named (snd (commit_put env create iid ovn body s))"
    by (auto simp: commit_put_def well_named_def Let_def)
  with commit_put_refines show ?thesis by (simp add: effect_def)
qed

lemma effect_delete: "effect (DeleteOp iid ovn) s (snd (commit_delete iid ovn s))"
proof -
  have "well_named s \<Longrightarrow> well_named (snd (commit_delete iid ovn s))"
    by (auto simp: commit_delete_def well_named_def split: option.splits)
  with commit_delete_refines show ?thesis by (simp add: effect_def)
qed

lemma effect_rotate: "effect (RotateOp iid) s (snd (handle_rotate_ovn iid s))"
proof -
  have "well_named s \<Longrightarrow> well_named (snd (handle_rotate_ovn iid s))"
    by (auto simp: handle_rotate_ovn_def bump_def Let_def well_named_def split: option.splits)
  with rotate_refines show ?thesis by (simp add: effect_def)
qed

lemma settled_put_reply: "settled (put_reply_then env rq create iid fault res subscriber)"
  by (cases res) (simp_all add: put_reply_then_def Let_def settled_rules)

lemma settled_delete_reply: "settled (delete_reply_then env rq iid ovn fault found)"
  by (cases found) (simp_all add: delete_reply_then_def settled_rules)

lemma once_commit:
  assumes "\<And>s. effect c s (snd (f s))" and "\<And>s. settled (k (fst (f s)) (snd (f s)))"
  shows "commits_once c (Atomic (\<lambda>s. case f s of (res, s') \<Rightarrow> (k res s', s')))"
  by (rule once_Atomic) (simp add: case_prod_beta assms)

lemma once_put: "commits_once (if create then CreateOp iid else UpdateOp iid ovn) (put_reference_steps env rq create iid ovn)"
  unfolding put_reference_steps_def Let_def
proof (rule once_take, rule once_pre_commit)
  fix fault
  let ?op = "if create then OperationCreateReference else OperationUpdateReference"
  show "commits_once (if create then CreateOp iid else UpdateOp iid ovn)
    (case decode_stream decode_put (rq_body rq) of
       Inl e \<Rightarrow> respond_then env rq ?op iid 400 (message_json (decode_error_text e)) fault
     | Inr body \<Rightarrow> Atomic (\<lambda>s. case commit_put env create iid ovn body s of (res, s') \<Rightarrow>
         (put_reply_then env rq create iid fault res (sv_subscriber_url s'), s')))"
    by (cases "decode_stream decode_put (rq_body rq)")
      (simp_all only: sum.case once_settled settled_respond once_commit effect_put settled_put_reply)
qed

lemma once_delete: "commits_once (DeleteOp iid ovn) (delete_reference_steps env rq iid ovn)"
  unfolding delete_reference_steps_def
  by (intro once_take once_pre_commit once_commit effect_delete settled_delete_reply)

lemma once_one_step:
  assumes "\<And>s. effect c s (snd (h s))"
  shows "commits_once c (one_step h)"
  unfolding one_step_def by (intro once_commit assms settled_Finished)

lemma effect_same: "sv_references s' = sv_references s \<Longrightarrow> effect NoOp s s'"
  by (simp add: effect_def well_named_def store_of_def)

lemma once_reset: "commits_once ResetOp reset_steps"
  unfolding reset_steps_def
  by (rule once_Atomic) (auto simp: effect_def well_named_def store_of_def intro!: settled.intros)

lemma once_request: "commits_once (op_of rq) (request_steps env rq)"
proof (cases "mux_find routes (rq_method rq) (rq_path rq)")
  case None
  then show ?thesis by (simp add: request_steps_def once_settled settled_Finished)
next
  case (Some a)
  obtain ep args where a: "a = (ep, args)" by fastforce
  have "commits_once (endpoint_op ep args) (endpoint_steps env rq ep args)"
  proof (cases ep)
    case CreateReference
    then show ?thesis using once_put [of True] by simp
  next
    case UpdateReference
    then show ?thesis using once_put [of False] by simp
  qed (simp_all add: once_delete once_reset once_one_step effect_rotate effect_same handle_healthz_def
      handle_fault_def handle_clear_faults_def handle_events_def handle_state_def once_settled
      query_references_steps_def subscriptions_steps_def get_reference_steps_def peer_details_steps_def
      peer_notification_steps_def settled_rules split: sum.split option.split)
  with Some a show ?thesis by (simp add: request_steps_def op_of_def)
qed

subsection \<open>The store\<close>

lemma settled_step: "settled (Atomic f) \<Longrightarrow> settled (fst (f s)) \<and> sv_references (snd (f s)) = sv_references s"
  by (erule settled_AtomicE) blast

lemma once_step:
  assumes "commits_once c (Atomic f)"
  shows "sv_references (snd (f s)) = sv_references s \<and> commits_once c (fst (f s)) \<or>
    effect c s (snd (f s)) \<and> settled (fst (f s))"
  using assms by (rule once_AtomicE) (use settled_step once_settled in blast)+

lemma settled_tail: "settled (Append e t) \<Longrightarrow> settled t"
  by (erule settled_AppendE)

lemma once_tail: "commits_once c (Append e t) \<Longrightarrow> commits_once c t"
  by (erule once_AppendE) (use settled_tail once_settled in blast)

text \<open>The commits so far are those of the requests \<open>is\<close>, in this order.\<close>

definition committed_in_order :: "store_op list \<Rightarrow> nat list \<Rightarrow> thread list \<Rightarrow> server \<Rightarrow> bool" where
  "committed_in_order cs is ts s \<longleftrightarrow> length ts = length cs \<and> distinct is \<and> set is \<subseteq> {..<length cs} \<and>
     well_named s \<and> versions_upto (length is) (store_of s) \<and>
     store_of s = fold (\<lambda>i. store_step (cs ! i)) is Map.empty \<and>
     (\<forall>i<length cs. if i \<in> set is then settled (ts ! i) else commits_once (cs ! i) (ts ! i))"

lemma committed_keep:
  assumes "committed_in_order cs is ts s" and "sv_references s' = sv_references s" and "i < length cs"
    and "if i \<in> set is then settled t else commits_once (cs ! i) t"
  shows "committed_in_order cs is (ts[i := t]) s'"
proof -
  have "store_of s' = store_of s" "well_named s' = well_named s"
    using assms(2) by (simp_all add: store_of_def well_named_def)
  with assms show ?thesis by (auto simp: committed_in_order_def nth_list_update)
qed

lemma committed_next:
  assumes "committed_in_order cs is ts s" and "i < length cs" and "i \<notin> set is"
    and "effect (cs ! i) s s'" and "settled t" and "length cs < 2 ^ 63 - 1"
  shows "committed_in_order cs (is @ [i]) (ts[i := t]) s'"
proof -
  have inv: "distinct is" "set is \<subseteq> {..<length cs}" "well_named s" "versions_upto (length is) (store_of s)"
    using assms(1) unfolding committed_in_order_def by blast+
  have "length is \<le> length cs"
    using card_mono [OF _ inv(2)] distinct_card [OF inv(1)] by simp
  then have "int (length is) < 2 ^ 63 - 1" using assms(6) by simp
  with inv(3,4) have "refs_ok s"
    by (fastforce simp: refs_ok_def well_named_def versions_upto_def store_of_def)
  then have store: "store_of s' = store_step (cs ! i) (store_of s)" and "well_named s'"
    using assms(4) inv(3) by (simp_all add: effect_def)
  moreover have "versions_upto (Suc (length is)) (store_of s')"
    using store_step_versions [OF inv(4)] store by simp
  ultimately show ?thesis
    using assms(1,2,3,5) by (auto simp: committed_in_order_def nth_list_update)
qed

lemma interleaved_committed:
  assumes "interleaved xs (new_server c) ts s" and "length xs < 2 ^ 63 - 1"
  shows "\<exists>is. committed_in_order (map (\<lambda>(env, rq). op_of rq) xs) is ts s"
  using assms(1)
proof (induction rule: interleaved_induct)
  case start
  have "committed_in_order (map (\<lambda>(env, rq). op_of rq) xs) [] (map (\<lambda>(env, rq). request_steps env rq) xs) (new_server c)"
    by (auto simp: committed_in_order_def well_named_def versions_upto_def store_of_def new_server_def
        case_prod_beta once_request)
  then show ?case by blast
next
  case (step ts s ts' s')
  let ?cs = "map (\<lambda>(env, rq). op_of rq) xs"
  from step(1) obtain "is" where inv: "committed_in_order ?cs is ts s" by blast
  then have len: "length ts = length ?cs"
    and threads: "\<And>i. i < length ?cs \<Longrightarrow> if i \<in> set is then settled (ts ! i) else commits_once (?cs ! i) (ts ! i)"
    unfolding committed_in_order_def by blast+
  from step(2) show ?case
  proof (cases rule: sched.cases)
    case (sched_atomic i f)
    then have i: "i < length ?cs" using len by simp
    show ?thesis
    proof (cases "i \<in> set is")
      case True
      then have "settled (Atomic f)" using threads [OF i] sched_atomic by simp
      from settled_step [OF this, of s] True sched_atomic committed_keep [OF inv, of s' i "fst (f s)"] i
      show ?thesis by auto
    next
      case False
      then have "commits_once (?cs ! i) (Atomic f)" using threads [OF i] sched_atomic by simp
      from once_step [OF this, of s] show ?thesis
      proof
        assume "sv_references (snd (f s)) = sv_references s \<and> commits_once (?cs ! i) (fst (f s))"
        with False sched_atomic i committed_keep [OF inv, of s' i "fst (f s)"] show ?thesis by auto
      next
        assume "effect (?cs ! i) s (snd (f s)) \<and> settled (fst (f s))"
        with committed_next [OF inv i False] sched_atomic assms(2) show ?thesis by auto
      qed
    qed
  next
    case (sched_append i e t)
    then have i: "i < length ?cs" using len by simp
    have "if i \<in> set is then settled t else commits_once (?cs ! i) t"
      using threads [OF i] sched_append settled_tail once_tail by (auto split: if_splits)
    with sched_append i committed_keep [OF inv, of s' i t] show ?thesis by (auto simp: append_event_def)
  qed
qed

subsection \<open>The journal\<close>

text \<open>A request that numbers no event any more, and one that numbers at most one.\<close>

inductive silent :: "thread \<Rightarrow> bool" where
  silent_Finished: "silent (Finished out)"
| silent_Atomic: "(\<And>s. silent (fst (f s)) \<and> sv_events (snd (f s)) = sv_events s \<and>
      sv_sequence (snd (f s)) = sv_sequence s) \<Longrightarrow> silent (Atomic f)"

inductive_cases silent_AtomicE: "silent (Atomic f)"
inductive_simps silent_Append [simp]: "silent (Append e t)"

inductive records_once :: "thread \<Rightarrow> bool" where
  rec_silent: "silent t \<Longrightarrow> records_once t"
| rec_Atomic: "(\<And>s. sv_events (snd (f s)) = sv_events s \<and>
      (sv_sequence (snd (f s)) = sv_sequence s \<and> records_once (fst (f s)) \<or>
       sv_sequence (snd (f s)) = sv_sequence s + 1 \<and>
       (\<exists>e t. fst (f s) = Append e t \<and> silent t \<and> ev_sequence e = sv_sequence s + 1))) \<Longrightarrow> records_once (Atomic f)"

inductive_cases rec_AtomicE: "records_once (Atomic f)"
inductive_simps rec_Append [simp]: "records_once (Append e t)"

lemma rec_record: "silent k \<Longrightarrow> records_once (record_then env rq operation iid status fault k)"
  unfolding record_then_def by (rule rec_Atomic) (simp add: Let_def)

lemma rec_respond: "records_once (respond_then env rq operation iid status payload fault)"
  by (simp add: respond_then_def rec_record silent_Finished)

lemma rec_take: "(\<And>fault. records_once (k fault)) \<Longrightarrow> records_once (take_then operation k)"
  unfolding take_then_def by (rule rec_Atomic) (simp add: case_prod_beta take_fault_frame)

lemma rec_pre_commit: "records_once k \<Longrightarrow> records_once (pre_commit_then env rq operation iid fault k)"
  by (simp add: pre_commit_then_def rec_record rec_respond silent_Finished split: option.split)

lemma rec_commit:
  assumes "\<And>s. sv_events (snd (f s)) = sv_events s \<and> sv_sequence (snd (f s)) = sv_sequence s"
    and "\<And>s. records_once (k (fst (f s)) (snd (f s)))"
  shows "records_once (Atomic (\<lambda>s. case f s of (res, s') \<Rightarrow> (k res s', s')))"
  by (rule rec_Atomic) (simp add: case_prod_beta assms)

lemma rec_read: "(\<And>s. records_once (k s)) \<Longrightarrow> records_once (Atomic (\<lambda>s. (k s, s)))"
  by (rule rec_Atomic) simp

lemma rec_one_step:
  assumes "\<And>s. sv_events (snd (h s)) = sv_events s \<and> sv_sequence (snd (h s)) = sv_sequence s"
  shows "records_once (one_step h)"
  unfolding one_step_def by (intro rec_commit assms rec_silent silent_Finished)

lemmas rec_rules = rec_take rec_pre_commit rec_record rec_respond silent_Finished rec_read

lemma rec_put_reply: "records_once (put_reply_then env rq create iid fault res subscriber)"
  by (cases res) (simp_all add: put_reply_then_def Let_def rec_rules)

lemma rec_put: "records_once (put_reference_steps env rq create iid ovn)"
  unfolding put_reference_steps_def Let_def
  by (intro rec_take rec_pre_commit)
    (auto intro!: rec_commit rec_respond rec_put_reply simp: commit_put_frame split: sum.split)

lemma rec_delete: "records_once (delete_reference_steps env rq iid ovn)"
proof -
  have reply: "records_once (delete_reply_then env rq iid ovn fault found)" for fault found
    by (cases found) (simp_all add: delete_reply_then_def rec_rules)
  show ?thesis
    unfolding delete_reference_steps_def
    by (intro rec_take rec_pre_commit rec_commit reply) (simp add: commit_delete_frame)
qed

lemma rec_request: "\<not> is_reset rq \<Longrightarrow> records_once (request_steps env rq)"
proof (cases "mux_find routes (rq_method rq) (rq_path rq)")
  case None
  then show ?thesis by (simp add: request_steps_def rec_silent silent_Finished)
next
  case (Some a)
  obtain ep args where a: "a = (ep, args)" by fastforce
  assume "\<not> is_reset rq"
  then have "ep \<noteq> Reset" using Some a by (auto simp: is_reset_def)
  then have "records_once (endpoint_steps env rq ep args)"
    by (cases ep) (simp_all add: rec_put rec_delete rec_one_step handle_healthz_def handle_fault_def
      handle_clear_faults_def handle_events_def handle_state_def handle_rotate_ovn_def Let_def
      query_references_steps_def subscriptions_steps_def get_reference_steps_def peer_details_steps_def
      peer_notification_steps_def rec_rules split: sum.split option.split)
  with Some a show ?thesis by (simp add: request_steps_def)
qed

lemma silent_step:
  "silent (Atomic f) \<Longrightarrow> silent (fst (f s)) \<and> sv_events (snd (f s)) = sv_events s \<and> sv_sequence (snd (f s)) = sv_sequence s"
  by (erule silent_AtomicE) blast

lemma rec_step:
  assumes "records_once (Atomic f)"
  shows "sv_events (snd (f s)) = sv_events s \<and>
      (sv_sequence (snd (f s)) = sv_sequence s \<and> records_once (fst (f s)) \<or>
       sv_sequence (snd (f s)) = sv_sequence s + 1 \<and>
       (\<exists>e t. fst (f s) = Append e t \<and> silent t \<and> ev_sequence e = sv_sequence s + 1))"
  using assms by (rule rec_AtomicE) (use silent_step rec_silent in blast)+

text \<open>
  \<open>is\<close> lists the requests that have numbered an event, in the order of the numbers; \<open>ks\<close> the
  positions in it that have reached the journal, in the order of the journal.
\<close>

definition slot_ok :: "nat list \<Rightarrow> nat \<Rightarrow> thread \<Rightarrow> bool" where
  "slot_ok ks k t \<longleftrightarrow> (if k \<in> set ks then silent t
     else \<exists>e u. t = Append e u \<and> silent u \<and> unat (ev_sequence e) = Suc k)"

definition journaled :: "nat \<Rightarrow> nat list \<Rightarrow> nat list \<Rightarrow> thread list \<Rightarrow> server \<Rightarrow> bool" where
  "journaled n is ks ts s \<longleftrightarrow> length ts = n \<and> distinct is \<and> set is \<subseteq> {..<n} \<and>
     distinct ks \<and> set ks \<subseteq> {..<length is} \<and> unat (sv_sequence s) = length is \<and>
     map (\<lambda>e. unat (ev_sequence e)) (sv_events s) = map Suc ks \<and>
     (\<forall>i<n. i \<notin> set is \<longrightarrow> records_once (ts ! i)) \<and> (\<forall>k<length is. slot_ok ks k (ts ! (is ! k)))"

lemma journaled_keep:
  assumes "journaled n is ks ts s" and "sv_events s' = sv_events s" and "sv_sequence s' = sv_sequence s"
    and "i < n" and "if i \<in> set is then silent (ts ! i) \<and> silent t else records_once t"
  shows "journaled n is ks (ts[i := t]) s'"
proof -
  have inv: "length ts = n" "\<And>k. k < length is \<Longrightarrow> slot_ok ks k (ts ! (is ! k))"
    using assms(1) unfolding journaled_def by blast+
  have "slot_ok ks k (ts[i := t] ! (is ! k))" if "k < length is" for k
  proof (cases "is ! k = i")
    case True
    then have "i \<in> set is" using that by auto
    with assms(5) have "silent (ts ! i)" "silent t" by simp_all
    with inv(2) [OF that] True assms(4) inv(1) show ?thesis by (auto simp: slot_ok_def)
  qed (simp add: inv(2) [OF that])
  with assms show ?thesis by (auto simp: journaled_def nth_list_update)
qed

lemma journaled_number:
  assumes "journaled n is ks ts s" and "i < n" and "i \<notin> set is" and "n < 2 ^ 64"
    and "sv_events s' = sv_events s" and "sv_sequence s' = sv_sequence s + 1"
    and "silent t" and "ev_sequence e = sv_sequence s + 1"
  shows "journaled n (is @ [i]) ks (ts[i := Append e t]) s'"
proof -
  have inv: "length ts = n" "distinct is" "set is \<subseteq> {..<n}" "set ks \<subseteq> {..<length is}" "unat (sv_sequence s) = length is"
    "\<And>k. k < length is \<Longrightarrow> slot_ok ks k (ts ! (is ! k))"
    using assms(1) unfolding journaled_def by blast+
  have "set is \<subseteq> {..<n} - {i}" using inv(3) assms(3) by blast
  then have "card (set is) \<le> card ({..<n} - {i})" by (intro card_mono) simp_all
  then have "length is < n" using assms(2) distinct_card [OF inv(2)] by simp
  then have "Suc (length is) < 2 ^ 64" using assms(4) by simp
  then have seq: "unat (sv_sequence s + 1) = Suc (length is)"
    using inv(5) by (simp add: unat_word_ariths)
  have slot: "slot_ok ks k (ts[i := Append e t] ! ((is @ [i]) ! k))" if "k < Suc (length is)" for k
  proof (cases "k = length is")
    case True
    moreover from this have "k \<notin> set ks" using inv(4) by auto
    ultimately show ?thesis using assms(2,7,8) inv(1) seq by (simp add: slot_ok_def)
  next
    case False
    with that have k: "k < length is" by simp
    then have "is ! k \<noteq> i" using assms(3) by (auto simp: in_set_conv_nth)
    with inv(6) [OF k] k show ?thesis by (simp add: nth_append)
  qed
  show ?thesis
    unfolding journaled_def
    using assms(1-3,5,6) slot seq by (auto simp: journaled_def less_Suc_eq nth_list_update)
qed

lemma journaled_append:
  assumes "journaled n is ks ts s" and "k < length is" and "ts ! (is ! k) = Append e t"
  shows "journaled n is (ks @ [k]) (ts[is ! k := t]) (append_event e s)"
proof -
  have inv: "length ts = n" "distinct is" "set is \<subseteq> {..<n}" "\<And>k. k < length is \<Longrightarrow> slot_ok ks k (ts ! (is ! k))"
    using assms(1) unfolding journaled_def by blast+
  have new: "k \<notin> set ks" "silent t" "unat (ev_sequence e) = Suc k"
    using inv(4) [OF assms(2)] assms(3) by (auto simp: slot_ok_def split: if_splits)
  have i: "is ! k < length ts" "is ! k \<in> set is" using inv(1,3) assms(2) by (metis lessThan_iff nth_mem subsetD, simp)
  have slot: "slot_ok (ks @ [k]) l (ts[is ! k := t] ! (is ! l))" if l: "l < length is" for l
  proof (cases "l = k")
    case True
    then show ?thesis using new(2) i by (simp add: slot_ok_def)
  next
    case False
    then have "is ! l \<noteq> is ! k" using inv(2) l assms(2) by (simp add: nth_eq_iff_index_eq)
    with inv(4) [OF l] False show ?thesis by (simp add: slot_ok_def)
  qed
  have "\<forall>j<n. j \<notin> set is \<longrightarrow> records_once (ts[is ! k := t] ! j)"
    using assms(1) i(2) unfolding journaled_def by (metis nth_list_update_neq)
  with assms(1,2) slot new show ?thesis
    by (simp add: journaled_def append_event_def)
qed

lemma interleaved_journaled:
  assumes "interleaved xs (new_server c) ts s" and "list_all (\<lambda>(env, rq). \<not> is_reset rq) xs" and "length xs < 2 ^ 64"
  shows "\<exists>is ks. journaled (length xs) is ks ts s"
  using assms(1)
proof (induction rule: interleaved_induct)
  case start
  have "journaled (length xs) [] [] (map (\<lambda>(env, rq). request_steps env rq) xs) (new_server c)"
    using assms(2) by (auto simp: journaled_def new_server_def case_prod_beta list_all_length intro: rec_request)
  then show ?case by blast
next
  case (step ts s ts' s')
  from step(1) obtain "is" ks where inv: "journaled (length xs) is ks ts s" by blast
  then have len: "length ts = length xs"
    and slots: "\<And>k. k < length is \<Longrightarrow> slot_ok ks k (ts ! (is ! k))"
    and others: "\<And>i. i < length xs \<Longrightarrow> i \<notin> set is \<Longrightarrow> records_once (ts ! i)"
    unfolding journaled_def by blast+
  from step(2) show ?case
  proof (cases rule: sched.cases)
    case (sched_atomic i f)
    then have i: "i < length xs" using len by simp
    show ?thesis
    proof (cases "i \<in> set is")
      case True
      then obtain k where "k < length is" "is ! k = i" by (auto simp: in_set_conv_nth)
      with slots [of k] sched_atomic have "silent (Atomic f)" by (auto simp: slot_ok_def split: if_splits)
      with silent_step [OF this, of s] sched_atomic True i journaled_keep [OF inv, of s' i "fst (f s)"]
      show ?thesis by auto
    next
      case False
      then have "records_once (Atomic f)" using others [OF i] sched_atomic by simp
      note step = rec_step [OF this, of s]
      then consider (quiet) "sv_sequence (snd (f s)) = sv_sequence s" "records_once (fst (f s))"
        | (number) e t where "sv_sequence (snd (f s)) = sv_sequence s + 1" "fst (f s) = Append e t" "silent t"
          "ev_sequence e = sv_sequence s + 1"
        by blast
      then show ?thesis
      proof cases
        case quiet
        with step sched_atomic False i journaled_keep [OF inv, of s' i "fst (f s)"] show ?thesis by auto
      next
        case number
        with journaled_number [OF inv i False assms(3), of s' t e] step sched_atomic
        have "journaled (length xs) (is @ [i]) ks ts' s'" by simp
        then show ?thesis by blast
      qed
    qed
  next
    case (sched_append i e t)
    then have i: "i < length xs" using len by simp
    have "i \<in> set is"
    proof (rule ccontr)
      assume "i \<notin> set is"
      with others [OF i] sched_append show False by simp
    qed
    then obtain k where k: "k < length is" "is ! k = i" by (auto simp: in_set_conv_nth)
    with journaled_append [OF inv k(1)] sched_append show ?thesis by auto
  qed
qed

end
