(* ===== verification/Concurrent_Creates.thy ===== *)
theory Concurrent_Creates
  imports Fixture_Interleavings
begin

section \<open>Concurrent creates of one reference\<close>

text \<open>
  Creates of the same reference that run at the same time on a fixture without faults: one of
  them stores the reference, every other one finds it.
\<close>

text \<open>A request whose outcome is decided, and that touches neither references nor faults any more.\<close>

inductive ends_in :: "outcome \<Rightarrow> thread \<Rightarrow> bool" for out where
  ends_Finished: "ends_in out (Finished out)"
| ends_Atomic: "(\<And>s. ends_in out (fst (f s)) \<and> sv_references (snd (f s)) = sv_references s \<and>
      sv_faults (snd (f s)) = sv_faults s) \<Longrightarrow> ends_in out (Atomic f)"
| ends_Append: "ends_in out t \<Longrightarrow> ends_in out (Append e t)"

inductive_simps ends_simps [simp]: "ends_in out (Finished out')" "ends_in out (Append e t)"
inductive_cases ends_AtomicE: "ends_in out (Atomic f)"

lemma ends_step:
  "ends_in out (Atomic f) \<Longrightarrow> ends_in out (fst (f s)) \<and> sv_references (snd (f s)) = sv_references s \<and>
     sv_faults (snd (f s)) = sv_faults s"
  by (erule ends_AtomicE) blast

lemma ends_respond: "ends_in (respond_outcome status payload fault) (respond_then env rq operation iid status payload fault)"
  unfolding respond_then_def record_then_def by (rule ends_Atomic) (simp add: Let_def)

definition exists_reply :: outcome where
  "exists_reply = Reply 409 (BJson (message_json ''reference exists''))"

definition won :: "thread \<Rightarrow> bool" where "won t \<longleftrightarrow> (\<exists>doc. ends_in (Reply 201 (BJson doc)) t)"
definition lost :: "thread \<Rightarrow> bool" where "lost t \<longleftrightarrow> ends_in exists_reply t"

definition create_commit :: "env \<Rightarrow> request \<Rightarrow> string \<Rightarrow> put_request \<Rightarrow> thread" where
  "create_commit env rq iid body = Atomic (\<lambda>s. case commit_put env True iid [] body s of (res, s') \<Rightarrow>
     (put_reply_then env rq True iid None res (sv_subscriber_url s'), s'))"

text \<open>A create that has not come to its critical section.\<close>

definition open_create :: "string \<Rightarrow> thread \<Rightarrow> bool" where
  "open_create iid t \<longleftrightarrow> (\<exists>env rq. body_readable rq \<and>
     (t = put_reference_steps env rq True iid [] \<or> (\<exists>body. t = create_commit env rq iid body)))"

lemma request_create:
  assumes "op_of rq = CreateOp iid" and "body_readable rq"
  shows "open_create iid (request_steps env rq)"
proof -
  obtain ep args where ep: "mux_find routes (rq_method rq) (rq_path rq) = Some (ep, args)"
    using assms(1) by (auto simp: op_of_def split: option.splits)
  with assms(1) have "ep = CreateReference" "path_value 0 args = iid"
    by (cases ep; simp add: op_of_def)+
  with ep assms(2) show ?thesis by (auto simp: open_create_def request_steps_def)
qed

lemma open_create_step:
  assumes "open_create iid (Atomic f)" and "sv_faults s OperationCreateReference = None"
  shows "sv_faults (snd (f s)) = sv_faults s \<and>
    (sv_references (snd (f s)) = sv_references s \<and> open_create iid (fst (f s)) \<or>
     sv_references s iid = None \<and> sv_references (snd (f s)) iid \<noteq> None \<and> won (fst (f s)) \<or>
     sv_references s iid \<noteq> None \<and> sv_references (snd (f s)) = sv_references s \<and> lost (fst (f s)))"
proof -
  obtain env rq where readable: "body_readable rq"
    and cases: "Atomic f = put_reference_steps env rq True iid [] \<or> (\<exists>body. Atomic f = create_commit env rq iid body)"
    using assms(1) by (auto simp: open_create_def)
  from cases show ?thesis
  proof (elim disjE exE)
    assume f: "Atomic f = put_reference_steps env rq True iid []"
    obtain body where "decode_stream decode_put (rq_body rq) = Inr body"
      using readable by (auto simp: body_readable_def split: sum.splits)
    with f assms(2) have "f s = (create_commit env rq iid body, s)"
      by (simp add: put_reference_steps_def take_then_def take_fault_def pre_commit_then_def create_commit_def)
    with readable show ?thesis by (auto simp: open_create_def)
  next
    fix body
    assume f: "Atomic f = create_commit env rq iid body"
    show ?thesis
    proof (cases "sv_references s iid")
      case None
      then obtain r s' where commit: "commit_put env True iid [] body s = (PutDone r, s')"
        "sv_references s' iid = Some r" "sv_faults s' = sv_faults s"
        by (simp add: commit_put_def Let_def)
      moreover have "won (put_reply_then env rq True iid None (PutDone r) u)" for u
      proof -
        define doc where "doc = JObj [(''operational_intent_reference'', reference_json r),
          (''subscribers'', subscribers_json u)]"
        have "put_reply_then env rq True iid None (PutDone r) u =
            respond_then env rq OperationCreateReference iid 201 doc None"
          by (simp add: put_reply_then_def closes_after_commit_def doc_def)
        moreover have "respond_outcome 201 doc None = Reply 201 (BJson doc)"
          by (simp add: respond_outcome_def write_json_plain)
        ultimately show ?thesis
          using ends_respond [of 201 doc None env rq OperationCreateReference iid] by (auto simp: won_def)
      qed
      ultimately show ?thesis using f None by (simp add: create_commit_def)
    next
      case (Some r)
      then have "commit_put env True iid [] body s = (PutExists, s)" by (simp add: commit_put_def)
      moreover have "lost (put_reply_then env rq True iid None PutExists u)" for u
        using ends_respond [of 409 "message_json ''reference exists''" None env rq OperationCreateReference iid]
        by (simp add: lost_def put_reply_then_def exists_reply_def respond_outcome_def write_json_plain)
      ultimately show ?thesis using f Some by (simp add: create_commit_def)
    qed
  qed
qed

subsection \<open>The race\<close>

lemma won_step:
  "won (Atomic f) \<Longrightarrow> won (fst (f s)) \<and> sv_references (snd (f s)) = sv_references s \<and> sv_faults (snd (f s)) = sv_faults s"
  using ends_step by (auto simp: won_def)

lemma lost_step:
  "lost (Atomic f) \<Longrightarrow> lost (fst (f s)) \<and> sv_references (snd (f s)) = sv_references s \<and> sv_faults (snd (f s)) = sv_faults s"
  using ends_step by (auto simp: lost_def)

lemma won_tail: "won (Append e t) \<Longrightarrow> won t" by (simp add: won_def)
lemma lost_tail: "lost (Append e t) \<Longrightarrow> lost t" by (simp add: lost_def)

lemma open_create_atomic: "open_create iid t \<Longrightarrow> \<exists>f. t = Atomic f"
  by (auto simp: open_create_def put_reference_steps_def take_then_def create_commit_def Let_def)

lemma open_create_not_append [simp]: "\<not> open_create iid (Append e t)" "\<not> open_create iid (Finished out)"
  using open_create_atomic by blast+

text \<open>Nobody has created the reference yet, or exactly one request \<open>w\<close> has.\<close>

definition undecided :: "string \<Rightarrow> thread list \<Rightarrow> server \<Rightarrow> bool" where
  "undecided iid ts s \<longleftrightarrow> sv_faults s OperationCreateReference = None \<and> sv_references s iid = None \<and>
     (\<forall>i<length ts. open_create iid (ts ! i))"

definition decided :: "string \<Rightarrow> nat \<Rightarrow> thread list \<Rightarrow> server \<Rightarrow> bool" where
  "decided iid w ts s \<longleftrightarrow> sv_faults s OperationCreateReference = None \<and> sv_references s iid \<noteq> None \<and>
     w < length ts \<and> won (ts ! w) \<and> (\<forall>i<length ts. i \<noteq> w \<longrightarrow> open_create iid (ts ! i) \<or> lost (ts ! i))"

lemma undecided_step:
  assumes "undecided iid ts s" and "sched (ts, s) (ts', s')"
  shows "undecided iid ts' s' \<or> (\<exists>w. decided iid w ts' s')"
  using assms(2)
proof (cases rule: sched.cases)
  case (sched_atomic i f)
  then have "open_create iid (Atomic f)" using assms(1) by (simp add: undecided_def) metis
  from open_create_step [OF this, of s] assms(1)
  consider "sv_faults s' = sv_faults s" "sv_references s' = sv_references s" "open_create iid (fst (f s))"
    | "sv_faults s' = sv_faults s" "sv_references s' iid \<noteq> None" "won (fst (f s))"
    using sched_atomic by (auto simp: undecided_def)
  then show ?thesis
  proof cases
    case 1
    with assms(1) sched_atomic have "undecided iid ts' s'" by (auto simp: undecided_def nth_list_update)
    then show ?thesis ..
  next
    case 2
    with assms(1) sched_atomic have "decided iid i ts' s'" by (auto simp: undecided_def decided_def nth_list_update)
    then show ?thesis by blast
  qed
next
  case (sched_append i e t)
  then show ?thesis using assms(1) by (auto simp: undecided_def dest: spec [of _ i])
qed

lemma decided_step:
  assumes "decided iid w ts s" and "sched (ts, s) (ts', s')"
  shows "decided iid w ts' s'"
  using assms(2)
proof (cases rule: sched.cases)
  case (sched_atomic i f)
  show ?thesis
  proof (cases "i = w")
    case True
    with assms(1) sched_atomic have "won (Atomic f)" by (simp add: decided_def)
    from won_step [OF this, of s] True assms(1) sched_atomic show ?thesis
      by (auto simp: decided_def nth_list_update)
  next
    case False
    then have "open_create iid (Atomic f) \<or> lost (Atomic f)"
      using assms(1) sched_atomic unfolding decided_def by metis
    then have "sv_faults s' = sv_faults s \<and> sv_references s' = sv_references s \<and>
        (open_create iid (fst (f s)) \<or> lost (fst (f s)))"
      using open_create_step [of iid f s] lost_step [of f s] assms(1) sched_atomic by (auto simp: decided_def)
    with False assms(1) sched_atomic show ?thesis by (auto simp: decided_def nth_list_update)
  qed
next
  case (sched_append i e t)
  have "i = w \<Longrightarrow> won t" and "i \<noteq> w \<Longrightarrow> lost t"
    using assms(1) sched_append won_tail [of e t] lost_tail [of e t] unfolding decided_def
    by (metis, metis open_create_not_append(1))
  with assms(1) sched_append show ?thesis by (auto simp: decided_def nth_list_update append_event_def)
qed

lemma interleaved_creates:
  assumes "interleaved xs s0 ts s"
    and "list_all (\<lambda>(env, rq). op_of rq = CreateOp iid \<and> body_readable rq) xs"
    and "sv_references s0 iid = None" and "sv_faults s0 OperationCreateReference = None"
  shows "undecided iid ts s \<or> (\<exists>w. decided iid w ts s)"
  using assms(1)
proof (induction rule: interleaved_induct)
  case start
  have "undecided iid (map (\<lambda>(env, rq). request_steps env rq) xs) s0"
    using assms(2-4) by (auto simp: undecided_def list_all_length case_prod_beta intro: request_create)
  then show ?case ..
next
  case (step ts s ts' s')
  then show ?case using undecided_step decided_step by blast
qed

lemma won_Finished: "won (Finished out) \<longleftrightarrow> (\<exists>doc. out = Reply 201 (BJson doc))"
  by (auto simp: won_def)

lemma lost_Finished: "lost (Finished out) \<longleftrightarrow> out = exists_reply"
  by (auto simp: lost_def)

end
