(* ===== verification/Bounded_Schedules.thy ===== *)
theory Bounded_Schedules
  imports Fixture_Interleavings
begin

section \<open>Schedules end\<close>

text \<open>
  A request takes at most four atomic steps: it takes its fault, reads or commits, numbers its
  event and appends it. So every schedule of a set of requests ends, and it ends with every
  request answered.
\<close>

inductive fits :: "nat \<Rightarrow> thread \<Rightarrow> bool" where
  fits_Finished: "fits n (Finished out)"
| fits_Atomic: "(\<And>s. fits n (fst (f s))) \<Longrightarrow> fits (Suc n) (Atomic f)"
| fits_Append: "fits n t \<Longrightarrow> fits (Suc n) (Append e t)"

inductive_cases fits_AtomicE: "fits n (Atomic f)"
inductive_cases fits_AppendE: "fits n (Append e t)"

lemma fits_mono: "fits n t \<Longrightarrow> n \<le> m \<Longrightarrow> fits m t"
proof (induction arbitrary: m rule: fits.induct)
  case (fits_Atomic n f)
  then show ?case by (cases m) (auto intro: fits.fits_Atomic)
next
  case (fits_Append n t e)
  then show ?case by (cases m) (auto intro: fits.fits_Append)
qed (rule fits_Finished)

lemma fits_record: "fits n k \<Longrightarrow> fits (Suc (Suc n)) (record_then env rq operation iid status fault k)"
  by (simp add: record_then_def Let_def fits.intros)

lemma fits_respond: "fits (Suc (Suc n)) (respond_then env rq operation iid status payload fault)"
  by (simp add: respond_then_def fits_record fits_Finished)

lemma fits_take: "(\<And>fault. fits n (k fault)) \<Longrightarrow> fits (Suc n) (take_then operation k)"
  unfolding take_then_def by (rule fits_Atomic) (simp add: case_prod_beta)

lemma fits_pre_commit: "fits (Suc (Suc n)) k \<Longrightarrow> fits (Suc (Suc n)) (pre_commit_then env rq operation iid fault k)"
  by (simp add: pre_commit_then_def fits_record fits_respond fits_Finished split: option.split)

lemma fits_commit: "(\<And>s. fits n (k (fst (f s)) (snd (f s)))) \<Longrightarrow>
    fits (Suc n) (Atomic (\<lambda>s. case f s of (res, s') \<Rightarrow> (k res s', s')))"
  by (rule fits_Atomic) (simp add: case_prod_beta)

lemma fits_read: "(\<And>s. fits n (k s)) \<Longrightarrow> fits (Suc n) (Atomic (\<lambda>s. (k s, s)))"
  by (rule fits_Atomic) simp

lemma fits_one_step: "fits (Suc n) (one_step h)"
  unfolding one_step_def by (intro fits_commit fits_Finished)

lemmas fits_rules = fits_take fits_pre_commit fits_record fits_respond fits_Finished fits_read fits_commit

lemma fits_put_reply: "fits (Suc (Suc n)) (put_reply_then env rq create iid fault res subscriber)"
  by (cases res) (simp_all add: put_reply_then_def Let_def fits_rules)

lemma fits_delete_reply: "fits (Suc (Suc n)) (delete_reply_then env rq iid ovn fault found)"
  by (cases found) (simp_all add: delete_reply_then_def fits_rules)

lemma fits_put: "fits (Suc (Suc (Suc (Suc n)))) (put_reference_steps env rq create iid ovn)"
  unfolding put_reference_steps_def Let_def
  by (intro fits_take fits_pre_commit)
    (auto intro!: fits_commit fits_respond fits_put_reply split: sum.split)

lemma fits_delete: "fits (Suc (Suc (Suc (Suc n)))) (delete_reference_steps env rq iid ovn)"
  unfolding delete_reference_steps_def
  by (intro fits_take fits_pre_commit fits_commit fits_delete_reply)

lemma fits_request: "fits 4 (request_steps env rq)"
proof (cases "mux_find routes (rq_method rq) (rq_path rq)")
  case None
  then show ?thesis by (simp add: request_steps_def fits_Finished)
next
  case (Some a)
  obtain ep args where a: "a = (ep, args)" by fastforce
  have "fits (Suc (Suc (Suc (Suc 0)))) (endpoint_steps env rq ep args)"
    by (cases ep) (simp_all add: fits_put fits_delete fits_one_step reset_steps_def fits.intros
      query_references_steps_def subscriptions_steps_def get_reference_steps_def peer_details_steps_def
      peer_notification_steps_def fits_rules split: option.split)
  with Some a show ?thesis by (simp add: request_steps_def numeral_eq_Suc)
qed

text \<open>Every step of a schedule uses up one of the steps left to its requests.\<close>

lemma sum_list_update_less:
  fixes bs :: "nat list"
  assumes "i < length bs" and "bs ! i = Suc b"
  shows "sum_list bs = Suc (sum_list (bs[i := b]))"
  using assms elem_le_sum_list [OF assms(1)] by (simp add: sum_list_update)

lemma sched_budget:
  assumes "sched (ts, s) (ts', s')" and "list_all2 fits bs ts"
  shows "\<exists>bs'. list_all2 fits bs' ts' \<and> sum_list bs = Suc (sum_list bs')"
proof -
  have step: "\<exists>bs'. list_all2 fits bs' (ts[i := t]) \<and> sum_list bs = Suc (sum_list bs')"
    if "i < length ts" and "bs ! i = Suc b" and "fits b t" for i b t
    using that assms(2) sum_list_update_less [of i bs b]
    by (auto intro!: exI [of _ "bs[i := b]"] list_all2_update_cong simp: list_all2_lengthD)
  from assms(1) show ?thesis
  proof (cases rule: sched.cases)
    case (sched_atomic i f)
    then have "fits (bs ! i) (Atomic f)" using assms(2) by (simp add: list_all2_conv_all_nth) metis
    then obtain b where "bs ! i = Suc b" "fits b (fst (f s))" by (auto elim!: fits_AtomicE)
    with step sched_atomic show ?thesis by simp
  next
    case (sched_append i e t)
    then have "fits (bs ! i) (Append e t)" using assms(2) by (simp add: list_all2_conv_all_nth) metis
    then obtain b where "bs ! i = Suc b" "fits b t" by (auto elim!: fits_AppendE)
    with step sched_append show ?thesis by simp
  qed
qed

lemma sched_bounded:
  assumes "(sched ^^ n) (ts, s) c" and "list_all2 fits bs ts"
  shows "n \<le> sum_list bs"
  using assms
proof (induction n arbitrary: ts s bs)
  case (Suc n)
  from relpowp_Suc_D2 [OF Suc.prems(1)] obtain ts' s' where step: "sched (ts, s) (ts', s')" "(sched ^^ n) (ts', s') c"
    by (metis prod.exhaust)
  from sched_budget [OF step(1) Suc.prems(2)] obtain bs' where "list_all2 fits bs' ts'" "sum_list bs = Suc (sum_list bs')"
    by blast
  with Suc.IH [OF step(2)] show ?case by simp
qed simp

lemma stuck_is_finished:
  assumes "\<And>c. \<not> sched (ts, s) c"
  shows "list_all (\<lambda>t. \<exists>out. t = Finished out) ts"
  unfolding list_all_length
proof (intro allI impI)
  fix i assume i: "i < length ts"
  show "\<exists>out. ts ! i = Finished out"
  proof (cases "ts ! i")
    case (Atomic f)
    with sched_atomic [OF i Atomic] assms show ?thesis by blast
  next
    case (Append e t)
    with sched_append [OF i Append] assms show ?thesis by blast
  qed simp
qed

end
