(* ===== verification/Interleaving_Properties.thy ===== *)
theory Interleaving_Properties
  imports Concurrent_Creates Bounded_Schedules Fixture_Requests
begin

section \<open>What interleaved requests to the fixture guarantee\<close>

text \<open>
  An executable scheduler for the concrete schedules, and the properties of concurrent requests:
  a lone request is served as \<open>serve\<close> says, every set of requests is answered after boundedly
  many steps, commits linearize, one of several creates wins, and the journal numbers its events
  uniquely as long as nobody resets the fixture.
\<close>

definition answered :: "thread list \<Rightarrow> bool" where
  "answered ts \<longleftrightarrow> list_all (\<lambda>t. \<exists>out. t = Finished out) ts"

subsection \<open>A scheduler\<close>

definition turn :: "nat \<Rightarrow> thread list \<times> server \<Rightarrow> thread list \<times> server" where
  "turn i c = (case c of (ts, s) \<Rightarrow>
     (if i < length ts then
        (case ts ! i of
           Finished out \<Rightarrow> (ts, s)
         | Atomic f \<Rightarrow> (ts[i := fst (f s)], snd (f s))
         | Append e t \<Rightarrow> (ts[i := t], append_event e s))
      else (ts, s)))"

lemma turn_reaches: "sched\<^sup>*\<^sup>* c (turn i c)"
proof -
  obtain ts s where c: "c = (ts, s)" by fastforce
  show ?thesis
  proof (cases "i < length ts")
    case True
    then show ?thesis
      using sched_atomic [OF True] sched_append [OF True]
      by (cases "ts ! i") (auto simp: c turn_def intro: r_into_rtranclp)
  qed (simp add: c turn_def)
qed

lemma turns_reach: "sched\<^sup>*\<^sup>* c (fold turn is c)"
proof (induction "is" arbitrary: c)
  case (Cons i "is")
  then show ?case using turn_reaches [of c i] by (simp add: rtranclp_trans)
qed simp

lemma turns_interleaved:
  "fold turn is (map (\<lambda>(env, rq). request_steps env rq) xs, s0) = (ts, s) \<Longrightarrow> interleaved xs s0 ts s"
  using turns_reach [of "(map (\<lambda>(env, rq). request_steps env rq) xs, s0)" "is"]
  by (simp add: interleaved_def)

lemma turn_Cons:
  "turn 0 (Atomic f # ts, s) = (fst (f s) # ts, snd (f s))"
  "turn 0 (Append e t # ts, s) = (t # ts, append_event e s)"
  "turn (Suc i) (t # ts, s) = (case turn i (ts, s) of (ts', s') \<Rightarrow> (t # ts', s'))"
  by (auto simp: turn_def split: thread.split)

lemma readable_state_body:
  "decode_stream decode_put (state_body st) = Inr \<lparr>pr_state = st, pr_uss_base_url = [], pr_extents = []\<rparr>"
  by (simp add: state_body_def decode_stream_def decode_put_def put_field_def names_field_def)

lemmas schedule_simps = turn_Cons request_steps_def create_call_def call_def route_dss
     put_reference_steps_def take_then_def take_fault_def new_server_def example_config_def pre_commit_then_def
     path_value_def readable_state_body commit_put_def put_reply_then_def respond_then_def record_then_def
     respond_outcome_def write_json_plain closes_after_commit_def append_event_def

text \<open>Two creates of a reference, for the witnesses.\<close>

definition two_creates :: "(env \<times> request) list" where
  "two_creates = [(quiet_env, create_call ''a'' (state_body ''Accepted'')),
     (quiet_env, create_call ''a'' (state_body ''Activated''))]"

text \<open>Both creates take their fault and decode before either commits; then the second one commits before the first.\<close>

definition creates_overlap :: "thread list \<times> server" where
  "creates_overlap = fold turn [0, 1, 1, 0, 0, 1, 1, 0]
     (map (\<lambda>(env, rq). request_steps env rq) two_creates, new_server example_config)"

lemma creates_overlap_interleaved:
  "interleaved two_creates (new_server example_config) (fst creates_overlap) (snd creates_overlap)"
  by (rule turns_interleaved [of "[0, 1, 1, 0, 0, 1, 1, 0]"]) (simp add: creates_overlap_def)

lemma creates_overlap_outcomes:
  "\<exists>doc. fst creates_overlap = [Finished exists_reply, Finished (Reply 201 (BJson doc))]"
  by (simp add: creates_overlap_def two_creates_def schedule_simps Let_def numeral_eq_Suc exists_reply_def)

lemma two_creates_are_creates:
  "list_all (\<lambda>(env, rq). op_of rq = CreateOp ''a'' \<and> body_readable rq) two_creates"
  by (simp add: two_creates_def op_of_def body_readable_def create_call_def call_def route_dss path_value_def readable_state_body)


subsection \<open>One request\<close>





subsection \<open>Schedules end\<close>



subsection \<open>Commits linearize\<close>



subsection \<open>One create wins\<close>

text \<open>
  C9: creates of the same reference that run at the same time on a fixture that does not hold it,
  with readable bodies and no fault on creates: when all are answered, exactly one got 201, and
  every other one got 409 \<open>reference exists\<close>, in every interleaving.
\<close>

theorem concurrent_creates_one_winner:
  assumes "interleaved xs s0 (map Finished outs) s" and "xs \<noteq> []"
    and "list_all (\<lambda>(env, rq). op_of rq = CreateOp iid \<and> body_readable rq) xs"
    and "sv_references s0 iid = None" and "sv_faults s0 OperationCreateReference = None"
  shows "\<exists>w<length xs. (\<exists>doc. outs ! w = Reply 201 (BJson doc)) \<and>
    (\<forall>i<length xs. i \<noteq> w \<longrightarrow> outs ! i = Reply 409 (BJson (message_json ''reference exists'')))"
proof -
  have len: "length outs = length xs"
    using interleaved_length [OF assms(1)] by simp
  from interleaved_creates [OF assms(1,3-5)] show ?thesis
  proof (elim disjE exE)
    assume "undecided iid (map Finished outs) s"
    with len assms(2) show ?thesis by (auto simp: undecided_def dest: spec [of _ 0])
  next
    fix w assume "decided iid w (map Finished outs) s"
    with len show ?thesis
      by (auto simp: decided_def won_Finished lost_Finished exists_reply_def intro!: exI [of _ w])
  qed
qed

theorem concurrent_creates_one_winner_witness:
  "\<exists>outs. fst creates_overlap = map Finished outs \<and> (\<exists>w<2. \<exists>doc. outs ! w = Reply 201 (BJson doc))"
proof -
  from creates_overlap_outcomes obtain outs where outs: "fst creates_overlap = map Finished outs"
    by (metis list.map)
  then have "interleaved two_creates (new_server example_config) (map Finished outs) (snd creates_overlap)"
    using creates_overlap_interleaved by simp
  from concurrent_creates_one_winner [OF this _ two_creates_are_creates]
  show ?thesis using outs by (auto simp: two_creates_def new_server_def)
qed

subsection \<open>Numbers in the journal\<close>

text \<open>
  C12: fewer than 2^64 interleaved requests, none of them a reset, give every journal entry a
  number of its own, and once all are answered the numbers are exactly 1 to the number of
  entries. Their order in the journal is not claimed: the number is taken before the lock.
\<close>

theorem concurrent_numbers_unique:
  assumes "interleaved xs (new_server c) ts s"
    and "list_all (\<lambda>(env, rq). \<not> is_reset rq) xs" and "length xs < 2 ^ 64"
  shows "distinct (map ev_sequence (sv_events s)) \<and>
    (answered ts \<longrightarrow> (\<lambda>e. unat (ev_sequence e)) ` set (sv_events s) = {1..length (sv_events s)})"
proof -
  from interleaved_journaled [OF assms] obtain "is" ks where "journaled (length xs) is ks ts s" by blast
  then have inv: "distinct ks" "set ks \<subseteq> {..<length is}" "length ts = length xs" "set is \<subseteq> {..<length xs}"
    "map (\<lambda>e. unat (ev_sequence e)) (sv_events s) = map Suc ks"
    "\<And>k. k < length is \<Longrightarrow> slot_ok ks k (ts ! (is ! k))"
    unfolding journaled_def by blast+
  have "distinct (map unat (map ev_sequence (sv_events s)))"
    using inv(1,5) by (simp add: distinct_map comp_def)
  then have "distinct (map ev_sequence (sv_events s))" by (simp only: distinct_map)
  moreover have "(\<lambda>e. unat (ev_sequence e)) ` set (sv_events s) = {1..length (sv_events s)}" if "answered ts"
  proof -
    have "k \<in> set ks" if k: "k < length is" for k
    proof -
      have "is ! k < length ts" using inv(3,4) k by (metis lessThan_iff nth_mem subsetD)
      then obtain out where "ts ! (is ! k) = Finished out"
        using \<open>answered ts\<close> by (auto simp: answered_def list_all_length)
      with inv(6) [OF k] show ?thesis by (auto simp: slot_ok_def split: if_splits)
    qed
    with inv(2) have all: "set ks = {..<length is}" by auto
    then have "length ks = length is" using distinct_card [OF inv(1)] by simp
    moreover have "length (sv_events s) = length ks" using arg_cong [OF inv(5), of length] by simp
    moreover have "(\<lambda>e. unat (ev_sequence e)) ` set (sv_events s) = Suc ` set ks"
      using arg_cong [OF inv(5), of set] by simp
    ultimately show ?thesis using all by (simp add: image_Suc_lessThan)
  qed
  ultimately show ?thesis by blast
qed

theorem concurrent_numbers_unique_witness:
  "distinct (map ev_sequence (sv_events (snd creates_overlap)))"
  by (rule concurrent_numbers_unique [OF creates_overlap_interleaved, THEN conjunct1])
    (simp_all add: two_creates_def is_reset_def create_call_def call_def route_dss)

definition reset_call :: request where
  "reset_call = control_call ''reset'' no_body"

text \<open>
  C40: a reset that races with two notifications repeats numbers. The handler stores zero into the
  sequence after it has released the lock, so a notification that arrives in between is kept in
  the cleared journal under its old number, and the next one starts again at 1: on a fresh
  fixture the journal then holds two entries numbered 1.
\<close>

theorem reset_race_repeats_numbers:
  "\<exists>ts s'. interleaved [(env1, notify_call), (env2, reset_call), (env3, notify_call)] s ts s' \<and> answered ts \<and>
     map ev_sequence (sv_events s') = [sv_sequence s + 1, 1]"
proof -
  let ?c = "fold turn [1, 0, 0, 0, 1, 2, 2, 2]
    (map (\<lambda>(env, rq). request_steps env rq) [(env1, notify_call), (env2, reset_call), (env3, notify_call)], s)"
  have route: "mux_find routes ''POST'' [''uss'', ''v1'', ''operational_intents''] = Some (PeerNotify, [])"
    "mux_find routes ''POST'' [''control'', ''reset''] = Some (Reset, [])"
    by (simp_all add: routes_def match_method_def)
  have "answered (fst ?c) \<and> map ev_sequence (sv_events (snd ?c)) = [sv_sequence s + 1, 1]"
    by (simp add: schedule_simps Let_def numeral_eq_Suc notify_call_def reset_call_def control_call_def
      peer_notification_steps_def reset_steps_def route answered_def)
  moreover have "interleaved [(env1, notify_call), (env2, reset_call), (env3, notify_call)] s (fst ?c) (snd ?c)"
    by (rule turns_interleaved [of "[1, 0, 0, 0, 1, 2, 2, 2]"]) (simp only: prod.collapse)
  ultimately show ?thesis by - (elim conjE, intro exI conjI)
qed

end
