(* ===== verification/Calendar.thy ===== *)
theory Calendar
  imports Timestamps
begin

section \<open>The calendar and RFC 3339 are read back\<close>

text \<open>
  \<open>parse_time\<close> inverts \<open>rfc3339_nano\<close> for the years 0 to 9999, the ones \<open>Time.MarshalJSON\<close>
  accepts: the civil date determines the day, its fields are within the bounds the parser
  checks, and every padded number is read back.
\<close>

subsection \<open>Days and dates\<close>

text \<open>A day of an era of 400 years, by century, four-year cycle and day of the cycle.\<close>

lemma year_of_era:
  fixes doe :: int
  assumes "doe = 36524 * c + 1461 * q + t" and "0 \<le> c" "c \<le> 3" and "0 \<le> q" "q \<le> 24"
    and "0 \<le> t" "t \<le> 1460" and "q = 24 \<Longrightarrow> t \<le> 1459"
    and "t = 365 * a + b" and "0 \<le> a" "a \<le> 3" and "0 \<le> b" "b \<le> (if a = 3 then 365 else 364)"
  shows "(doe - doe div 1460 + doe div 36524 - doe div 146096) div 365 = 100 * c + 4 * q + a"
proof -
  have "1461 * q + t < 36524" using assms(4-8) by (cases "q = 24") auto
  then have c: "doe div 36524 = c" using assms by (intro int_div_pos_eq [of _ _ _ "1461 * q + t"]) auto
  have last: "doe div 146096 = 0"
    using assms(1-8) \<open>1461 * q + t < 36524\<close> by (intro div_pos_pos_trivial) auto
  define e :: int where "e = (if 24 * c + q + t < 1460 then 0 else 1)"
  have four: "doe div 1460 = 25 * c + q + e"
    using assms(1-8) unfolding e_def
    by (intro int_div_pos_eq [of _ _ _ "24 * c + q + t - (if 24 * c + q + t < 1460 then 0 else 1460)"]) auto
  have e: "e = 0 \<and> b \<le> 364 \<or> e = 1 \<and> 1 \<le> b \<and> b \<le> 365"
  proof (cases "24 * c + q + t < 1460")
    case True
    with assms(2,4,9,10,13) show ?thesis by (cases "b = 365") (auto simp: e_def split: if_splits)
  next
    case False
    with assms(3,5,9,11,13) show ?thesis by (auto simp: e_def split: if_splits)
  qed
  have "doe - doe div 1460 + doe div 36524 - doe div 146096 = 365 * (100 * c + 4 * q + a) + (b - e)"
    unfolding c last four using assms(1,9) by (simp add: algebra_simps)
  moreover have "0 \<le> b - e" "b - e < 365" using assms(12) e by auto
  ultimately show ?thesis by (intro int_div_pos_eq [of _ _ _ "b - e"]) auto
qed

lemma era_parts:
  fixes doe :: int
  assumes "0 \<le> doe" and "doe < 146096"
  obtains c q t a b where "doe = 36524 * c + 1461 * q + t" "0 \<le> c" "c \<le> 3" "0 \<le> q" "q \<le> 24"
    "0 \<le> t" "t \<le> 1460" "q = 24 \<Longrightarrow> t \<le> 1459"
    "t = 365 * a + b" "0 \<le> a" "a \<le> 3" "0 \<le> b" "b \<le> (if a = 3 then 365 else 364)"
proof -
  define c r where "c = doe div 36524" and "r = doe mod 36524"
  define q t where "q = r div 1461" and "t = r mod 1461"
  define a where "a = (if t = 1460 then 3 else t div 365)"
  have d: "doe = 36524 * c + r" "r = 1461 * q + t" by (simp_all add: c_def r_def q_def t_def)
  have "0 \<le> r" "r < 36524" "0 \<le> t" "t < 1461" by (simp_all add: r_def t_def)
  moreover have "0 \<le> c" "c \<le> 3" "0 \<le> q" "q \<le> 24"
    using assms \<open>0 \<le> r\<close> \<open>r < 36524\<close> by (auto simp: c_def q_def)
  moreover have "q = 24 \<Longrightarrow> t \<le> 1459" using d(2) \<open>r < 36524\<close> by simp
  moreover have "0 \<le> a" "a \<le> 3" "0 \<le> t - 365 * a" "t - 365 * a \<le> (if a = 3 then 365 else 364)"
    using \<open>0 \<le> t\<close> \<open>t < 1461\<close> by (auto simp: a_def minus_mult_div_eq_mod) 
  ultimately show thesis using that [of c q t a "t - 365 * a"] d by simp
qed

definition days_before :: "int \<Rightarrow> int" where
  "days_before y = 365 * y + y div 4 - y div 100"

lemma era_year:
  fixes doe :: int
  assumes "0 \<le> doe" and "doe < 146097"
  defines "y \<equiv> (doe - doe div 1460 + doe div 36524 - doe div 146096) div 365"
  shows "0 \<le> y" "y \<le> 399" "0 \<le> doe - days_before y" "doe - days_before y \<le> 365"
    "doe - days_before y = 365 \<Longrightarrow> leap_year (y + 1)"
proof -
  have "0 \<le> y \<and> y \<le> 399 \<and> 0 \<le> doe - days_before y \<and> doe - days_before y \<le> 365 \<and>
    (doe - days_before y = 365 \<longrightarrow> leap_year (y + 1))"
  proof (cases "doe = 146096")
    case True
    then show ?thesis by (simp add: y_def days_before_def leap_year_def)
  next
    case False
    then have "doe < 146096" using assms(2) by simp
    from era_parts [OF assms(1) this] obtain c q t a b where
      parts: "doe = 36524 * c + 1461 * q + t" "0 \<le> c" "c \<le> 3" "0 \<le> q" "q \<le> 24"
      "0 \<le> t" "t \<le> 1460" "q = 24 \<Longrightarrow> t \<le> 1459"
      "t = 365 * a + b" "0 \<le> a" "a \<le> 3" "0 \<le> b" "b \<le> (if a = 3 then 365 else 364)" by blast
    have y: "y = 100 * c + 4 * q + a" unfolding y_def by (rule year_of_era [OF parts]) 
    have "y div 4 = 25 * c + q" using y parts(10,11) by (intro int_div_pos_eq [of _ _ _ a]) auto
    moreover have "y div 100 = c" using y parts(4,5,10,11) by (intro int_div_pos_eq [of _ _ _ "4 * q + a"]) auto
    ultimately have b: "doe - days_before y = b" using y parts(1,9) by (simp add: days_before_def)
    have "leap_year (y + 1)" if "b = 365"
    proof -
      have "a = 3" "t = 1460" using that parts(13,9) by (auto split: if_splits)
      then have "q \<le> 23" using parts(5,8) by (cases "q = 24") auto
      have "(y + 1) mod 4 = 0" using y \<open>a = 3\<close> by presburger
      moreover have "(y + 1) mod 100 = 4 * (q + 1)"
        using y \<open>a = 3\<close> \<open>q \<le> 23\<close> parts(4) by (intro int_mod_pos_eq [of _ _ c]) auto
      ultimately show ?thesis using parts(4) by (simp add: leap_year_def)
    qed
    then show ?thesis using b y parts(2-5,10-13) by (auto split: if_splits)
  qed
  then show "0 \<le> y" "y \<le> 399" "0 \<le> doe - days_before y" "doe - days_before y \<le> 365"
    "doe - days_before y = 365 \<Longrightarrow> leap_year (y + 1)" by simp_all
qed

lemma each_month:
  fixes P :: "int \<Rightarrow> bool"
  assumes "list_all P [0, 1, 2, 3, 4, 5]" and "list_all (\<lambda>n. P (n + 6)) [0, 1, 2, 3, 4, 5]" and "0 \<le> n" and "n \<le> 11"
  shows "P n"
proof -
  have half: "Q k" if "list_all Q [0, 1, 2, 3, 4, 5]" and "0 \<le> k" and "k < 6" for Q :: "int \<Rightarrow> bool" and k
  proof -
    have "nat k < Suc (Suc (Suc (Suc (Suc (Suc 0)))))" using that(3) by simp
    then have "nat k \<in> {0, 1, 2, 3, 4, 5}" by (auto simp: less_Suc_eq)
    then have "int (nat k) \<in> {0, 1, 2, 3, 4, 5}" by auto
    with that(1,2) show ?thesis by auto
  qed
  show ?thesis using half [OF assms(1), of n] half [OF assms(2), of "n - 6"] assms(3,4) by (cases "n < 6") auto
qed

text \<open>Months from March on, by the day of the year that begins on 1 March.\<close>

lemma month_of_year:
  fixes doy :: int
  assumes "0 \<le> doy" and "doy \<le> 365"
  defines "mp \<equiv> (5 * doy + 2) div 153"
  defines "m \<equiv> (if mp < 10 then mp + 3 else mp - 9)"
  defines "d \<equiv> doy - (153 * mp + 2) div 5 + 1"
  shows "1 \<le> m \<and> m \<le> 12 \<and> 1 \<le> d \<and> (if 2 < m then m - 3 else m + 9) = mp \<and>
    (d \<le> 28 \<or> m = 2 \<and> d = 29 \<and> doy = 365 \<or> m \<noteq> 2 \<and> d \<le> (if m \<in> {4, 6, 9, 11} then 30 else 31))"
proof -
  have mp: "0 \<le> mp" "mp \<le> 11" using assms(1,2) unfolding mp_def by linarith+
  have b: "153 * mp \<le> 5 * doy + 2" "5 * doy + 2 \<le> 153 * mp + 152" unfolding mp_def by linarith+
  have last: "doy \<le> 364 \<or> doy = 365" using assms(2) by arith
  have "153 * mp \<le> 5 * doy + 2 \<longrightarrow> 5 * doy + 2 \<le> 153 * mp + 152 \<longrightarrow>
      (let m = (if mp < 10 then mp + 3 else mp - 9); d = doy - (153 * mp + 2) div 5 + 1 in
       1 \<le> m \<and> m \<le> 12 \<and> 1 \<le> d \<and> (if 2 < m then m - 3 else m + 9) = mp \<and>
       (d \<le> 28 \<or> m = 2 \<and> d = 29 \<and> doy = 365 \<or> m \<noteq> 2 \<and> d \<le> (if m \<in> {4, 6, 9, 11} then 30 else 31)))"
    by (rule each_month [OF _ _ mp]) (use last in \<open>auto simp: Let_def\<close>)
  with b show ?thesis by (simp only: Let_def m_def d_def simp_thms)
qed

lemma civil_fields:
  assumes "civil_of_days days = (y, m, d)"
  shows "1 \<le> m \<and> m \<le> 12 \<and> 1 \<le> d \<and> d \<le> days_in y m \<and> days_of_civil y m d = days"
proof -
  define z era doe where "z = days + 719468" and "era = z div 146097" and "doe = z mod 146097"
  define yoe where "yoe = (doe - doe div 1460 + doe div 36524 - doe div 146096) div 365"
  define doy where "doy = doe - days_before yoe"
  have doe: "0 \<le> doe" "doe < 146097" by (simp_all add: doe_def)
  note year = era_year [OF doe, folded yoe_def, folded doy_def]
  note month = month_of_year [OF year(3,4)]
  let ?mp = "(5 * doy + 2) div 153"
  have "civil_of_days days = (let m = (if ?mp < 10 then ?mp + 3 else ?mp - 9) in
      (yoe + era * 400 + (if m \<le> 2 then 1 else 0), m, doy - (153 * ?mp + 2) div 5 + 1))"
    unfolding civil_of_days_def Let_def doy_def days_before_def yoe_def doe_def era_def z_def by (rule refl)
  then have m: "m = (if ?mp < 10 then ?mp + 3 else ?mp - 9)" and d: "d = doy - (153 * ?mp + 2) div 5 + 1"
    and y: "y = yoe + era * 400 + (if m \<le> 2 then 1 else 0)"
    unfolding assms Let_def prod.inject by blast+
  note month = month [folded m d]
  have leap: "leap_year y" if "doy = 365" "m = 2"
  proof -
    have "leap_year (yoe + 1)" using year(5) that by simp
    moreover have "y = (yoe + 1) + 400 * era" using y that by simp
    then have "y mod 4 = (yoe + 1) mod 4" "y mod 100 = (yoe + 1) mod 100" "y mod 400 = (yoe + 1) mod 400"
      by (simp_all add: mod_eq_dvd_iff dvd_mult2)
    ultimately show ?thesis by (simp add: leap_year_def)
  qed
  have "d \<le> days_in y m" using month leap by (auto simp: days_in_def)
  moreover have "days_of_civil y m d = days"
  proof -
    have y': "(if m \<le> 2 then y - 1 else y) = yoe + 400 * era" using y by simp
    have era: "(yoe + 400 * era) div 400 = era" using year(1,2) by (intro int_div_pos_eq [of _ _ _ yoe]) auto
    have yoe: "(yoe + 400 * era) mod 400 = yoe" using year(1,2) by (intro int_mod_pos_eq [of _ _ era]) auto
    have "(if 2 < m then m - 3 else m + 9) = ?mp" using month by blast
    then have "days_of_civil y m d = era * 146097 + (yoe * 365 + yoe div 4 - yoe div 100 + doy) - 719468"
      unfolding days_of_civil_def Let_def y' era yoe by (simp add: d)
    also have "yoe * 365 + yoe div 4 - yoe div 100 + doy = doe" by (simp add: doy_def days_before_def)
    finally show ?thesis by (simp add: era_def doe_def z_def)
  qed
  ultimately show ?thesis using month by blast
qed

subsection \<open>Numbers\<close>

lemma digit_value_digit [simp]: "d < 10 \<Longrightarrow> digit_value (digit d) = Some (int d)"
  by (simp add: digit_value_def of_char_digit)

lemma number_append: "number (s @ u) acc = (case number s acc of None \<Rightarrow> None | Some v \<Rightarrow> number u v)"
  by (induction s arbitrary: acc) (simp_all split: option.split)

lemma number_nat_dec: "number (nat_dec n) acc = Some (acc * 10 ^ length (nat_dec n) + int n)"
proof (induction n rule: nat_dec.induct)
  case (1 n)
  show ?case
  proof (cases "n < 10")
    case True
    then show ?thesis by (simp add: nat_dec.simps [of n])
  next
    case False
    have "int n = 10 * (int n div 10) + int n mod 10" by simp
    with 1 False show ?thesis
      by (simp add: nat_dec.simps [of n] number_append zdiv_int zmod_int algebra_simps)
  qed
qed

lemma number_zeros: "number (replicate k (CHR ''0'')) 0 = Some 0"
  by (induction k) (simp_all add: digit_value_def)

lemma length_nat_dec: "n < 10 ^ w \<Longrightarrow> 0 < w \<Longrightarrow> length (nat_dec n) \<le> w"
proof (induction w arbitrary: n)
  case (Suc w)
  show ?case
  proof (cases "n < 10")
    case True
    then show ?thesis by (simp add: nat_dec.simps [of n])
  next
    case False
    moreover from this Suc.prems have "0 < w" by (cases w) auto
    moreover have "n div 10 < 10 ^ w" using Suc.prems(1) by (simp add: less_mult_imp_div_less)
    ultimately show ?thesis using Suc.IH [of "n div 10"] by (simp add: nat_dec.simps [of n])
  qed
qed simp

lemma zero_pad_field:
  assumes "0 \<le> i" and "i < 10 ^ w" and "0 < w"
  shows "length (zero_pad w i) = w" and "number (zero_pad w i) 0 = Some i"
proof -
  have "nat i < 10 ^ w" using assms by (metis nat_less_iff of_nat_numeral of_nat_power)
  with assms(1,3) show "length (zero_pad w i) = w"
    using length_nat_dec [of "nat i" w] by (simp add: zero_pad_def Let_def)
  show "number (zero_pad w i) 0 = Some i"
    using assms(1) by (simp add: zero_pad_def Let_def number_append number_zeros number_nat_dec)
qed

lemma number_digits: "number s acc = Some v \<Longrightarrow> c \<in> set s \<Longrightarrow> digit_value c \<noteq> None"
  by (induction s arbitrary: acc) (auto split: option.splits)

text \<open>The field between the text \<open>p\<close> before it and the text \<open>q\<close> after it.\<close>

lemma field_at_mid:
  assumes "length p = pos" and "0 \<le> i" and "i < 10 ^ w" and "0 < w" and "lo \<le> i" and "i \<le> hi"
  shows "field_at (p @ zero_pad w i @ q) pos w lo hi = Some i"
  using assms zero_pad_field [OF assms(2-4)] by (simp add: field_at_def)

subsection \<open>The fraction\<close>

lemma trim_zeros: "\<exists>k. s = trim_right c s @ replicate k c"
proof -
  have "takeWhile (\<lambda>x. x = c) (rev s) = replicate (length (takeWhile (\<lambda>x. x = c) (rev s))) c"
    by (metis (mono_tags, lifting) replicate_length_same set_takeWhileD)
  then have "rev (takeWhile (\<lambda>x. x = c) (rev s)) = replicate (length (takeWhile (\<lambda>x. x = c) (rev s))) c"
    by (metis rev_replicate)
  moreover have "s = trim_right c s @ rev (takeWhile (\<lambda>x. x = c) (rev s))"
    by (metis rev_append rev_rev_ident takeWhile_dropWhile_id trim_right_def)
  ultimately show ?thesis by metis
qed

lemma parse_fraction_shown:
  assumes "0 < ns" and "ns < nanos_per_second"
  shows "parse_fraction (''.'' @ trim_right (CHR ''0'') (zero_pad 9 ns) @ ''Z'') = Some (ns, ''Z'')"
proof -
  let ?p = "zero_pad 9 ns" and ?f = "trim_right (CHR ''0'') (zero_pad 9 ns)"
  have p: "length ?p = 9" "number ?p 0 = Some ns"
    using zero_pad_field [of ns 9] assms by (simp_all add: nanos_per_second_def)
  obtain k where k: "?p = ?f @ replicate k (CHR ''0'')" using trim_zeros by blast
  have "?f \<noteq> []"
  proof
    assume "?f = []"
    then have "number ?p 0 = Some 0" using k number_zeros [of k] by simp
    then show False using p(2) assms(1) by simp
  qed
  have digits: "\<forall>c\<in>set ?f. digit_value c \<noteq> None"
  proof
    fix c assume "c \<in> set ?f"
    then have "c \<in> set ?p" by (subst k) simp
    with number_digits [OF p(2)] show "digit_value c \<noteq> None" .
  qed
  have "digit_value (CHR ''Z'') = None" by code_simp
  with digits have "takeWhile (\<lambda>d. digit_value d \<noteq> None) (?f @ ''Z'') = ?f"
    by (simp add: takeWhile_append2)
  moreover have "take 9 (?f @ replicate 9 (CHR ''0'')) = ?p"
  proof -
    have len: "length ?f + k = 9" using p(1) k by (metis length_append length_replicate)
    then have "replicate 9 (CHR ''0'') = replicate k (CHR ''0'') @ replicate (length ?f) (CHR ''0'')"
      by (metis add.commute replicate_add)
    then show ?thesis using len k by (metis (no_types, lifting) append_assoc append_eq_conv_conj length_append length_replicate)
  qed
  moreover have "hd (?f @ ''Z'') \<in> set ?f" using \<open>?f \<noteq> []\<close> by (simp add: hd_append)
  ultimately show ?thesis
    using digits p(2) by (simp add: parse_fraction_def Let_def)
qed

subsection \<open>A whole timestamp\<close>

lemma parse_time_fields:
  assumes "0 \<le> y" "y \<le> 9999" "1 \<le> m" "m \<le> 12" "1 \<le> d" "d \<le> days_in y m"
    and "0 \<le> hh" "hh \<le> 23" "0 \<le> mm" "mm \<le> 59" "0 \<le> ss" "ss \<le> 59" and "rest \<noteq> []"
    and "parse_fraction rest = Some (ns, ''Z'')"
  shows "parse_time (zero_pad 4 y @ ''-'' @ zero_pad 2 m @ ''-'' @ zero_pad 2 d @ ''T'' @ zero_pad 2 hh @ '':'' @
     zero_pad 2 mm @ '':'' @ zero_pad 2 ss @ rest) =
   Some ((days_of_civil y m d * 86400 + hh * 3600 + mm * 60 + ss) * nanos_per_second + ns)"
proof -
  have "d \<le> 31" using assms(6) by (auto simp: days_in_def split: if_splits)
  then have len: "length (zero_pad 4 y) = 4" "length (zero_pad 2 m) = 2" "length (zero_pad 2 d) = 2"
    "length (zero_pad 2 hh) = 2" "length (zero_pad 2 mm) = 2" "length (zero_pad 2 ss) = 2"
    and num: "number (zero_pad 4 y) 0 = Some y" "number (zero_pad 2 m) 0 = Some m" "number (zero_pad 2 d) 0 = Some d"
    "number (zero_pad 2 hh) 0 = Some hh" "number (zero_pad 2 mm) 0 = Some mm" "number (zero_pad 2 ss) 0 = Some ss"
    using assms(1-12) by (auto intro!: zero_pad_field)
  have "0 < length rest" using assms(13) by simp
  with assms(1-12,14) show ?thesis
    by (simp add: parse_time_def field_at_def nth_append len num parse_zone_def)
qed

text \<open>The year a timestamp shows, which \<open>Time.MarshalJSON\<close> requires to have four digits.\<close>

definition shown_year :: "int \<Rightarrow> int" where
  "shown_year ns = fst (civil_of_days (ns div nanos_per_second div 86400))"

lemma parse_time_shown:
  assumes "0 \<le> shown_year ns" and "shown_year ns \<le> 9999"
  shows "parse_time (rfc3339_nano ns) = Some ns"
proof -
  define secs sod where "secs = ns div nanos_per_second" and "sod = secs mod 86400"
  obtain y m d where civil: "civil_of_days (secs div 86400) = (y, m, d)" by (metis prod_cases3)
  note date = civil_fields [OF civil]
  have year: "0 \<le> y" "y \<le> 9999" using assms civil by (simp_all add: shown_year_def secs_def)
  have sod: "0 \<le> sod" "sod < 86400" by (simp_all add: sod_def)
  have "sod div 3600 \<le> 86399 div 3600" using sod(2) by (intro zdiv_mono1) simp_all
  moreover have "sod div 60 mod 60 < 60" "sod mod 60 < 60" by simp_all
  ultimately have clock: "0 \<le> sod div 3600" "sod div 3600 \<le> 23" "0 \<le> sod div 60 mod 60" "sod div 60 mod 60 \<le> 59"
    "0 \<le> sod mod 60" "sod mod 60 \<le> 59" using sod(1) by (simp_all add: pos_imp_zdiv_nonneg_iff)
  have "sod div 3600 * 60 + sod div 60 mod 60 = sod div 60"
    using div_mult_mod_eq [of "sod div 60" 60] zdiv_zmult2_eq [of 60 sod 60] by simp
  moreover have "sod div 60 * 60 + sod mod 60 = sod" by simp
  ultimately have hms: "sod div 3600 * 3600 + sod div 60 mod 60 * 60 + sod mod 60 = sod" by linarith
  have total: "(days_of_civil y m d * 86400 + sod div 3600 * 3600 + sod div 60 mod 60 * 60 + sod mod 60) *
      nanos_per_second + ns mod nanos_per_second = ns"
  proof -
    have "days_of_civil y m d * 86400 + sod = secs" using date by (simp add: sod_def)
    with hms have "days_of_civil y m d * 86400 + sod div 3600 * 3600 + sod div 60 mod 60 * 60 + sod mod 60 = secs"
      by linarith
    then show ?thesis by (simp add: secs_def)
  qed
  let ?date = "\<lambda>rest. zero_pad 4 y @ ''-'' @ zero_pad 2 m @ ''-'' @ zero_pad 2 d @ ''T'' @ zero_pad 2 (sod div 3600) @ '':'' @
      zero_pad 2 (sod div 60 mod 60) @ '':'' @ zero_pad 2 (sod mod 60) @ rest"
  have base: "rfc3339 ns = ?date ''Z''"
    unfolding rfc3339_def Let_def secs_def [symmetric] sod_def [symmetric] civil prod.case by (rule refl)
  have fields: "parse_time (?date rest) = Some ns"
    if "rest \<noteq> []" and "parse_fraction rest = Some (ns mod nanos_per_second, ''Z'')" for rest
    using parse_time_fields [OF year _ _ _ _ clock that, of m d] date unfolding total by blast
  show ?thesis
  proof (cases "ns mod nanos_per_second = 0")
    case True
    then have "rfc3339_nano ns = ?date ''Z''" by (simp add: rfc3339_nano_def Let_def base)
    moreover have "parse_fraction ''Z'' = Some (ns mod nanos_per_second, ''Z'')" by (simp add: parse_fraction_def True)
    ultimately show ?thesis using fields [of "''Z''"] by simp
  next
    case False
    let ?rest = "''.'' @ trim_right (CHR ''0'') (zero_pad 9 (ns mod nanos_per_second)) @ ''Z''"
    have "rfc3339_nano ns = ?date ?rest"
      using False by (simp add: rfc3339_nano_def Let_def base butlast_append)
    moreover have "parse_fraction ?rest = Some (ns mod nanos_per_second, ''Z'')"
    proof (rule parse_fraction_shown)
      have "0 < nanos_per_second" by (simp add: nanos_per_second_def)
      then have "0 \<le> ns mod nanos_per_second" and bound: "ns mod nanos_per_second < nanos_per_second" by simp_all
      with False show "0 < ns mod nanos_per_second" by simp
      show "ns mod nanos_per_second < nanos_per_second" by (rule bound)
    qed
    ultimately show ?thesis using fields [of ?rest] by simp
  qed
qed

end
