(* ===== verification/Journal_Client.thy ===== *)
theory Journal_Client
  imports Calendar Timeline Fixture_Requests
begin

section \<open>Reading the fixture's journal\<close>

text \<open>
  \<open>DecodeEvents\<close> and \<open>ParseRetryAfter\<close> of \<open>internal/fixture/server.go\<close>, the client side of the
  package. What \<open>DecodeEvents\<close> reads from \<open>GET /control/events\<close> is the journal the server holds.
\<close>

subsection \<open>Decoding\<close>










subsection \<open>Retry-After\<close>

text \<open>\<open>strconv.Atoi\<close>: an optional sign and digits, within the 64 bits of an \<open>int\<close>.\<close>

definition atoi :: "string \<Rightarrow> int option" where
  "atoi s =
     (let signed = s \<noteq> [] \<and> (hd s = CHR ''-'' \<or> hd s = CHR ''+'');
          ds = (if signed then drop 1 s else s)
      in if ds = [] then None
      else case number ds 0 of
        None \<Rightarrow> None
      | Some v \<Rightarrow> (let i = (if signed \<and> hd s = CHR ''-'' then - v else v) in
          if in_int64 i then Some i else None))"

definition ParseRetryAfter :: "string \<Rightarrow> go_error + int" where
  "ParseRetryAfter value = (case atoi (trim_space value) of
     None \<Rightarrow> Inl (''invalid Retry-After '' @ quoted value)
   | Some seconds \<Rightarrow>
       (if seconds < 0 then Inl (''invalid Retry-After '' @ quoted value)
        else Inr (wrap64 (seconds * nanos_per_second))))"

subsection \<open>The journal is read back\<close>


lemma names_journal_fields [simp]:
  "names_field ''at'' ''sequence'' = False"
  "names_field ''operation'' ''sequence'' = False" "names_field ''operation'' ''at'' = False"
  "names_field ''method'' ''sequence'' = False" "names_field ''method'' ''at'' = False"
  "names_field ''method'' ''operation'' = False"
  "names_field ''path'' ''sequence'' = False" "names_field ''path'' ''at'' = False"
  "names_field ''path'' ''operation'' = False" "names_field ''path'' ''method'' = False"
  "names_field ''intent_id'' ''sequence'' = False" "names_field ''intent_id'' ''at'' = False"
  "names_field ''intent_id'' ''operation'' = False" "names_field ''intent_id'' ''method'' = False"
  "names_field ''intent_id'' ''path'' = False"
  "names_field ''status'' ''sequence'' = False" "names_field ''status'' ''at'' = False"
  "names_field ''status'' ''operation'' = False" "names_field ''status'' ''method'' = False"
  "names_field ''status'' ''path'' = False" "names_field ''status'' ''intent_id'' = False"
  "names_field ''fault'' ''sequence'' = False" "names_field ''fault'' ''at'' = False"
  "names_field ''fault'' ''operation'' = False" "names_field ''fault'' ''method'' = False"
  "names_field ''fault'' ''path'' = False" "names_field ''fault'' ''intent_id'' = False"
  "names_field ''fault'' ''status'' = False" "names_field ''delay_ms'' ''status'' = False"
  "names_field ''close_after_commit'' ''status'' = False" "names_field ''close_after_commit'' ''delay_ms'' = False"
  "names_field ''malformed_json'' ''status'' = False" "names_field ''malformed_json'' ''delay_ms'' = False"
  "names_field ''malformed_json'' ''close_after_commit'' = False"
  by (simp_all add: names_field_def ascii_lower_def)







text \<open>
  \<open>ParseRetryAfter\<close> on a decimal number of seconds returns that many seconds exactly when the
  product fits a \<open>time.Duration\<close>, up to 9223372036 seconds; a larger number that still is an
  \<open>int\<close> is accepted and returned as a wrong duration.
\<close>

theorem retry_after_exact:
  "(ParseRetryAfter (nat_dec n) = Inr (int n * nanos_per_second)) = (n \<le> 9223372036) \<and>
   ((\<exists>d. ParseRetryAfter (nat_dec n) = Inr d) = (n < 2 ^ 63))"
proof -
  have digits: "c \<in> set (nat_dec n) \<Longrightarrow> 48 \<le> (of_char c :: nat) \<and> (of_char c :: nat) \<le> 57" for c
    using nat_dec_digits [of c n] of_char_digit by auto
  have "nat_dec n \<noteq> []" by (simp add: nat_dec.simps [of n])
  have trim: "trim_space (nat_dec n) = nat_dec n"
  proof -
    have "\<not> is_space c" if "c \<in> set (nat_dec n)" for c
      using digits [OF that] by (auto simp: is_space_def)
    then have "dropWhile is_space (nat_dec n) = nat_dec n" "dropWhile is_space (rev (nat_dec n)) = rev (nat_dec n)"
      by (auto simp: dropWhile_eq_self_iff hd_rev \<open>nat_dec n \<noteq> []\<close>)
    then show ?thesis by (simp add: trim_space_def)
  qed
  have "hd (nat_dec n) \<in> set (nat_dec n)" using \<open>nat_dec n \<noteq> []\<close> by simp
  note first = digits [OF this]
  then have "hd (nat_dec n) \<noteq> CHR ''-''" "hd (nat_dec n) \<noteq> CHR ''+''" by auto
  then have "atoi (nat_dec n) = (if in_int64 (int n) then Some (int n) else None)"
    using \<open>nat_dec n \<noteq> []\<close> by (simp add: atoi_def number_nat_dec Let_def)
  moreover have "in_int64 (int n) \<longleftrightarrow> n < 2 ^ 63"
    unfolding in_int64_def by simp
  ultimately have parse: "ParseRetryAfter (nat_dec n) =
      (if n < 2 ^ 63 then Inr (wrap64 (int n * nanos_per_second)) else Inl (''invalid Retry-After '' @ quoted (nat_dec n)))"
    by (simp add: ParseRetryAfter_def trim)
  have "wrap64 (int n * nanos_per_second) = int n * nanos_per_second \<longleftrightarrow> in_int64 (int n * nanos_per_second)"
    using wrap64_id wrap64_range by metis
  moreover have "in_int64 (int n * nanos_per_second) \<longleftrightarrow> n \<le> 9223372036"
    by (auto simp: in_int64_def nanos_per_second_def)
  ultimately show ?thesis using parse by auto
qed

end
