(* ===== verification/Fixture_Replies.thy ===== *)
theory Fixture_Replies
  imports Fixture_Requests
begin

section \<open>The documents the fixture answers with\<close>

text \<open>
  The JSON documents of \<open>internal/fixture/server.go\<close> as types: the struct tags of \<open>Reference\<close>,
  \<open>FaultPlan\<close> and \<open>Event\<close>, and the payload maps the handlers build. Whatever requests a fixture
  has served, a JSON reply of an endpoint has the endpoint's type with its success status, or is
  one of the error documents of its surface.
\<close>

text \<open>A field of an object is required or may be left out; other members are not allowed.\<close>

datatype jtype = TStr | TInt | TBool | TList jtype | TNullable jtype | TObj "(string \<times> bool \<times> jtype) list" | TAny

fun conforms :: "jval \<Rightarrow> jtype \<Rightarrow> bool" where
  "conforms v TAny = True"
| "conforms v (TNullable t) = (v = JNull \<or> conforms v t)"
| "conforms (JStr s) TStr = True"
| "conforms (JInt i) TInt = True"
| "conforms (JBool b) TBool = True"
| "conforms (JArr vs) (TList t) = list_all (\<lambda>v. conforms v t) vs"
| "conforms (JObj ms) (TObj fs) =
     (distinct (map fst ms) \<and>
      list_all (\<lambda>(k, v). case map_of fs k of None \<Rightarrow> False | Some (required, t) \<Rightarrow> conforms v t) ms \<and>
      list_all (\<lambda>(k, required, t). required \<longrightarrow> k \<in> set (map fst ms)) fs)"
| "conforms v t = False"

definition time_type :: jtype where
  "time_type = TObj [(''format'', True, TStr), (''value'', True, TStr)]"

definition reference_type :: jtype where
  "reference_type = TObj [(''id'', True, TStr), (''manager'', True, TStr), (''ovn'', True, TStr),
     (''state'', True, TStr), (''subscription_id'', True, TStr), (''uss_availability'', True, TStr),
     (''uss_base_url'', True, TStr), (''version'', True, TInt), (''time_start'', True, time_type),
     (''time_end'', True, time_type)]"

definition plan_type :: jtype where
  "plan_type = TObj [(''operation'', True, TStr), (''times'', True, TInt), (''status'', False, TInt),
     (''delay_ms'', False, TInt), (''close_after_commit'', False, TBool), (''malformed_json'', False, TBool)]"

definition snapshot_type :: jtype where
  "snapshot_type = TObj [(''status'', False, TInt), (''delay_ms'', False, TInt),
     (''close_after_commit'', False, TBool), (''malformed_json'', False, TBool)]"

definition event_type :: jtype where
  "event_type = TObj [(''sequence'', True, TInt), (''at'', True, TStr), (''operation'', True, TStr),
     (''method'', True, TStr), (''path'', True, TStr), (''intent_id'', False, TStr), (''status'', True, TInt),
     (''fault'', False, snapshot_type)]"

definition references_type :: jtype where
  "references_type = TObj [(''operational_intent_references'', True, TList reference_type)]"

definition subscriber_type :: jtype where
  "subscriber_type = TObj [(''uss_base_url'', True, TStr), (''subscriptions'', True, TList (TObj
     [(''subscription_id'', True, TStr), (''notification_index'', True, TInt)]))]"

definition change_type :: jtype where
  "change_type = TObj [(''operational_intent_reference'', True, reference_type),
     (''subscribers'', True, TList subscriber_type)]"

definition details_type :: jtype where
  "details_type = TObj [(''operational_intent'', True, TObj [(''reference'', True, reference_type),
     (''details'', True, TObj [(''priority'', True, TInt), (''volumes'', True, TNullable (TList TAny)),
        (''off_nominal_volumes'', True, TList TAny)])])]"

definition error_type :: jtype where "error_type = TObj [(''error'', True, TStr)]"
definition message_type :: jtype where "message_type = TObj [(''message'', True, TStr), (''current_ovn'', False, TStr)]"

text \<open>The status and type of a successful reply; the endpoints that answer 204 have no document.\<close>

fun success :: "endpoint \<Rightarrow> (int \<times> jtype) option" where
  "success Healthz = Some (200, TObj [(''status'', True, TStr)])"
| "success Reset = None"
| "success ArmFault = Some (201, plan_type)"
| "success ClearFaults = None"
| "success Events = Some (200, TObj [(''events'', True, TNullable (TList event_type))])"
| "success State = Some (200, references_type)"
| "success RotateOVN = Some (200, reference_type)"
| "success QueryReferences = Some (200, references_type)"
| "success QuerySubscriptions = Some (200, TObj [(''subscriptions'', True, TList TAny)])"
| "success GetReference = Some (200, TObj [(''operational_intent_reference'', True, reference_type)])"
| "success CreateReference = Some (201, change_type)"
| "success UpdateReference = Some (200, change_type)"
| "success DeleteReference = Some (200, change_type)"
| "success PeerDetails = Some (200, details_type)"
| "success PeerNotify = None"

text \<open>The control plane reports errors under \<open>error\<close>, the DSS and peer surface under \<open>message\<close>.\<close>

fun failure_type :: "endpoint \<Rightarrow> jtype" where
  "failure_type ArmFault = error_type"
| "failure_type RotateOVN = error_type"
| "failure_type _ = message_type"

definition well_typed :: "endpoint \<Rightarrow> int \<Rightarrow> jval \<Rightarrow> bool" where
  "well_typed ep st v \<longleftrightarrow> (case success ep of None \<Rightarrow> False | Some (ok, t) \<Rightarrow> st = ok \<and> conforms v t) \<or>
     conforms v (failure_type ep)"

subsection \<open>The stored references\<close>

definition timed :: "reference \<Rightarrow> bool" where
  "timed r \<longleftrightarrow> conforms (rf_time_start r) time_type \<and> conforms (rf_time_end r) time_type"

definition timed_server :: "server \<Rightarrow> bool" where
  "timed_server s \<longleftrightarrow> (\<forall>iid r. sv_references s iid = Some r \<longrightarrow> timed r)"

lemma timed_put: "timed (put_reference env iid version body s)"
  by (simp add: timed_def put_reference_def Let_def rfc3339_time_def time_type_def)

lemma timed_bump [simp]: "timed (bump iid r) = timed r"
  by (simp add: timed_def bump_def Let_def)

interpretation timed: server_invariant timed_server
  by unfold_locales
    (auto simp: timed_server_def frame commit_put_def commit_delete_def handle_rotate_ovn_def handle_fault_def
      handle_clear_faults_def handle_reset_def Let_def timed_put split: option.splits sum.splits if_splits)

lemma timed_run: "timed_server (snd (run xs (new_server c)))"
  using timed.inv.R_run_any [of "new_server c" xs] by (simp add: timed_server_def new_server_def)

subsection \<open>The payloads\<close>

lemma reference_typed: "timed r \<Longrightarrow> conforms (reference_json r) reference_type"
  by (simp add: reference_json_def reference_type_def timed_def)

lemma references_typed: "list_all timed rs \<Longrightarrow> conforms (references_json rs) references_type"
  by (simp add: references_json_def references_type_def list_all_iff reference_typed)

lemma message_typed: "conforms (message_json m) message_type" "conforms (stale_json ovn) message_type"
  by (simp_all add: message_json_def stale_json_def message_type_def)

lemma error_typed: "conforms (error_json m) error_type"
  by (simp add: error_json_def error_type_def)

lemma plan_typed: "conforms (plan_json p) plan_type"
  by (auto simp: plan_json_def plan_type_def omit_empty_def)

lemma event_typed: "conforms (event_json e) event_type"
proof -
  have "conforms (snapshot_json f) snapshot_type" for f
    by (auto simp: snapshot_json_def snapshot_type_def omit_empty_def)
  then show ?thesis by (auto simp: event_json_def event_type_def omit_empty_def split: option.split)
qed

lemma subscribers_typed: "conforms (subscribers_json url) (TList subscriber_type)"
  by (simp add: subscribers_json_def subscriber_type_def)

lemma details_typed: "timed r \<Longrightarrow> conforms (details_json r) details_type"
  by (simp add: details_json_def details_type_def reference_typed nil_slice_json_def list_all_iff)

lemma change_typed: "timed r \<Longrightarrow> conforms (JObj [(''operational_intent_reference'', reference_json r),
    (''subscribers'', subscribers_json url)]) change_type"
  using subscribers_typed [of url] by (simp add: change_type_def reference_typed del: conforms.simps(6))

lemma change_empty_typed: "timed r \<Longrightarrow> conforms (JObj [(''operational_intent_reference'', reference_json r),
    (''subscribers'', JArr [])]) change_type"
  by (simp add: change_type_def reference_typed)

subsection \<open>The handlers\<close>

definition typed_out :: "endpoint \<Rightarrow> outcome \<Rightarrow> bool" where
  "typed_out ep out \<longleftrightarrow> (\<forall>st v. out = Reply st (BJson v) \<longrightarrow> well_typed ep st v)"

lemma typed_other [simp]: "typed_out ep Unwritten" "typed_out ep Dropped" "typed_out ep (Reply st BNone)"
    "typed_out ep (Reply st (BRaw t))"
  by (simp_all add: typed_out_def)

lemma typed_write_failure: "conforms v (failure_type ep) \<Longrightarrow> typed_out ep (write_json status (Some v))"
  by (auto simp: typed_out_def write_json_def write_header_def well_typed_def split: if_splits)

lemma typed_write_success:
  "success ep = Some (status, t) \<Longrightarrow> conforms v t \<Longrightarrow> status \<noteq> 204 \<Longrightarrow> 200 \<le> status \<Longrightarrow> typed_out ep (write_json status (Some v))"
  by (auto simp: typed_out_def write_json_def write_header_def well_typed_def split: if_splits)

lemma typed_respond:
  "typed_out ep (write_json status (Some v)) \<Longrightarrow> typed_out ep (fst (respond env rq operation iid status v fault s))"
  by (auto simp: respond_def Let_def typed_out_def write_header_def split: option.splits)

lemma typed_respond':
  "respond env rq operation iid status v fault s = (out, s') \<Longrightarrow> typed_out ep (write_json status (Some v)) \<Longrightarrow> typed_out ep out"
  using typed_respond [of ep status v env rq operation iid fault s] by simp

lemma typed_close: "failure_type ep = message_type \<Longrightarrow> typed_out ep (close_connection env)"
  by (auto simp: close_connection_def message_typed intro: typed_write_failure split: connection.split)

lemma typed_pre:
  assumes "pre_commit_fault env rq operation iid fault s = (Some out, s')" and "failure_type ep = message_type"
  shows "typed_out ep out"
proof -
  have "typed_out ep (write_json status (Some injected_failure))" for status
    by (rule typed_write_failure) (simp add: assms(2) injected_failure_def message_typed)
  with assms(1) show ?thesis
    by (auto simp: pre_commit_fault_def dest: typed_respond' split: option.splits if_splits prod.splits)
qed

lemma timed_take: "take_fault operation s = (fault, s') \<Longrightarrow> timed_server s \<Longrightarrow> timed_server s'"
  using timed.P_take [of s operation] by simp

lemma timed_values: "timed_server s \<Longrightarrow> list_all timed (range_vals ord (sv_references s))"
  by (auto simp: timed_server_def range_vals_def list_all_iff List.map_filter_def)

lemma timed_commit:
  assumes "commit_put env create iid ovn body s = (PutDone r, s')"
  shows "timed r"
  using assms timed_put by (auto simp: commit_put_def Let_def split: if_splits)

lemma timed_deleted: "commit_delete iid ovn s = (Some r, s') \<Longrightarrow> timed_server s \<Longrightarrow> timed r"
  by (auto simp: commit_delete_def timed_server_def split: option.splits if_splits)

lemma typed_message:
  "failure_type ep = message_type \<Longrightarrow> typed_out ep (write_json status (Some (message_json m)))"
  "failure_type ep = message_type \<Longrightarrow> typed_out ep (write_json status (Some (stale_json ovn)))"
  by (simp_all add: typed_write_failure message_typed)

lemma typed_put:
  "typed_out (if create then CreateReference else UpdateReference) (fst (handle_put_reference env rq create iid ovn s))"
  by (cases create)
    (auto simp: handle_put_reference_def Let_def typed_close typed_message change_typed timed_commit typed_pre
      intro!: typed_respond intro: typed_write_success
      split: prod.split option.split sum.split put_result.split)

lemma typed_delete:
  assumes "timed_server s"
  shows "typed_out DeleteReference (fst (handle_delete_reference env rq iid ovn s))"
proof -
  have "typed_out DeleteReference (write_json 200 (Some (JObj [(''operational_intent_reference'', reference_json (bump iid r)),
      (''subscribers'', JArr [])])))" if "timed r" for r
    using that by - (rule typed_write_success, rule success.simps, simp_all add: change_empty_typed del: conforms.simps)
  with assms show ?thesis
    by (auto simp: handle_delete_reference_def typed_close typed_message timed_deleted typed_pre timed_take
      intro!: typed_respond split: prod.split option.split dest: pre_commit_fault_None)
qed

lemma typed_reads:
  assumes "timed_server s"
  shows "typed_out QueryReferences (fst (handle_query_references env rq s))"
    and "typed_out QuerySubscriptions (fst (handle_subscriptions env rq s))"
    and "typed_out GetReference (fst (handle_get_reference env rq iid s))"
    and "typed_out PeerDetails (fst (handle_peer_details env rq iid s))"
    and "typed_out PeerNotify (fst (handle_peer_notification env rq s))"
proof -
  have found: "timed r" if "timed_server t" "sv_references t iid = Some r" for t r
    using that by (auto simp: timed_server_def)
  have doc: "typed_out QueryReferences (write_json 200 (Some (references_json rs)))" if "list_all timed rs" for rs
    using that by - (rule typed_write_success, rule success.simps, simp_all add: references_typed del: conforms.simps)
  show "typed_out QueryReferences (fst (handle_query_references env rq s))"
    using assms by (auto simp: handle_query_references_def typed_pre timed_take timed_values doc
      intro!: typed_respond split: prod.split option.split dest!: pre_commit_fault_None)
  have "typed_out QuerySubscriptions (write_json 200 (Some (JObj [(''subscriptions'', JArr [])])))"
    by - (rule typed_write_success, rule success.simps, simp_all)
  then show "typed_out QuerySubscriptions (fst (handle_subscriptions env rq s))"
    by (auto simp: handle_subscriptions_def typed_pre intro!: typed_respond split: prod.split option.split)
  have doc: "typed_out GetReference (write_json 200 (Some (JObj [(''operational_intent_reference'', reference_json r)])))"
    if "timed r" for r
    using that by - (rule typed_write_success, rule success.simps, simp_all add: reference_typed)
  show "typed_out GetReference (fst (handle_get_reference env rq iid s))"
    using assms by (auto simp: handle_get_reference_def typed_pre typed_message intro: found timed_take
      intro!: typed_respond doc split: prod.split option.split dest!: pre_commit_fault_None)
  have doc: "typed_out PeerDetails (write_json 200 (Some (details_json r)))" if "timed r" for r
    using that by - (rule typed_write_success, rule success.simps, simp_all add: details_typed del: conforms.simps)
  show "typed_out PeerDetails (fst (handle_peer_details env rq iid s))"
    using assms by (auto simp: handle_peer_details_def typed_pre typed_message intro: found timed_take
      intro!: typed_respond doc split: prod.split option.split dest!: pre_commit_fault_None)
  show "typed_out PeerNotify (fst (handle_peer_notification env rq s))"
    by (auto simp: handle_peer_notification_def typed_pre write_header_def split: prod.split option.split)
qed

lemma typed_control:
  assumes "timed_server s"
  shows "typed_out Healthz (fst (handle_healthz s))" "typed_out Reset (fst (handle_reset s))"
    "typed_out ArmFault (fst (handle_fault rq s))" "typed_out ClearFaults (fst (handle_clear_faults s))"
    "typed_out Events (fst (handle_events s))" "typed_out State (fst (handle_state env s))"
    "typed_out RotateOVN (fst (handle_rotate_ovn iid s))"
proof -
  show "typed_out Healthz (fst (handle_healthz s))"
    unfolding handle_healthz_def fst_conv by - (rule typed_write_success, rule success.simps, simp_all)
  show "typed_out Reset (fst (handle_reset s))" "typed_out ClearFaults (fst (handle_clear_faults s))"
    by (simp_all add: handle_reset_def handle_clear_faults_def write_json_def write_header_def)
  have "typed_out ArmFault (write_json 201 (Some (plan_json p)))" for p
    by - (rule typed_write_success, rule success.simps, simp_all add: plan_typed del: conforms.simps)
  moreover have "typed_out ArmFault (write_json 400 (Some (error_json m)))" for m
    by (rule typed_write_failure) (simp add: error_typed del: conforms.simps)
  ultimately show "typed_out ArmFault (fst (handle_fault rq s))"
    by (simp add: handle_fault_def split: sum.split)
  have "conforms (nil_slice_json (map event_json es)) (TNullable (TList event_type))" for es
    by (simp add: nil_slice_json_def list_all_iff event_typed)
  then show "typed_out Events (fst (handle_events s))"
    unfolding handle_events_def fst_conv
    by - (rule typed_write_success, rule success.simps, simp_all del: conforms.simps(2))
  show "typed_out State (fst (handle_state env s))"
    unfolding handle_state_def fst_conv using assms
    by - (rule typed_write_success, rule success.simps, simp_all add: references_typed timed_values del: conforms.simps)
  have doc: "typed_out RotateOVN (write_json 200 (Some (reference_json r)))" if "timed r" for r
    using that by - (rule typed_write_success, rule success.simps, simp_all add: reference_typed del: conforms.simps)
  moreover have "typed_out RotateOVN (write_json 404 (Some (error_json m)))" for m
    by (rule typed_write_failure) (simp add: error_typed del: conforms.simps)
  ultimately show "typed_out RotateOVN (fst (handle_rotate_ovn iid s))"
    using assms by (auto simp: handle_rotate_ovn_def Let_def timed_server_def split: option.split)
qed

lemma typed_handle: "timed_server s \<Longrightarrow> typed_out ep (fst (handle env rq ep args s))"
  using typed_put [of True] typed_put [of False]
  by (cases ep) (simp_all add: typed_control typed_reads typed_delete handle_create_reference_def handle_update_reference_def)

text \<open>
  C13: whatever requests a fixture has served, a reply with a JSON document comes from a registered
  endpoint, and either has that endpoint's success status and document type, with every required
  field and no other, or is an error document of its surface.
\<close>

theorem replies_are_well_typed:
  assumes "fst (serve env rq (snd (run xs (new_server c)))) = Reply st (BJson v)"
  shows "\<exists>ep args. mux_find routes (rq_method rq) (rq_path rq) = Some (ep, args) \<and> well_typed ep st v"
proof -
  let ?s = "snd (run xs (new_server c))"
  have out: "fst (dispatch env rq ?s) = Reply st (BJson v)"
    using assms by (cases "fst (dispatch env rq ?s)") (auto simp: serve_def split: prod.splits if_splits)
  then obtain ep args where found: "mux_find routes (rq_method rq) (rq_path rq) = Some (ep, args)"
    by (auto simp: dispatch_def mux_miss_def split: option.splits if_splits)
  with out have "fst (handle env rq ep args ?s) = Reply st (BJson v)" by (simp add: dispatch_def)
  with typed_handle [OF timed_run, of ep env rq args xs c] have "well_typed ep st v" by (simp add: typed_out_def)
  with found show ?thesis by blast
qed

theorem replies_are_well_typed_witness:
  "\<exists>ep args. mux_find routes ''GET'' [''healthz''] = Some (ep, args) \<and> well_typed ep 200 (JObj [(''status'', JStr ''ok'')])"
proof -
  have "mux_find routes ''GET'' [''healthz''] = Some (Healthz, [])" by (simp add: routes_def match_method_def)
  then have "fst (serve quiet_env (call ''GET'' [''healthz''] no_body) (snd (run [] (new_server example_config)))) =
      Reply 200 (BJson (JObj [(''status'', JStr ''ok'')]))"
    by (simp add: serve_def dispatch_def handle_healthz_def write_json_plain)
  from replies_are_well_typed [OF this] show ?thesis by simp
qed

end
