(* ===== verification/Fixture_Command.thy ===== *)
theory Fixture_Command
  imports Fixture_Requests
begin

section \<open>The fixture's command\<close>

text \<open>
  \<open>cmd/fault-fixture/main.go\<close>: the server the command line describes, behind an \<open>http.Server\<close>
  with its timeouts. Parsing the flags and listening are the standard library's; the result of
  \<open>ListenAndServe\<close> is an argument.
\<close>

record command_line =
  cm_addr :: string
  cm_peer_base_url :: string
  cm_subscriber_url :: string

definition flag_defaults :: command_line where
  "flag_defaults = \<lparr>cm_addr = '':8081'', cm_peer_base_url = ''http://fixture:8081'', cm_subscriber_url = []\<rparr>"

record http_server =
  hs_addr :: string
  hs_handler :: server
  hs_read_header_timeout :: int
  hs_idle_timeout :: int

definition command_server :: "command_line \<Rightarrow> http_server" where
  "command_server c = \<lparr>hs_addr = cm_addr c,
     hs_handler = new_server \<lparr>cf_manager = [], cf_peer_base_url = cm_peer_base_url c,
       cf_subscriber_url = cm_subscriber_url c\<rparr>,
     hs_read_header_timeout = 5 * nanos_per_second, hs_idle_timeout = 30 * nanos_per_second\<rparr>"

text \<open>The exit status; \<open>log.Fatal\<close> exits with 1.\<close>

definition server_closed :: go_error where
  "server_closed = ''http: Server closed''"

definition fault_fixture :: "(http_server \<Rightarrow> 'w \<Rightarrow> go_error option \<times> 'w) \<Rightarrow> command_line \<Rightarrow> 'w \<Rightarrow> nat \<times> 'w" where
  "fault_fixture listen_and_serve c w = (case listen_and_serve (command_server c) w of
     (None, w') \<Rightarrow> (0, w')
   | (Some e, w') \<Rightarrow> (if e \<noteq> server_closed then 1 else 0, w'))"

text \<open>A fixture started without flags owns its references as \<open>fixture-dss\<close> and advertises itself as the peer.\<close>

lemma default_fixture_reference:
  assumes "decode_stream decode_put b = Inr body" and "pr_uss_base_url body = []" and "iid \<noteq> []"
  shows "\<exists>r. sv_references (snd (serve env (create_call iid b) (hs_handler (command_server flag_defaults)))) iid = Some r \<and>
    rf_manager r = ''fixture-dss'' \<and> rf_uss_base_url r = ''http://fixture:8081'' \<and> rf_version r = 1"
  using assms
  by (simp add: serve_create handle_put_reference_def take_fault_def command_server_def flag_defaults_def new_server_def
      commit_put_def Let_def closes_after_commit_def snd_respond record_event_frame put_reference_def wrap64_def trim_right_def)

end
