(* ===== verification/Spec2Isabelle.thy ===== *)
theory Spec2Isabelle
  imports Fixture_Faults Injectors Invariants Scripted_Runs Report_Documents Repeat_Report
    Stack_Properties Real_Properties Interleaving_Properties Journal_Client Fixture_Replies
    Fixture_Command
begin

text \<open>
  Verification of the Aero Arc test harness, a Go program that drives a USS against a DSS and
  a peer, injects bounded faults, observes safety invariants across independent authorities
  and writes evidence reports.

  \<^bold>\<open>The parts and how they interact.\<close> Scenarios run through \<open>scenarios/runner.go\<close>, whose steps
  enable faults through an injector (\<open>faults/\<close>). One injector posts fault plans to the
  control plane of the deterministic fixture (\<open>internal/fixture/server.go\<close>), the other posts
  toxics to a Toxiproxy server through \<open>internal/toxiproxy/client.go\<close>. The probe of
  \<open>assertions/invariants.go\<close> compares a database with the references the DSS holds, which for
  the fixture it reads through the same control plane. The runner writes a timeline
  (\<open>reports/timeline.go\<close>); \<open>reports/report.go\<close> turns a \<open>go test -json\<close> stream and the timeline
  into a bundle, and \<open>cmd/e2e-repeat-report\<close> aggregates the bundles of many runs. The services
  run in containers: \<open>internal/stack/stack.go\<close> starts and resets the fixture profile and
  restarts its API, \<open>internal/realdss/stack.go\<close> starts an InterUSS DSS with two USSs and observes
  it under a token of its own.

  \<^bold>\<open>Theories.\<close>
  \<^item> \<open>Prelude\<close>: Go integers with their wrap-around, strings, number and time formats, ranging
    over a map in an order the model takes as an argument, and the locale \<open>slice_sorter\<close> for
    \<open>sort.Slice\<close> (interpreted for test results and for scenario rows).
  \<^item> \<open>Json\<close>, \<open>Http\<close>, \<open>Timestamps\<close>: what the sources use of the standard library: decoding
    into structs, the encoder's text, the mux, status and body rules, clients, escaped URL
    paths, RFC 3339.
  \<^item> \<open>Fixture_Server\<close>: the fixture. The record \<open>server\<close> is the struct \<open>Server\<close>, \<open>serve\<close> the mux
    in front of one function per handler, \<open>run\<close> a sequence of requests. What a handler observes
    but does not control (clock, connection, request context, map order) is the record \<open>env\<close>.
  \<^item> \<open>Fixture_Invariant\<close>, \<open>Fixture_Journal\<close>, \<open>Fixture_Requests\<close>, \<open>Fixture_Store\<close>,
    \<open>Fixture_Faults\<close>: the locales \<open>atomic_steps\<close> and \<open>server_invariant\<close> lift a relation or an
    invariant from the atomic steps of the handlers to runs; on them rest the well-formedness
    of the server, the journal, the refinement of an abstract store with optimistic
    concurrency control, and the behaviour of bounded faults.
  \<^item> \<open>Fixture_Concurrent\<close>, \<open>Fixture_Interleavings\<close>, \<open>Concurrent_Creates\<close>, \<open>Bounded_Schedules\<close>,
    \<open>Interleaving_Properties\<close>: the same handlers cut where they take the mutex or touch the atomic
    sequence. \<open>request_steps\<close> is a request in flight, \<open>sched\<close> a step of one of several, and \<open>alone\<close>
    ties both to \<open>serve\<close>. Commits linearize, schedules end, creates exclude each other, numbers are
    unique until a reset.
  \<^item> \<open>Fixture_Replies\<close>, \<open>Calendar\<close>, \<open>Journal_Client\<close>, \<open>Fixture_Command\<close>: the types of the reply
    documents, RFC 3339 read back for every year of four digits, \<open>DecodeEvents\<close> and
    \<open>ParseRetryAfter\<close>, and the command that serves the fixture.
  \<^item> \<open>Faults\<close>, \<open>Fixture_Injector\<close>, \<open>Toxiproxy\<close>, \<open>Injectors\<close>: the fault vocabulary, the
    interface \<open>Injector\<close> as the locale \<open>fault_injector\<close>, both adapters as its interpretations.
  \<^item> \<open>Invariants\<close>: the two checks, the probe, the locale \<open>dss_observer\<close> with the fixture's
    observer as interpretation, and the sampling loop.
  \<^item> \<open>Timeline\<close>, \<open>Runner\<close>, \<open>Scripted_Runs\<close>: one run of a scenario with its deferred cleanups.
  \<^item> \<open>Orchestration\<close>, \<open>Deployments\<close>: Docker, files and the network as the record \<open>machine\<close>,
    fallible steps with their triples, and what both environments share: the record
    \<open>deployment\<close>, ownership of containers, and the locale \<open>closable\<close> for \<open>Close\<close>.
  \<^item> \<open>Fixture_Stack\<close>, \<open>Stack_Lifecycle\<close>, \<open>Stack_Properties\<close>: the fixture profile. \<open>stack\<close> is the
    struct \<open>Stack\<close>, \<open>stack_start\<close>, \<open>StopAPI\<close>, \<open>StartAPI\<close>, \<open>StartReplacementAPI\<close>, \<open>stack_reset\<close>,
    \<open>stack_capture\<close> and \<open>stack_close\<close> its operations, \<open>env_step\<close> a step of its life.
  \<^item> \<open>Real_DSS\<close>, \<open>Real_Observer\<close>, \<open>Real_Properties\<close>: the real-DSS profile and its observer,
    a second interpretation of \<open>dss_observer\<close>.
  \<^item> \<open>Reports\<close>, \<open>Report_Parsing\<close>, \<open>Report_Documents\<close>, \<open>Repeat_Report\<close>: the report reader, its
    documents, and the aggregation of runs.

  \<^bold>\<open>Conventions.\<close> State is passed explicitly: an operation returns its result and the new
  state. Errors are values, \<open>Inl\<close> of the text or \<open>Some\<close> text where Go returns only an error.
  Whatever lies outside the harness (Toxiproxy, PostgreSQL, the file system, the context
  package, containers) is an argument of the definitions that use it, over an arbitrary world
  type.

  \<^bold>\<open>Bounds.\<close> \<open>Eventually\<close> takes fuel, one unit per sample; under a context with a deadline
  \<open>eventually_returns_by_deadline\<close> gives an amount that suffices. \<open>StartAPI\<close> takes fuel, one unit
  per readiness request, with \<open>restart_returns_by_deadline\<close> likewise. The percentile is exact for
  fewer than 2^48 durations, and the journal is numbered without repetition for runs of fewer
  than 2^64 requests.

  \<^bold>\<open>Docker.\<close> What the ownership theorems assume of Docker is \<open>docker_laws\<close>: a creation adds one
  container, a successful termination removes it, nothing else touches any. \<open>no_orphans\<close> and
  \<open>sure_terminate\<close> exclude creations that fail with a container left behind and terminations that
  fail; \<open>unready_replacement_stays\<close> shows what happens without the first.

  \<^bold>\<open>Concurrency.\<close> A request has at most four atomic steps, and \<open>sched\<close> interleaves those of any
  number of requests; that a handler reads the subscriber URL outside the mutex is harmless, since
  nothing writes it. The runner and the stacks are used by one goroutine and are modelled as such.

  \<^bold>\<open>Not modelled.\<close> Flag parsing and the listening socket, which are the standard library's; the
  tests and scripts; panics inside a scenario's actions; the encoder's refusal of a clock reading
  outside the years 0 to 9999.
\<close>

end
